theory Spec2Isabelle
  imports Complex_Main "HOL-Library.AList" "HOL-Library.Log_Nat"
begin

section \<open>Python values and built-ins used by the two modules\<close>

text \<open>
  Exceptions are values. Every method of a module object is a function from the object's
  state to a result (\<open>Inl\<close> the exception raised, \<open>Inr\<close> the value returned) paired with
  the state the object is left in, so that a mutation made before a \<open>raise\<close> stays
  visible to the \<open>except\<close> clause that catches it.

  Python dictionaries keep insertion order and assigning to an existing key keeps its
  position: they are association lists written with \<open>AList.update\<close> and read with
  \<open>map_of\<close>. Strings are lists of 8-bit characters.
\<close>

datatype error =
  UserWarning | KeyError | IndexError | ValueError | ZeroDivisionError | TypeError
  | OverflowError | YAMLError

type_synonym ('a, 's) se = "'s \<Rightarrow> (error + 'a) \<times> 's"

definition se_return :: "'a \<Rightarrow> ('a, 's) se" where
  "se_return x s = (Inr x, s)"

definition se_lift :: "error + 'a \<Rightarrow> ('a, 's) se" where
  "se_lift r s = (r, s)"

definition se_modify :: "('s \<Rightarrow> 's) \<Rightarrow> (unit, 's) se" where
  "se_modify f s = (Inr (), f s)"

definition se_bind :: "('a, 's) se \<Rightarrow> ('a \<Rightarrow> ('b, 's) se) \<Rightarrow> ('b, 's) se" where
  "se_bind m f s = (case m s of (Inl e, s') \<Rightarrow> (Inl e, s') | (Inr x, s') \<Rightarrow> f x s')"

definition TAB :: char where "TAB = CHR 0x09"
definition NL :: char where "NL = CHR 0x0A"

definition py_index :: "'a list \<Rightarrow> int \<Rightarrow> error + 'a" where
  \<comment> \<open>\<open>xs[i]\<close>: a negative index counts from the end, out of range raises IndexError\<close>
  "py_index xs i =
     (if 0 \<le> i \<and> i < int (length xs) then Inr (xs ! nat i)
      else if i < 0 \<and> - i \<le> int (length xs) then Inr (xs ! nat (int (length xs) + i))
      else Inl IndexError)"

definition dict_get :: "('k \<times> 'v) list \<Rightarrow> 'k \<Rightarrow> error + 'v" where
  \<comment> \<open>\<open>d[k]\<close>\<close>
  "dict_get d k = (case map_of d k of None \<Rightarrow> Inl KeyError | Some v \<Rightarrow> Inr v)"

definition py_rstrip :: "string \<Rightarrow> string \<Rightarrow> string" where
  \<comment> \<open>\<open>s.rstrip(chars)\<close>\<close>
  "py_rstrip chars s = rev (dropWhile (\<lambda>c. c \<in> set chars) (rev s))"

definition py_strip :: "string \<Rightarrow> string \<Rightarrow> string" where
  \<comment> \<open>\<open>s.strip(chars)\<close>\<close>
  "py_strip chars s = dropWhile (\<lambda>c. c \<in> set chars) (py_rstrip chars s)"

definition startswith :: "string \<Rightarrow> string \<Rightarrow> bool" where
  "startswith s p = (take (length p) s = p)"

function py_split_from :: "string \<Rightarrow> string \<Rightarrow> string \<Rightarrow> string list" where
  "py_split_from sep cur [] = [cur]"
| "py_split_from sep cur (c # cs) =
     (if sep \<noteq> [] \<and> startswith (c # cs) sep
      then cur # py_split_from sep [] (drop (length sep) (c # cs))
      else py_split_from sep (cur @ [c]) cs)"
  by pat_completeness auto
termination
  by (relation "measure (\<lambda>(sep, cur, s). length s)") auto

definition py_split :: "string \<Rightarrow> string \<Rightarrow> error + string list" where
  \<comment> \<open>\<open>s.split(sep)\<close>: the separator is matched left to right; an empty one raises\<close>
  "py_split s sep = (if sep = [] then Inl ValueError else Inr (py_split_from sep [] s))"

definition is_space :: "char \<Rightarrow> bool" where
  "is_space c = (of_char c \<in> {9, 10, 11, 12, 13, 28, 29, 30, 31, 32, 133, 160 :: nat})"

definition is_digit :: "char \<Rightarrow> bool" where
  "is_digit c = (48 \<le> (of_char c :: nat) \<and> (of_char c :: nat) \<le> 57)"

fun parse_digits :: "int \<Rightarrow> bool \<Rightarrow> string \<Rightarrow> int option" where
  "parse_digits acc prev [] = (if prev then Some acc else None)"
| "parse_digits acc prev (c # cs) =
     (if is_digit c then parse_digits (acc * 10 + (of_char c - 48)) True cs
      else if c = CHR ''_'' \<and> prev \<and> cs \<noteq> [] \<and> is_digit (hd cs) then parse_digits acc False cs
      else None)"

definition py_int :: "string \<Rightarrow> error + int" where
  \<comment> \<open>\<open>int(s)\<close> in base 10: surrounding whitespace, one sign, digits with single
      underscores between them; anything else raises ValueError\<close>
  "py_int s =
     (let t = dropWhile is_space (rev (dropWhile is_space (rev s)));
          neg = (t \<noteq> [] \<and> hd t = CHR ''-'');
          body = (if t \<noteq> [] \<and> (hd t = CHR ''-'' \<or> hd t = CHR ''+'') then tl t else t)
      in case parse_digits 0 False body of
           None \<Rightarrow> Inl ValueError
         | Some n \<Rightarrow> Inr (if neg then - n else n))"

fun map_int :: "string list \<Rightarrow> error + int list" where
  \<comment> \<open>\<open>list(map(int, xs))\<close>: the first string that is no integer raises\<close>
  "map_int [] = Inr []"
| "map_int (x # xs) =
     (case py_int x of Inl e \<Rightarrow> Inl e
      | Inr n \<Rightarrow> (case map_int xs of Inl e \<Rightarrow> Inl e | Inr ns \<Rightarrow> Inr (n # ns)))"

text \<open>
  A Python float is an IEEE 754 binary64 value. A finite value is written by the exact
  rational it denotes (\<open>Finite 0\<close> is +0.0); \<open>MinusZero\<close> is -0.0. An arithmetic
  operation returns the exact result rounded to the nearest double, ties to the even
  significand (\<open>round_double\<close>): 53 significant bits, least exponent -1022 (below it
  the spacing stays \<open>2^-1074\<close>, the subnormal numbers), and a rounded magnitude of
  \<open>2^1024\<close> or more is an infinity. The operations follow Python 3: \<open>*\<close>, \<open>+\<close>
  and \<open>-\<close> on floats never raise, \<open>/\<close> raises ZeroDivisionError on a zero divisor
  and nothing else, \<open>float()\<close> of an int beyond the double range raises
  OverflowError, and \<open>round(x, n)\<close> rounds the decimal expansion of \<open>x\<close> half to
  even and reads the result back as a double.
\<close>

datatype double = Finite rat | MinusZero | PlusInf | MinusInf | NaN

definition round_half_even :: "rat \<Rightarrow> int" where
  "round_half_even x =
     (let f = \<lfloor>x\<rfloor>; d = x - of_int f
      in if d < 1 / 2 then f else if 1 / 2 < d then f + 1 else if even f then f else f + 1)"

definition pow2 :: "int \<Rightarrow> rat" where
  "pow2 k = (if 0 \<le> k then 2 ^ nat k else 1 / 2 ^ nat (- k))"

definition ilog2 :: "rat \<Rightarrow> int" where
  \<comment> \<open>the exponent \<open>e\<close> with \<open>2^e \<le> |x| < 2^(e+1)\<close>, for \<open>x \<noteq> 0\<close>\<close>
  "ilog2 x =
     (let (p, q) = quotient_of \<bar>x\<bar>; d = bitlen p - bitlen q
      in if pow2 d \<le> \<bar>x\<bar> then d else d - 1)"

definition round_double :: "rat \<Rightarrow> double" where
  \<comment> \<open>the double nearest to the real number \<open>x\<close>; a result that rounds to zero keeps
      the sign of \<open>x\<close>\<close>
  "round_double x =
     (if x = 0 then Finite 0
      else let e = max (ilog2 x) (- 1022);
               u = pow2 (e - 52);
               r = of_int (round_half_even (x / u)) * u
           in if pow2 1024 \<le> \<bar>r\<bar> then (if 0 < x then PlusInf else MinusInf)
              else if r = 0 then (if 0 < x then Finite 0 else MinusZero)
              else Finite r)"

definition round_pack :: "rat \<Rightarrow> int \<Rightarrow> rat \<Rightarrow> double" where
  \<comment> \<open>the last step of \<open>round_double\<close>, for evaluation: below exponent 1023 the rounded
      value is not compared with \<open>2^1024\<close>\<close>
  "round_pack x e r =
     (if (if e < 1023 then False else pow2 1024 \<le> \<bar>r\<bar>) then (if 0 < x then PlusInf else MinusInf)
      else if r = 0 then (if 0 < x then Finite 0 else MinusZero)
      else Finite r)"

definition round_at :: "rat \<Rightarrow> int \<Rightarrow> double" where
  "round_at x e = round_pack x e (of_int (round_half_even (x / pow2 (e - 52))) * pow2 (e - 52))"

definition fl_is_zero :: "double \<Rightarrow> bool" where
  "fl_is_zero d = (d = Finite 0 \<or> d = MinusZero)"

definition fl_is_inf :: "double \<Rightarrow> bool" where
  "fl_is_inf d = (d = PlusInf \<or> d = MinusInf)"

fun fl_negative :: "double \<Rightarrow> bool" where
  \<comment> \<open>the sign bit\<close>
  "fl_negative (Finite q) = (q < 0)"
| "fl_negative MinusZero = True"
| "fl_negative MinusInf = True"
| "fl_negative _ = False"

fun fl_value :: "double \<Rightarrow> rat" where
  "fl_value (Finite q) = q"
| "fl_value _ = 0"

definition fl_zero :: "bool \<Rightarrow> double" where
  "fl_zero negative = (if negative then MinusZero else Finite 0)"

definition fl_inf :: "bool \<Rightarrow> double" where
  "fl_inf negative = (if negative then MinusInf else PlusInf)"

fun fl_neg :: "double \<Rightarrow> double" where
  "fl_neg (Finite q) = (if q = 0 then MinusZero else Finite (- q))"
| "fl_neg MinusZero = Finite 0"
| "fl_neg PlusInf = MinusInf"
| "fl_neg MinusInf = PlusInf"
| "fl_neg NaN = NaN"

definition fl_mul :: "double \<Rightarrow> double \<Rightarrow> double" where
  \<comment> \<open>\<open>a * b\<close> on floats: never raises\<close>
  "fl_mul a b =
     (if a = NaN \<or> b = NaN then NaN
      else if fl_is_inf a \<or> fl_is_inf b then
        (if fl_is_zero a \<or> fl_is_zero b then NaN else fl_inf (fl_negative a \<noteq> fl_negative b))
      else if fl_is_zero a \<or> fl_is_zero b then fl_zero (fl_negative a \<noteq> fl_negative b)
      else round_double (fl_value a * fl_value b))"

definition fl_div :: "double \<Rightarrow> double \<Rightarrow> double" where
  \<comment> \<open>the IEEE quotient; Python reaches it only with a divisor that is not zero\<close>
  "fl_div a b =
     (if a = NaN \<or> b = NaN then NaN
      else if fl_is_inf a then
        (if fl_is_inf b then NaN else fl_inf (fl_negative a \<noteq> fl_negative b))
      else if fl_is_inf b then fl_zero (fl_negative a \<noteq> fl_negative b)
      else if fl_is_zero b then
        (if fl_is_zero a then NaN else fl_inf (fl_negative a \<noteq> fl_negative b))
      else if fl_is_zero a then fl_zero (fl_negative a \<noteq> fl_negative b)
      else round_double (fl_value a / fl_value b))"

definition fl_add :: "double \<Rightarrow> double \<Rightarrow> double" where
  \<comment> \<open>\<open>a + b\<close> on floats: never raises; an exact sum of zero is +0.0 unless both
      operands are -0.0\<close>
  "fl_add a b =
     (if a = NaN \<or> b = NaN then NaN
      else if fl_is_inf a then (if fl_is_inf b \<and> a \<noteq> b then NaN else a)
      else if fl_is_inf b then b
      else if fl_value a + fl_value b = 0 then fl_zero (a = MinusZero \<and> b = MinusZero)
      else round_double (fl_value a + fl_value b))"

definition fl_sub :: "double \<Rightarrow> double \<Rightarrow> double" where
  \<comment> \<open>\<open>a - b\<close> on floats\<close>
  "fl_sub a b = fl_add a (fl_neg b)"

definition fl_eq :: "double \<Rightarrow> double \<Rightarrow> bool" where
  \<comment> \<open>\<open>a == b\<close> on floats: nan equals nothing, the two zeros are equal\<close>
  "fl_eq a b = (a \<noteq> NaN \<and> b \<noteq> NaN \<and> (a = b \<or> fl_is_zero a \<and> fl_is_zero b))"

fun fl_eq_int :: "double \<Rightarrow> int \<Rightarrow> bool" where
  \<comment> \<open>\<open>x == n\<close> for a float and an int: the values are compared exactly\<close>
  "fl_eq_int (Finite q) n = (q = of_int n)"
| "fl_eq_int MinusZero n = (n = 0)"
| "fl_eq_int _ n = False"

definition float_of_int :: "int \<Rightarrow> error + double" where
  \<comment> \<open>the conversion of an int operand: the nearest double, OverflowError beyond the range\<close>
  "float_of_int n =
     (case round_double (of_int n) of
        PlusInf \<Rightarrow> Inl OverflowError
      | MinusInf \<Rightarrow> Inl OverflowError
      | d \<Rightarrow> Inr d)"

datatype pyval = PyNone | PyInt int | PyFloat double

fun py_float :: "pyval \<Rightarrow> error + double" where
  \<comment> \<open>\<open>float(v)\<close>\<close>
  "py_float (PyInt n) = float_of_int n"
| "py_float (PyFloat x) = Inr x"
| "py_float PyNone = Inl TypeError"

fun py_mul :: "pyval \<Rightarrow> int \<Rightarrow> error + pyval" where
  \<comment> \<open>\<open>v * k\<close> for an int literal k\<close>
  "py_mul (PyInt n) k = Inr (PyInt (n * k))"
| "py_mul (PyFloat x) k =
     (case float_of_int k of Inl e \<Rightarrow> Inl e | Inr y \<Rightarrow> Inr (PyFloat (fl_mul x y)))"
| "py_mul PyNone k = Inl TypeError"

fun py_sub :: "pyval \<Rightarrow> pyval \<Rightarrow> error + pyval" where
  \<comment> \<open>\<open>a - b\<close>\<close>
  "py_sub (PyInt a) (PyInt b) = Inr (PyInt (a - b))"
| "py_sub (PyInt a) (PyFloat b) =
     (case float_of_int a of Inl e \<Rightarrow> Inl e | Inr x \<Rightarrow> Inr (PyFloat (fl_sub x b)))"
| "py_sub (PyFloat a) (PyInt b) =
     (case float_of_int b of Inl e \<Rightarrow> Inl e | Inr y \<Rightarrow> Inr (PyFloat (fl_sub a y)))"
| "py_sub (PyFloat a) (PyFloat b) = Inr (PyFloat (fl_sub a b))"
| "py_sub _ _ = Inl TypeError"

definition py_truediv :: "double \<Rightarrow> double \<Rightarrow> error + double" where
  \<comment> \<open>\<open>a / b\<close> on floats: a zero divisor of either sign raises, nothing else does\<close>
  "py_truediv a b = (if fl_is_zero b then Inl ZeroDivisionError else Inr (fl_div a b))"

definition py_round :: "double \<Rightarrow> nat \<Rightarrow> error + double" where
  \<comment> \<open>\<open>round(x, ndigits)\<close> for \<open>ndigits \<ge> 0\<close>: infinities and nan are returned as they
      are; a finite \<open>x\<close> is rounded, as the exact number it is, to \<open>ndigits\<close> decimals
      (ties to the even last digit) and that decimal number is read back as a double,
      with the sign of \<open>x\<close> when it is zero. More than 323 digits return \<open>x\<close>.\<close>
  "py_round x nd =
     (case x of
        Finite q \<Rightarrow>
          (if 323 < nd then Inr x
           else let d = of_int (round_half_even (q * 10 ^ nd)) / 10 ^ nd
                in if d = 0 then Inr (fl_zero (q < 0))
                   else (case round_double d of
                           PlusInf \<Rightarrow> Inl OverflowError
                         | MinusInf \<Rightarrow> Inl OverflowError
                         | r \<Rightarrow> Inr r))
      | _ \<Rightarrow> Inr x)"

section \<open>The AdapterRemoval module\<close>

text \<open>
  \<open>adapterRemoval.py\<close>, class \<open>MultiqcModule\<close>. The object's attributes are the
  fields of \<open>ar_module\<close>; \<open>s_name\<close> is \<open>None\<close> until the first file, so sample keys
  have type \<open>string option\<close>. A discovered file is its sample name and the lines that
  iterating its handle yields. File discovery and everything \<open>__init__\<close> does after
  the emptiness check (writing the data file, tables, plots) belong to the framework.
\<close>

type_synonym stats = "(string \<times> pyval) list"
type_synonym hist = "(int \<times> int) list"
type_synonym plot_data = "(string \<times> (string option \<times> hist) list) list"
type_synonym settings = "(string \<times> string list) list"

record ar_module =
  read_type :: "string option"
  collapsed :: "bool option"
  s_name :: "string option"
  adapter_removal_data :: "(string option \<times> stats) list"
  len_dist_plot_data :: plot_data
  result_data :: stats

record log_file =
  f_s_name :: string
  f_lines :: "string list"

definition ar_new :: ar_module where
  "ar_new = \<lparr>read_type = None, collapsed = None, s_name = None, adapter_removal_data = [],
     len_dist_plot_data =
       [(''mate1'', []), (''mate2'', []), (''singleton'', []), (''collapsed'', []),
        (''collapsed_truncated'', []), (''discarged'', []), (''all'', [])],
     result_data = []\<rparr>"

definition block_append :: "settings \<Rightarrow> string \<Rightarrow> string \<Rightarrow> error + settings" where
  \<comment> \<open>\<open>settings_data[block_title].append(line)\<close>\<close>
  "block_append settings_data block_title line =
     (case dict_get settings_data block_title of
        Inl e \<Rightarrow> Inl e
      | Inr ls \<Rightarrow> Inr (AList.update block_title (ls @ [line]) settings_data))"

fun read_blocks :: "string list \<Rightarrow> string option \<Rightarrow> settings \<Rightarrow> error + settings" where
  \<comment> \<open>the loop of \<open>parse_settings_file\<close>; \<open>not block_title\<close> holds for None and for ''\<close>
  "read_blocks [] block_title settings_data = Inr settings_data"
| "read_blocks (raw # rest) block_title settings_data =
     (let line = py_rstrip [NL] raw in
      if line = [] then read_blocks rest block_title settings_data
      else if block_title = None \<or> block_title = Some [] then
        (case block_append settings_data ''header'' line of
           Inl e \<Rightarrow> Inl e
         | Inr sd \<Rightarrow> read_blocks rest (Some ''header'') sd)
      else if startswith line ''['' then
        read_blocks rest (Some (py_strip ''[]'' line)) (AList.update (py_strip ''[]'' line) [] settings_data)
      else
        (case block_append settings_data (the block_title) line of
           Inl e \<Rightarrow> Inl e
         | Inr sd \<Rightarrow> read_blocks rest block_title sd))"

definition set_ar_type :: "string list \<Rightarrow> (unit, ar_module) se" where
  "set_ar_type len_dist_data =
     se_bind (se_lift (py_index len_dist_data 0)) (\<lambda>first.
     se_bind (se_lift (py_split (py_rstrip [NL] first) [TAB])) (\<lambda>head_line.
     se_bind (se_lift (py_index head_line 2)) (\<lambda>h2.
     se_bind (se_modify (\<lambda>st. st\<lparr>read_type := Some (if h2 = ''Mate2'' then ''paired'' else ''single'')\<rparr>)) (\<lambda>_.
     se_bind (se_lift (py_index head_line (- 3))) (\<lambda>h3.
     se_bind (se_modify (\<lambda>st. st\<lparr>collapsed := Some (h3 = ''CollapsedTruncated'')\<rparr>)) (\<lambda>_.
     (\<lambda>st. if read_type st = Some ''single'' \<and> collapsed st = Some True
           then (Inl UserWarning, st) else (Inr (), st))))))))"

definition required :: "string list" where
  "required = [''total'', ''unaligned'', ''aligned'', ''discarded_m1'', ''singleton_m1'',
     ''retained'', ''discarded_m2'', ''singleton_m2'', ''full-length_cp'', ''truncated_cp'']"

definition data_pattern :: "string option \<Rightarrow> bool option \<Rightarrow> (string \<times> int) list" where
  \<comment> \<open>\<open>not self.__collapsed\<close> is true for None and for False\<close>
  "data_pattern rt col =
     (let dp = [(''total'', 0), (''unaligned'', 1), (''aligned'', 2), (''discarded_m1'', 3),
                (''singleton_m1'', 4), (''retained'', 6)]
      in if rt = Some ''paired'' then
           (let dp2 = AList.update ''singleton_m2'' 6 (AList.update ''discarded_m2'' 5 dp)
            in if col \<noteq> Some True then AList.update ''retained'' 8 dp2
               else AList.update ''retained'' 10
                      (AList.update ''truncated_cp'' 9 (AList.update ''full-length_cp'' 8 dp2)))
         else dp)"

definition get_result :: "string \<Rightarrow> (pyval, ar_module) se" where
  \<comment> \<open>\<open>self.result_data[k]\<close>\<close>
  "get_result k st = (dict_get (result_data st) k, st)"

definition set_result :: "string \<Rightarrow> pyval \<Rightarrow> (unit, ar_module) se" where
  \<comment> \<open>\<open>self.result_data[k] = v\<close>\<close>
  "set_result k v st = (Inr (), st\<lparr>result_data := AList.update k v (result_data st)\<rparr>)"

definition field_value :: "string list \<Rightarrow> int \<Rightarrow> error + int" where
  \<comment> \<open>\<open>int(trim_data[ix].split(': ')[1])\<close>\<close>
  "field_value trim_data ix =
     (case py_index trim_data ix of
        Inl e \<Rightarrow> Inl e
      | Inr tmp \<Rightarrow>
          (case py_split tmp '': '' of
             Inl e \<Rightarrow> Inl e
           | Inr parts \<Rightarrow>
               (case py_index parts 1 of Inl e \<Rightarrow> Inl e | Inr v \<Rightarrow> py_int v)))"

fun set_fields :: "(string \<times> int) list \<Rightarrow> string list \<Rightarrow> string list \<Rightarrow> (unit, ar_module) se" where
  \<comment> \<open>\<open>for field in required\<close>\<close>
  "set_fields dp trim_data [] = se_return ()"
| "set_fields dp trim_data (field # rest) =
     (case map_of dp field of
        Some ix \<Rightarrow>
          se_bind (se_lift (field_value trim_data ix)) (\<lambda>n.
          se_bind (set_result field (PyInt n)) (\<lambda>_.
          set_fields dp trim_data rest))
      | None \<Rightarrow>
          se_bind (set_result field (PyInt 0)) (\<lambda>_. set_fields dp trim_data rest))"

definition doubled_totals :: "(pyval \<times> pyval \<times> pyval, ar_module) se" where
  \<comment> \<open>the three assignments under \<open>if self.__read_type == 'paired'\<close>\<close>
  "doubled_totals =
     se_bind (get_result ''total'') (\<lambda>t.
     se_bind (se_lift (py_mul t 2)) (\<lambda>reads_total.
     se_bind (get_result ''aligned'') (\<lambda>a.
     se_bind (se_lift (py_mul a 2)) (\<lambda>aligned_total.
     se_bind (get_result ''unaligned'') (\<lambda>u.
     se_bind (se_lift (py_mul u 2)) (\<lambda>unaligned_total.
     se_return (reads_total, aligned_total, unaligned_total)))))))"

definition derive_stats :: "(unit, ar_module) se" where
  \<comment> \<open>lines 153 to 167 of \<open>set_trim_stat\<close>\<close>
  "derive_stats =
     se_bind (get_result ''total'') (\<lambda>reads_total0.
     se_bind (get_result ''aligned'') (\<lambda>aligned_total0.
     se_bind (get_result ''unaligned'') (\<lambda>unaligned_total0.
     se_bind (\<lambda>st. if read_type st = Some ''paired'' then doubled_totals st
                   else (Inr (reads_total0, aligned_total0, unaligned_total0), st))
       (\<lambda>(reads_total, aligned_total, unaligned_total).
     se_bind (set_result ''aligned_total'' aligned_total) (\<lambda>_.
     se_bind (set_result ''unaligned_total'' unaligned_total) (\<lambda>_.
     se_bind (set_result ''reads_total'' reads_total) (\<lambda>_.
     se_bind (get_result ''retained'') (\<lambda>retained.
     se_bind (se_lift (py_sub reads_total retained)) (\<lambda>discarded_total.
     se_bind (set_result ''discarded_total'' discarded_total) (\<lambda>_.
     se_bind (get_result ''retained'') (\<lambda>retained.
     se_bind (get_result ''singleton_m1'') (\<lambda>m1.
     se_bind (se_lift (py_sub retained m1)) (\<lambda>d1.
     se_bind (get_result ''singleton_m2'') (\<lambda>m2.
     se_bind (se_lift (py_sub d1 m2)) (\<lambda>retained_reads.
     se_bind (set_result ''retained_reads'' retained_reads) (\<lambda>_.
     se_bind (get_result ''aligned'') (\<lambda>aligned.
     se_bind (se_lift (py_float aligned)) (\<lambda>fa.
     se_bind (get_result ''total'') (\<lambda>total.
     se_bind (se_lift (py_float total)) (\<lambda>ft.
     se_bind (se_lift (py_truediv (fl_mul fa (Finite 100)) ft)) (\<lambda>q.
     se_bind (se_lift (py_round q 2)) (\<lambda>percent.
     set_result ''percent_aligned'' (PyFloat percent)))))))))))))))))))))))"

definition set_trim_stat :: "string list \<Rightarrow> (unit, ar_module) se" where
  "set_trim_stat trim_data =
     se_bind (\<lambda>st. (Inr (data_pattern (read_type st) (collapsed st)), st)) (\<lambda>dp.
     se_bind (set_fields dp trim_data required) (\<lambda>_. derive_stats))"


definition plot_has :: "string \<Rightarrow> (bool, ar_module) se" where
  \<comment> \<open>\<open>self.s_name in self.len_dist_plot_data[cat]\<close>\<close>
  "plot_has cat st =
     (case dict_get (len_dist_plot_data st) cat of
        Inl e \<Rightarrow> (Inl e, st)
      | Inr by_sample \<Rightarrow> (Inr (s_name st \<in> set (map fst by_sample)), st))"

definition plot_init :: "string \<Rightarrow> (unit, ar_module) se" where
  \<comment> \<open>\<open>self.len_dist_plot_data[cat][self.s_name] = dict()\<close>\<close>
  "plot_init cat st =
     (case dict_get (len_dist_plot_data st) cat of
        Inl e \<Rightarrow> (Inl e, st)
      | Inr by_sample \<Rightarrow>
          (Inr (), st\<lparr>len_dist_plot_data :=
             AList.update cat (AList.update (s_name st) [] by_sample) (len_dist_plot_data st)\<rparr>))"

definition plot_store :: "string \<Rightarrow> int list \<Rightarrow> int \<Rightarrow> (unit, ar_module) se" where
  \<comment> \<open>the target of \<open>self.len_dist_plot_data[cat][self.s_name][l_data[0]] = v\<close>\<close>
  "plot_store cat l_data v st =
     (case dict_get (len_dist_plot_data st) cat of
        Inl e \<Rightarrow> (Inl e, st)
      | Inr by_sample \<Rightarrow>
          (case dict_get by_sample (s_name st) of
             Inl e \<Rightarrow> (Inl e, st)
           | Inr h \<Rightarrow>
               (case py_index l_data 0 of
                  Inl e \<Rightarrow> (Inl e, st)
                | Inr len \<Rightarrow>
                    (Inr (), st\<lparr>len_dist_plot_data :=
                       AList.update cat (AList.update (s_name st) (AList.update len v h) by_sample)
                         (len_dist_plot_data st)\<rparr>))))"

definition store_col :: "string \<Rightarrow> int list \<Rightarrow> int \<Rightarrow> (unit, ar_module) se" where
  \<comment> \<open>\<open>... = l_data[k]\<close>: the right-hand side is evaluated first\<close>
  "store_col cat l_data k = se_bind (se_lift (py_index l_data k)) (\<lambda>v. plot_store cat l_data v)"

definition init_sample :: "(unit, ar_module) se" where
  \<comment> \<open>the seven assignments under \<open># initialize file name\<close>\<close>
  "init_sample =
     se_bind (plot_init ''mate1'') (\<lambda>_.
     se_bind (plot_init ''mate2'') (\<lambda>_.
     se_bind (plot_init ''singleton'') (\<lambda>_.
     se_bind (plot_init ''collapsed'') (\<lambda>_.
     se_bind (plot_init ''collapsed_truncated'') (\<lambda>_.
     se_bind (plot_init ''discarged'') (\<lambda>_.
     plot_init ''all''))))))"

definition store_single :: "int list \<Rightarrow> (unit, ar_module) se" where
  \<comment> \<open>lines 187 to 193: single-end, not collapsed\<close>
  "store_single l_data =
     se_bind (store_col ''mate1'' l_data 1) (\<lambda>_.
     se_bind (plot_store ''mate2'' l_data 0) (\<lambda>_.
     se_bind (plot_store ''singleton'' l_data 0) (\<lambda>_.
     se_bind (plot_store ''collapsed'' l_data 0) (\<lambda>_.
     se_bind (plot_store ''collapsed_truncated'' l_data 0) (\<lambda>_.
     se_bind (store_col ''discarged'' l_data 2) (\<lambda>_.
     store_col ''all'' l_data 3))))))"

definition store_paired :: "int list \<Rightarrow> (unit, ar_module) se" where
  \<comment> \<open>lines 199 to 205: paired-end, not collapsed\<close>
  "store_paired l_data =
     se_bind (store_col ''mate1'' l_data 1) (\<lambda>_.
     se_bind (store_col ''mate2'' l_data 2) (\<lambda>_.
     se_bind (store_col ''singleton'' l_data 3) (\<lambda>_.
     se_bind (plot_store ''collapsed'' l_data 0) (\<lambda>_.
     se_bind (plot_store ''collapsed_truncated'' l_data 0) (\<lambda>_.
     se_bind (store_col ''discarged'' l_data 4) (\<lambda>_.
     store_col ''all'' l_data 5))))))"

definition store_collapsed :: "int list \<Rightarrow> (unit, ar_module) se" where
  \<comment> \<open>lines 207 to 213: paired-end, collapsed\<close>
  "store_collapsed l_data =
     se_bind (store_col ''mate1'' l_data 1) (\<lambda>_.
     se_bind (store_col ''mate2'' l_data 2) (\<lambda>_.
     se_bind (store_col ''singleton'' l_data 3) (\<lambda>_.
     se_bind (store_col ''collapsed'' l_data 4) (\<lambda>_.
     se_bind (store_col ''collapsed_truncated'' l_data 5) (\<lambda>_.
     se_bind (store_col ''discarged'' l_data 6) (\<lambda>_.
     store_col ''all'' l_data 7))))))"

definition store_row :: "int list \<Rightarrow> (unit, ar_module) se" where
  \<comment> \<open>the branches on the run mode; single-end and collapsed is \<open>pass\<close>\<close>
  "store_row l_data st =
     (if read_type st = Some ''single'' then
        (if collapsed st \<noteq> Some True then store_single l_data st else (Inr (), st))
      else
        (if collapsed st \<noteq> Some True then store_paired l_data st
         else store_collapsed l_data st))"

definition len_dist_row :: "int list \<Rightarrow> (unit, ar_module) se" where
  \<comment> \<open>the body of the loop of \<open>set_len_dist\<close> after \<open>l_data\<close> is computed\<close>
  "len_dist_row l_data =
     se_bind (plot_has ''mate1'') (\<lambda>present.
     se_bind (if \<not> present then init_sample else se_return ()) (\<lambda>_.
     store_row l_data))"

definition row_ints :: "string \<Rightarrow> error + int list" where
  \<comment> \<open>\<open>list(map(int, line.rstrip('\n').split('\t')))\<close>\<close>
  "row_ints line =
     (case py_split (py_rstrip [NL] line) [TAB] of Inl e \<Rightarrow> Inl e | Inr cols \<Rightarrow> map_int cols)"

fun len_dist_rows :: "string list \<Rightarrow> (unit, ar_module) se" where
  \<comment> \<open>\<open>for line in len_dist_data[1:]\<close>\<close>
  "len_dist_rows [] = se_return ()"
| "len_dist_rows (line # rest) =
     se_bind (se_lift (row_ints line)) (\<lambda>l_data.
     se_bind (len_dist_row l_data) (\<lambda>_. len_dist_rows rest))"

definition set_len_dist :: "string list \<Rightarrow> (unit, ar_module) se" where
  "set_len_dist len_dist_data = len_dist_rows (drop 1 len_dist_data)"

definition set_result_data :: "settings \<Rightarrow> (unit, ar_module) se" where
  "set_result_data settings_data =
     se_bind (se_lift (dict_get settings_data ''Length distribution'')) (\<lambda>len_dist_data.
     se_bind (set_ar_type len_dist_data) (\<lambda>_.
     se_bind (se_lift (dict_get settings_data ''Trimming statistics'')) (\<lambda>trim_data.
     se_bind (set_trim_stat trim_data) (\<lambda>_.
     se_bind (se_lift (dict_get settings_data ''Length distribution'')) (\<lambda>len_dist_data.
     set_len_dist len_dist_data)))))"

definition empty_result :: stats where
  "empty_result = [(''total'', PyNone), (''unaligned'', PyNone), (''aligned'', PyNone),
     (''reads_total'', PyNone), (''retained'', PyNone), (''percent_aligned'', PyNone)]"

definition parse_settings_file :: "log_file \<Rightarrow> (stats, ar_module) se" where
  "parse_settings_file f =
     se_bind (se_modify (\<lambda>st. st\<lparr>result_data := empty_result\<rparr>)) (\<lambda>_.
     se_bind (se_lift (read_blocks (f_lines f) None [(''header'', [])])) (\<lambda>settings_data.
     se_bind (set_result_data settings_data) (\<lambda>_.
     (\<lambda>st. (Inr (result_data st), st)))))"

fun ar_files_loop :: "log_file list \<Rightarrow> stats option \<Rightarrow> (unit, ar_module) se" where
  \<comment> \<open>the loop of \<open>__init__\<close>: only UserWarning is caught, and the file is then skipped\<close>
  "ar_files_loop [] parsed_data st = (Inr (), st)"
| "ar_files_loop (f # fs) parsed_data st =
     (case parse_settings_file f (st\<lparr>s_name := Some (f_s_name f)\<rparr>) of
        (Inl e, st') \<Rightarrow>
          if e = UserWarning then ar_files_loop fs parsed_data st' else (Inl e, st')
      | (Inr r, st') \<Rightarrow>
          (case Some r of
             None \<Rightarrow> ar_files_loop fs None st'
           | Some d \<Rightarrow>
               ar_files_loop fs (Some d)
                 (st'\<lparr>adapter_removal_data := AList.update (s_name st') d (adapter_removal_data st')\<rparr>)))"

definition ar_init :: "log_file list \<Rightarrow> error + ar_module" where
  \<comment> \<open>\<open>__init__\<close> up to the emptiness check; an exception leaves no object\<close>
  "ar_init files =
     (case ar_files_loop files None ar_new of
        (Inl e, st) \<Rightarrow> Inl e
      | (Inr _, st) \<Rightarrow>
          if length (adapter_removal_data st) = 0 then Inl UserWarning else Inr st)"


section \<open>The pycoQC module\<close>

text \<open>
  \<open>pycoqc.py\<close>, class \<open>MultiqcModule\<close>. A deserialized document is a value of
  \<open>yaml\<close>: null, booleans, integers, floats, strings, sequences and mappings (a mapping
  holds its items in insertion order). The YAML loader is a library function and a
  parameter of the model: \<open>yaml_load content\<close> is \<open>None\<close> when \<open>yaml.load\<close> raises
  its \<open>YAMLError\<close>. The calls of \<open>__init__\<close> after \<open>setup_data\<close> (headers, tables,
  plots) belong to the framework.
\<close>

datatype yaml =
  YNull | YBool bool | YInt int | YFloat double | YStr string | YSeq "yaml list"
  | YMap "(yaml \<times> yaml) list"

type_synonym ydict = "(yaml \<times> yaml) list"
type_synonym row = "(string \<times> yaml) list"

fun int_val :: "yaml \<Rightarrow> int option" where
  \<comment> \<open>the integer an int or a bool is (\<open>bool\<close> is a subclass of \<open>int\<close>)\<close>
  "int_val (YBool b) = Some (if b then 1 else 0)"
| "int_val (YInt n) = Some n"
| "int_val _ = None"

fun num_val :: "yaml \<Rightarrow> (int + double) option" where
  "num_val (YFloat x) = Some (Inr x)"
| "num_val v = map_option Inl (int_val v)"

fun num_eq :: "int + double \<Rightarrow> int + double \<Rightarrow> bool" where
  "num_eq (Inl m) (Inl n) = (m = n)"
| "num_eq (Inl m) (Inr y) = fl_eq_int y m"
| "num_eq (Inr x) (Inl n) = fl_eq_int x n"
| "num_eq (Inr x) (Inr y) = fl_eq x y"

definition py_eq :: "yaml \<Rightarrow> yaml \<Rightarrow> bool" where
  \<comment> \<open>\<open>a == b\<close>: numbers compare by value, so that 50, 50.0 are one dictionary key\<close>
  "py_eq a b =
     (case (num_val a, num_val b) of
        (Some x, Some y) \<Rightarrow> num_eq x y
      | (None, None) \<Rightarrow> a = b
      | _ \<Rightarrow> False)"

fun hashable :: "yaml \<Rightarrow> bool" where
  "hashable (YSeq _) = False"
| "hashable (YMap _) = False"
| "hashable _ = True"

fun ydict_find :: "ydict \<Rightarrow> yaml \<Rightarrow> yaml option" where
  "ydict_find [] k = None"
| "ydict_find ((k', v) # rest) k = (if py_eq k' k then Some v else ydict_find rest k)"

fun ydict_insert :: "yaml \<Rightarrow> yaml \<Rightarrow> ydict \<Rightarrow> ydict" where
  "ydict_insert k v [] = [(k, v)]"
| "ydict_insert k v ((k', v') # rest) =
     (if py_eq k' k then (k', v) # rest else (k', v') # ydict_insert k v rest)"

fun py_getitem :: "yaml \<Rightarrow> yaml \<Rightarrow> error + yaml" where
  \<comment> \<open>\<open>obj[k]\<close>\<close>
  "py_getitem (YMap m) k =
     (if hashable k then (case ydict_find m k of None \<Rightarrow> Inl KeyError | Some v \<Rightarrow> Inr v)
      else Inl TypeError)"
| "py_getitem (YSeq xs) (YInt i) = py_index xs i"
| "py_getitem (YSeq xs) (YBool b) = py_index xs (if b then 1 else 0)"
| "py_getitem (YStr s) (YInt i) = map_sum id (\<lambda>c. YStr [c]) (py_index s i)"
| "py_getitem (YStr s) (YBool b) = map_sum id (\<lambda>c. YStr [c]) (py_index s (if b then 1 else 0))"
| "py_getitem _ _ = Inl TypeError"

fun lookup_path :: "yaml \<Rightarrow> yaml list \<Rightarrow> error + yaml" where
  \<comment> \<open>\<open>obj[k1][k2]...\<close>\<close>
  "lookup_path obj [] = Inr obj"
| "lookup_path obj (k # ks) =
     (case py_getitem obj k of Inl e \<Rightarrow> Inl e | Inr v \<Rightarrow> lookup_path v ks)"

definition float_operand :: "yaml \<Rightarrow> (error + double) option" where
  \<comment> \<open>a number as the operand of a float operation: an int is converted and may overflow\<close>
  "float_operand v =
     (case num_val v of
        None \<Rightarrow> None
      | Some (Inl n) \<Rightarrow> Some (float_of_int n)
      | Some (Inr x) \<Rightarrow> Some (Inr x))"

definition py_arith ::
  "(int \<Rightarrow> int \<Rightarrow> int) \<Rightarrow> (double \<Rightarrow> double \<Rightarrow> double) \<Rightarrow> yaml \<Rightarrow> yaml \<Rightarrow> error + yaml" where
  \<comment> \<open>\<open>a + b\<close>, \<open>a - b\<close> on numbers: ints and bools give an exact int; a float operand
      makes it the float operation, on the other operand converted to a float\<close>
  "py_arith iop fop a b =
     (case (int_val a, int_val b) of
        (Some m, Some n) \<Rightarrow> Inr (YInt (iop m n))
      | _ \<Rightarrow>
          (case (float_operand a, float_operand b) of
             (Some (Inr x), Some (Inr y)) \<Rightarrow> Inr (YFloat (fop x y))
           | (Some (Inl e), Some _) \<Rightarrow> Inl e
           | (Some _, Some (Inl e)) \<Rightarrow> Inl e
           | _ \<Rightarrow> Inl TypeError))"

definition py_ysub :: "yaml \<Rightarrow> yaml \<Rightarrow> error + yaml" where
  \<comment> \<open>\<open>a - b\<close>\<close>
  "py_ysub = py_arith (-) fl_sub"

definition py_yadd :: "yaml \<Rightarrow> yaml \<Rightarrow> error + yaml" where
  \<comment> \<open>\<open>a + b\<close> on numbers\<close>
  "py_yadd = py_arith (+) fl_add"

fun py_iter :: "yaml \<Rightarrow> error + yaml list" where
  \<comment> \<open>the items \<open>zip\<close> draws from an argument\<close>
  "py_iter (YSeq xs) = Inr xs"
| "py_iter (YStr s) = Inr (map (\<lambda>c. YStr [c]) s)"
| "py_iter (YMap m) = Inr (map fst m)"
| "py_iter _ = Inl TypeError"

fun dict_of_pairs :: "ydict \<Rightarrow> (yaml \<times> yaml) list \<Rightarrow> error + ydict" where
  \<comment> \<open>\<open>dict(pairs)\<close>: a later pair replaces the value of an equal key\<close>
  "dict_of_pairs acc [] = Inr acc"
| "dict_of_pairs acc ((k, v) # rest) =
     (if hashable k then dict_of_pairs (ydict_insert k v acc) rest else Inl TypeError)"

definition dict_zip :: "yaml \<Rightarrow> yaml \<Rightarrow> error + ydict" where
  \<comment> \<open>\<open>dict(zip(x, y))\<close>\<close>
  "dict_zip x y =
     (case py_iter x of Inl e \<Rightarrow> Inl e
      | Inr xs \<Rightarrow> (case py_iter y of Inl e \<Rightarrow> Inl e | Inr ys \<Rightarrow> dict_of_pairs [] (zip xs ys)))"

fun build_row :: "yaml \<Rightarrow> (string \<times> yaml list) list \<Rightarrow> error + row" where
  \<comment> \<open>a dictionary display whose values are subscript chains on one document,
      evaluated in the order written\<close>
  "build_row doc [] = Inr []"
| "build_row doc ((name, path) # rest) =
     (case lookup_path doc path of
        Inl e \<Rightarrow> Inl e
      | Inr v \<Rightarrow> (case build_row doc rest of Inl e \<Rightarrow> Inl e | Inr r \<Rightarrow> Inr ((name, v) # r)))"

definition basecall :: "string \<Rightarrow> string \<Rightarrow> yaml list" where
  "basecall branch field = [YStr branch, YStr ''basecall'', YStr field]"

definition run_field :: "string \<Rightarrow> string \<Rightarrow> yaml list" where
  "run_field branch field = [YStr branch, YStr ''run'', YStr field]"

definition table_fields :: "(string \<times> yaml list) list" where
  "table_fields =
     [(''all_median_read_length'', basecall ''All Reads'' ''len_percentiles'' @ [YInt 50]),
      (''all_median_phred_score'', basecall ''All Reads'' ''qual_score_percentiles'' @ [YInt 50]),
      (''all_n50'', basecall ''All Reads'' ''N50''),
      (''all_run_duration'', run_field ''All Reads'' ''run_duration''),
      (''all_channels'', run_field ''All Reads'' ''active_channels''),
      (''all_reads'', basecall ''All Reads'' ''reads_number''),
      (''all_bases'', basecall ''All Reads'' ''bases_number''),
      (''passed_median_read_length'', basecall ''Pass Reads'' ''len_percentiles'' @ [YInt 50]),
      (''passed_median_phred_score'', basecall ''Pass Reads'' ''qual_score_percentiles'' @ [YInt 50]),
      (''passed_n50'', basecall ''Pass Reads'' ''N50''),
      (''passed_channels'', run_field ''Pass Reads'' ''active_channels''),
      (''passed_reads'', basecall ''Pass Reads'' ''reads_number''),
      (''passed_bases'', basecall ''Pass Reads'' ''bases_number'')]"

definition split_counts :: "yaml \<Rightarrow> string \<Rightarrow> string \<Rightarrow> string \<Rightarrow> error + row" where
  \<comment> \<open>\<open>{passed: Pass[field], non_passed: All[field] - Pass[field]}\<close>\<close>
  "split_counts doc field passed non_passed =
     (case lookup_path doc (basecall ''Pass Reads'' field) of
        Inl e \<Rightarrow> Inl e
      | Inr p \<Rightarrow>
          (case lookup_path doc (basecall ''All Reads'' field) of
             Inl e \<Rightarrow> Inl e
           | Inr a \<Rightarrow>
               (case lookup_path doc (basecall ''Pass Reads'' field) of
                  Inl e \<Rightarrow> Inl e
                | Inr p' \<Rightarrow>
                    (case py_ysub a p' of
                       Inl e \<Rightarrow> Inl e
                     | Inr d \<Rightarrow> Inr [(passed, p), (non_passed, d)]))))"

definition hist_plot :: "yaml \<Rightarrow> string \<Rightarrow> string \<Rightarrow> error + ydict" where
  \<comment> \<open>\<open>dict(zip(doc[branch]['basecall'][h]['x'], doc[branch]['basecall'][h]['y']))\<close>\<close>
  "hist_plot doc branch h =
     (case lookup_path doc (basecall branch h @ [YStr ''x'']) of
        Inl e \<Rightarrow> Inl e
      | Inr x \<Rightarrow>
          (case lookup_path doc (basecall branch h @ [YStr ''y'']) of
             Inl e \<Rightarrow> Inl e
           | Inr y \<Rightarrow> dict_zip x y))"

record sample_out =
  o_table :: row
  o_reads :: row
  o_bases :: row
  o_length_all :: ydict
  o_length_pass :: ydict
  o_qual_all :: ydict
  o_qual_pass :: ydict

definition setup_sample :: "yaml \<Rightarrow> error + sample_out" where
  \<comment> \<open>the body of the loop of \<open>setup_data\<close>\<close>
  "setup_sample sample_data =
     (case build_row sample_data table_fields of Inl e \<Rightarrow> Inl e | Inr t \<Rightarrow>
      case split_counts sample_data ''reads_number'' ''passed_reads'' ''non_passed_reads'' of
        Inl e \<Rightarrow> Inl e | Inr r \<Rightarrow>
      case split_counts sample_data ''bases_number'' ''passed_bases'' ''non_passed_bases'' of
        Inl e \<Rightarrow> Inl e | Inr b \<Rightarrow>
      case hist_plot sample_data ''All Reads'' ''len_hist'' of Inl e \<Rightarrow> Inl e | Inr la \<Rightarrow>
      case hist_plot sample_data ''Pass Reads'' ''len_hist'' of Inl e \<Rightarrow> Inl e | Inr lp \<Rightarrow>
      case hist_plot sample_data ''All Reads'' ''qual_score_hist'' of Inl e \<Rightarrow> Inl e | Inr qa \<Rightarrow>
      case hist_plot sample_data ''Pass Reads'' ''qual_score_hist'' of Inl e \<Rightarrow> Inl e | Inr qp \<Rightarrow>
        Inr \<lparr>o_table = t, o_reads = r, o_bases = b, o_length_all = la, o_length_pass = lp,
             o_qual_all = qa, o_qual_pass = qp\<rparr>)"

record pycoqc_module =
  pycoqc_data :: "(string \<times> yaml) list"
  table_data :: "(string \<times> row) list"
  reads_data :: "(string \<times> row) list"
  bases_data :: "(string \<times> row) list"
  read_lenght_plot_data :: "(string \<times> ydict) list list"
  quality_plot_data :: "(string \<times> ydict) list list"

definition setup_new :: "(string \<times> yaml) list \<Rightarrow> pycoqc_module" where
  "setup_new d = \<lparr>pycoqc_data = d, table_data = [], reads_data = [], bases_data = [],
     read_lenght_plot_data = [[], []], quality_plot_data = [[], []]\<rparr>"

definition setup_store :: "string \<Rightarrow> sample_out \<Rightarrow> pycoqc_module \<Rightarrow> pycoqc_module" where
  \<comment> \<open>the seven assignments \<open>...[sample] = ...\<close>\<close>
  "setup_store sample out m =
     m\<lparr>table_data := AList.update sample (o_table out) (table_data m),
       reads_data := AList.update sample (o_reads out) (reads_data m),
       bases_data := AList.update sample (o_bases out) (bases_data m),
       read_lenght_plot_data :=
         [AList.update sample (o_length_all out) (read_lenght_plot_data m ! 0),
          AList.update sample (o_length_pass out) (read_lenght_plot_data m ! 1)],
       quality_plot_data :=
         [AList.update sample (o_qual_all out) (quality_plot_data m ! 0),
          AList.update sample (o_qual_pass out) (quality_plot_data m ! 1)]\<rparr>"

fun setup_loop :: "(string \<times> yaml) list \<Rightarrow> pycoqc_module \<Rightarrow> error + pycoqc_module" where
  \<comment> \<open>\<open>for sample, sample_data in self.pycoqc_data.items()\<close>\<close>
  "setup_loop [] m = Inr m"
| "setup_loop ((sample, sample_data) # rest) m =
     (case setup_sample sample_data of
        Inl e \<Rightarrow> Inl e
      | Inr out \<Rightarrow> setup_loop rest (setup_store sample out m))"

definition setup_data :: "(string \<times> yaml) list \<Rightarrow> error + pycoqc_module" where
  "setup_data d = setup_loop d (setup_new d)"

record report_file =
  r_s_name :: string
  r_fn :: string
  r_f :: string

definition parse_logs :: "(string \<Rightarrow> yaml option) \<Rightarrow> string \<Rightarrow> error + yaml" where
  "parse_logs yaml_load f = (case yaml_load f of None \<Rightarrow> Inl YAMLError | Some d \<Rightarrow> Inr d)"

fun pycoqc_files_loop ::
  "(string \<Rightarrow> yaml option) \<Rightarrow> report_file list \<Rightarrow> (string \<times> yaml) list
     \<Rightarrow> error + (string \<times> yaml) list" where
  \<comment> \<open>the loop of \<open>__init__\<close>; a duplicate sample name is only written to the debug log\<close>
  "pycoqc_files_loop yaml_load [] d = Inr d"
| "pycoqc_files_loop yaml_load (f # fs) d =
     (case parse_logs yaml_load (r_f f) of
        Inl e \<Rightarrow> Inl e
      | Inr doc \<Rightarrow> pycoqc_files_loop yaml_load fs (AList.update (r_s_name f) doc d))"

definition pycoqc_init :: "(string \<Rightarrow> yaml option) \<Rightarrow> report_file list \<Rightarrow> error + pycoqc_module" where
  "pycoqc_init yaml_load files =
     (case pycoqc_files_loop yaml_load files [] of
        Inl e \<Rightarrow> Inl e
      | Inr d \<Rightarrow> if length d = 0 then Inl UserWarning else setup_data d)"


section \<open>Vocabulary of the statements\<close>

text \<open>
  What a method leaves unchanged, which exceptions it cannot raise, and how the plot
  data are read back: \<open>plot_hist st cat\<close> is
  \<open>self.len_dist_plot_data[cat][self.s_name]\<close> and \<open>plot_lookup st cat len\<close> its
  entry for one read length, \<open>None\<close> where Python would raise KeyError.
\<close>

definition preserves :: "('s \<Rightarrow> 'b) \<Rightarrow> ('a, 's) se \<Rightarrow> bool" where
  "preserves g m = (\<forall>st. g (snd (m st)) = g st)"

definition never_raises :: "error \<Rightarrow> ('a, 's) se \<Rightarrow> bool" where
  "never_raises e m = (\<forall>st. fst (m st) \<noteq> Inl e)"

definition but_result :: "ar_module \<Rightarrow> _" where
  \<comment> \<open>every attribute except \<open>result_data\<close>\<close>
  "but_result st =
     (read_type st, collapsed st, s_name st, adapter_removal_data st, len_dist_plot_data st)"

definition but_plot :: "ar_module \<Rightarrow> _" where
  \<comment> \<open>every attribute except \<open>len_dist_plot_data\<close>\<close>
  "but_plot st = (read_type st, collapsed st, s_name st, adapter_removal_data st, result_data st)"

definition plot_hist :: "ar_module \<Rightarrow> string \<Rightarrow> hist option" where
  "plot_hist st cat =
     (case map_of (len_dist_plot_data st) cat of
        None \<Rightarrow> None
      | Some by_sample \<Rightarrow> map_of by_sample (s_name st))"

definition plot_lookup :: "ar_module \<Rightarrow> string \<Rightarrow> int \<Rightarrow> int option" where
  "plot_lookup st cat len = (case plot_hist st cat of None \<Rightarrow> None | Some h \<Rightarrow> map_of h len)"

definition len_dist_section :: "log_file \<Rightarrow> string list option" where
  \<comment> \<open>the lines \<open>parse_settings_file\<close> collects under \<open>[Length distribution]\<close>\<close>
  "len_dist_section f =
     (case read_blocks (f_lines f) None [(''header'', [])] of
        Inl e \<Rightarrow> None
      | Inr settings_data \<Rightarrow> map_of settings_data ''Length distribution'')"


definition percent_value :: "int \<Rightarrow> int \<Rightarrow> error + double" where
  \<comment> \<open>\<open>round((float(aligned) * 100.0) / float(total), 2)\<close> on int counts\<close>
  "percent_value aligned tot =
     (case float_of_int aligned of
        Inl e \<Rightarrow> Inl e
      | Inr fa \<Rightarrow>
          (case float_of_int tot of
             Inl e \<Rightarrow> Inl e
           | Inr ft \<Rightarrow>
               (case py_truediv (fl_mul fa (Finite 100)) ft of
                  Inl e \<Rightarrow> Inl e
                | Inr q \<Rightarrow> py_round q 2)))"

definition sums_to :: "yaml \<Rightarrow> yaml \<Rightarrow> yaml \<Rightarrow> bool" where
  \<comment> \<open>\<open>a\<close> and \<open>b\<close> are numbers and \<open>a + b == c\<close> is True\<close>
  "sums_to a b c = (case py_yadd a b of Inl e \<Rightarrow> False | Inr s \<Rightarrow> py_eq s c)"

definition row_length :: "string \<Rightarrow> int option" where
  \<comment> \<open>the read length a data row of the Length distribution section is about\<close>
  "row_length line =
     (case row_ints line of Inl e \<Rightarrow> None | Inr l_data \<Rightarrow> (case l_data of [] \<Rightarrow> None | len # _ \<Rightarrow> Some len))"

definition writes :: "(unit, ar_module) se \<Rightarrow> string \<Rightarrow> int \<Rightarrow> int option \<Rightarrow> bool" where
  \<comment> \<open>when \<open>m\<close> returns it has stored \<open>v\<close> for category \<open>cat\<close> and length \<open>len\<close> of the
      current sample, and changed no other entry of that sample\<close>
  "writes m cat len v =
     (\<forall>st st1. m st = (Inr (), st1) \<longrightarrow>
        v \<noteq> None \<and> but_plot st1 = but_plot st \<and>
        (\<forall>c L. plot_lookup st1 c L = (if c = cat \<and> L = len then v else plot_lookup st c L)) \<and>
        (\<forall>c. plot_hist st c \<noteq> None \<longrightarrow> plot_hist st1 c \<noteq> None))"

definition row_recorded :: "ar_module \<Rightarrow> int list \<Rightarrow> bool" where
  \<comment> \<open>the current sample has, under the length of the row \<open>r\<close>, the counts of \<open>r\<close> that
      belong to the object's run mode\<close>
  "row_recorded st r =
     (if read_type st = Some ''single'' then
        4 \<le> length r \<and>
        plot_lookup st ''mate1'' (r ! 0) = Some (r ! 1) \<and>
        plot_lookup st ''mate2'' (r ! 0) = Some 0 \<and>
        plot_lookup st ''singleton'' (r ! 0) = Some 0 \<and>
        plot_lookup st ''collapsed'' (r ! 0) = Some 0 \<and>
        plot_lookup st ''collapsed_truncated'' (r ! 0) = Some 0 \<and>
        plot_lookup st ''discarged'' (r ! 0) = Some (r ! 2) \<and>
        plot_lookup st ''all'' (r ! 0) = Some (r ! 3)
      else if collapsed st \<noteq> Some True then
        6 \<le> length r \<and>
        plot_lookup st ''mate1'' (r ! 0) = Some (r ! 1) \<and>
        plot_lookup st ''mate2'' (r ! 0) = Some (r ! 2) \<and>
        plot_lookup st ''singleton'' (r ! 0) = Some (r ! 3) \<and>
        plot_lookup st ''collapsed'' (r ! 0) = Some 0 \<and>
        plot_lookup st ''collapsed_truncated'' (r ! 0) = Some 0 \<and>
        plot_lookup st ''discarged'' (r ! 0) = Some (r ! 4) \<and>
        plot_lookup st ''all'' (r ! 0) = Some (r ! 5)
      else
        8 \<le> length r \<and>
        plot_lookup st ''mate1'' (r ! 0) = Some (r ! 1) \<and>
        plot_lookup st ''mate2'' (r ! 0) = Some (r ! 2) \<and>
        plot_lookup st ''singleton'' (r ! 0) = Some (r ! 3) \<and>
        plot_lookup st ''collapsed'' (r ! 0) = Some (r ! 4) \<and>
        plot_lookup st ''collapsed_truncated'' (r ! 0) = Some (r ! 5) \<and>
        plot_lookup st ''discarged'' (r ! 0) = Some (r ! 6) \<and>
        plot_lookup st ''all'' (r ! 0) = Some (r ! 7))"

section \<open>Example inputs\<close>

text \<open>
  Settings files in the layout AdapterRemoval writes, cut down to the two sections the
  module reads: a single-end run, a paired-end run, a paired-end run with collapsing,
  a single-end run with collapsing (the combination the module skips), a run without
  reads, and two files that share a sample name.
\<close>

definition tab_line :: "string list \<Rightarrow> string" where
  "tab_line cols = foldr (\<lambda>x acc. if acc = [NL] then x @ acc else x @ [TAB] @ acc) cols [NL]"

definition text_lines :: "string list \<Rightarrow> string list" where
  "text_lines ls = map (\<lambda>l. l @ [NL]) ls"

definition single_stats :: "string list" where
  "single_stats = text_lines
     [''[Trimming statistics]'',
      ''Total number of reads: 1000'',
      ''Number of unaligned reads: 700'',
      ''Number of well aligned reads: 300'',
      ''Number of discarded mate 1 reads: 5'',
      ''Number of singleton mate 1 reads: 995'',
      ''Number of reads with adapters[1]: 300'',
      ''Number of retained reads: 995'',
      [],
      ''[Length distribution]'']"

definition example_single :: log_file where
  "example_single = \<lparr>f_s_name = ''s1'', f_lines =
     text_lines [''AdapterRemoval ver. 2.1.7'', []] @ single_stats @
     [tab_line [''Length'', ''Mate1'', ''Discarded'', ''All''],
      tab_line [''0'', ''0'', ''5'', ''5''],
      tab_line [''10'', ''7'', ''0'', ''7'']]\<rparr>"

definition paired_stats :: "string list" where
  "paired_stats = text_lines
     [''[Trimming statistics]'',
      ''Total number of read pairs: 4000'',
      ''Number of unaligned read pairs: 3893'',
      ''Number of well aligned read pairs: 107'',
      ''Number of discarded mate 1 reads: 5'',
      ''Number of singleton mate 1 reads: 3'',
      ''Number of discarded mate 2 reads: 4'',
      ''Number of singleton mate 2 reads: 2'']"

definition paired_header :: string where
  "paired_header = tab_line [''Length'', ''Mate1'', ''Mate2'', ''Singleton'', ''Discarded'', ''All'']"

definition paired_row_a :: string where
  "paired_row_a = tab_line [''10'', ''7'', ''6'', ''5'', ''0'', ''18'']"

definition paired_row_b :: string where
  \<comment> \<open>a second row for length 10\<close>
  "paired_row_b = tab_line [''10'', ''8'', ''6'', ''4'', ''0'', ''18'']"

definition paired_row_c :: string where
  "paired_row_c = tab_line [''25'', ''1'', ''1'', ''0'', ''9'', ''11'']"

definition example_paired :: log_file where
  "example_paired = \<lparr>f_s_name = ''s2'', f_lines =
     text_lines [''AdapterRemoval ver. 2.1.7'', []] @ paired_stats @
     text_lines
       [''Number of reads with adapters[1]: 107'',
        ''Number of retained reads: 7991'',
        [],
        ''[Length distribution]''] @
     [paired_header, paired_row_a, paired_row_b, paired_row_c]\<rparr>"

definition example_collapsed :: log_file where
  "example_collapsed = \<lparr>f_s_name = ''s3'', f_lines =
     text_lines [''AdapterRemoval ver. 2.1.7'', []] @ paired_stats @
     text_lines
       [''Number of reads with adapters[1]: 107'',
        ''Number of full-length collapsed pairs: 300'',
        ''Number of truncated collapsed pairs: 20'',
        ''Number of retained reads: 7671'',
        [],
        ''[Length distribution]''] @
     [tab_line [''Length'', ''Mate1'', ''Mate2'', ''Singleton'', ''Collapsed'',
                ''CollapsedTruncated'', ''Discarded'', ''All''],
      tab_line [''10'', ''7'', ''6'', ''5'', ''4'', ''3'', ''2'', ''27'']]\<rparr>"

definition unsupported_header :: string where
  "unsupported_header =
     tab_line [''Length'', ''Mate1'', ''Collapsed'', ''CollapsedTruncated'', ''Discarded'', ''All'']"

definition example_unsupported :: log_file where
  "example_unsupported = \<lparr>f_s_name = ''s4'', f_lines =
     text_lines [''AdapterRemoval ver. 2.1.7'', []] @ single_stats @
     [unsupported_header, tab_line [''10'', ''7'', ''1'', ''1'', ''0'', ''9'']]\<rparr>"

definition zero_stats :: "string list" where
  "zero_stats =
     [''Total number of reads: 0'', ''Number of unaligned reads: 0'',
      ''Number of well aligned reads: 0'', ''Number of discarded mate 1 reads: 0'',
      ''Number of singleton mate 1 reads: 0'', ''Number of reads with adapters[1]: 0'',
      ''Number of retained reads: 0'']"

definition overflow_stats :: "string list" where
  \<comment> \<open>no reads, and an aligned count of 311 digits\<close>
  "overflow_stats =
     [''Total number of reads: 0'', ''Number of unaligned reads: 0'',
      ''Number of well aligned reads: 1'' @ replicate 310 (CHR ''0''),
      ''Number of discarded mate 1 reads: 0'',
      ''Number of singleton mate 1 reads: 0'', ''Number of reads with adapters[1]: 0'',
      ''Number of retained reads: 0'']"

definition single_type :: ar_module where
  \<comment> \<open>the object after \<open>set_ar_type\<close> has classified a single-end run\<close>
  "single_type = ar_new\<lparr>read_type := Some ''single'', collapsed := Some False\<rparr>"

definition first_stats :: "string list" where
  "first_stats = text_lines
     [''[Trimming statistics]'',
      ''Total number of reads: 500'',
      ''Number of unaligned reads: 400'',
      ''Number of well aligned reads: 100'',
      ''Number of discarded mate 1 reads: 0'',
      ''Number of singleton mate 1 reads: 500'',
      ''Number of reads with adapters[1]: 100'',
      ''Number of retained reads: 500'',
      [],
      ''[Length distribution]'']"

definition example_first :: log_file where
  "example_first = \<lparr>f_s_name = ''dup'', f_lines =
     text_lines [''AdapterRemoval ver. 2.1.7'', []] @ first_stats @
     [tab_line [''Length'', ''Mate1'', ''Discarded'', ''All''],
      tab_line [''10'', ''7'', ''0'', ''7'']]\<rparr>"

definition example_second :: log_file where
  "example_second = \<lparr>f_s_name = ''dup'', f_lines =
     text_lines [''AdapterRemoval ver. 2.1.7'', []] @ single_stats @
     [tab_line [''Length'', ''Mate1'', ''Discarded'', ''All''],
      tab_line [''20'', ''9'', ''1'', ''10'']]\<rparr>"

definition paired_result :: stats where
  \<comment> \<open>what \<open>parse_settings_file\<close> returns for \<open>example_paired\<close>; the float is the
      double that prints as 2.67\<close>
  "paired_result =
     [(''total'', PyInt 4000), (''unaligned'', PyInt 3893), (''aligned'', PyInt 107),
      (''reads_total'', PyInt 8000), (''retained'', PyInt 7991),
      (''percent_aligned'', PyFloat (Finite (1503076375634903 / 562949953421312))),
      (''discarded_m1'', PyInt 5),
      (''singleton_m1'', PyInt 3), (''discarded_m2'', PyInt 4), (''singleton_m2'', PyInt 2),
      (''full-length_cp'', PyInt 0), (''truncated_cp'', PyInt 0),
      (''aligned_total'', PyInt 214), (''unaligned_total'', PyInt 7786),
      (''discarded_total'', PyInt 9), (''retained_reads'', PyInt 7986)]"

text \<open>
  A pycoQC document with the fields \<open>setup_data\<close> reads, two reports that share a
  sample name, and a loader that knows the content of both.
\<close>

definition counts_branch :: "yaml \<Rightarrow> yaml \<Rightarrow> yaml" where
  "counts_branch reads bases =
     YMap [(YStr ''run'',
              YMap [(YStr ''run_duration'', YFloat (Finite (385 / 8))),
                    (YStr ''active_channels'', YInt 500)]),
           (YStr ''basecall'',
              YMap [(YStr ''reads_number'', reads),
                    (YStr ''bases_number'', bases),
                    (YStr ''N50'', YInt 6200),
                    (YStr ''len_percentiles'', YSeq (map (\<lambda>i. YInt (i * 100)) [0..100])),
                    (YStr ''qual_score_percentiles'', YSeq (map (\<lambda>i. YFloat (Finite (of_int i / 8))) [0..100])),
                    (YStr ''len_hist'',
                       YMap [(YStr ''x'', YSeq [YInt 100, YInt 1000]),
                             (YStr ''y'', YSeq [YFloat (Finite (1 / 4)), YFloat (Finite (3 / 4))])]),
                    (YStr ''qual_score_hist'',
                       YMap [(YStr ''x'', YSeq [YInt 7, YInt 10]),
                             (YStr ''y'', YSeq [YFloat (Finite (1 / 2)), YFloat (Finite (1 / 2))])])])]"

definition example_branch :: "int \<Rightarrow> int \<Rightarrow> yaml" where
  "example_branch reads bases = counts_branch (YInt reads) (YInt bases)"

definition example_doc :: "int \<Rightarrow> int \<Rightarrow> yaml" where
  \<comment> \<open>\<open>n\<close> reads of which \<open>p\<close> pass, 50 bases each\<close>
  "example_doc n p =
     YMap [(YStr ''All Reads'', example_branch n (n * 50)),
           (YStr ''Pass Reads'', example_branch p (p * 50))]"

definition example_load :: "string \<Rightarrow> yaml option" where
  "example_load content =
     (if content = ''first run'' then Some (example_doc 1000 800)
      else if content = ''second run'' then Some (example_doc 2000 1500)
      else None)"

definition report_first :: report_file where
  "report_first = \<lparr>r_s_name = ''run'', r_fn = ''a/run.pycoqc.yaml'', r_f = ''first run''\<rparr>"

definition report_second :: report_file where
  "report_second = \<lparr>r_s_name = ''run'', r_fn = ''b/run.pycoqc.yaml'', r_f = ''second run''\<rparr>"

definition float_doc :: yaml where
  \<comment> \<open>a report whose read counts are the floats 0.9 and 0.2\<close>
  "float_doc =
     YMap [(YStr ''All Reads'', counts_branch (YFloat (round_double (9 / 10))) (YInt 45)),
           (YStr ''Pass Reads'', counts_branch (YFloat (round_double (2 / 10))) (YInt 10))]"

definition float_load :: "string \<Rightarrow> yaml option" where
  "float_load content = (if content = ''float run'' then Some float_doc else None)"

definition report_float :: report_file where
  "report_float = \<lparr>r_s_name = ''run'', r_fn = ''c/run.pycoqc.yaml'', r_f = ''float run''\<rparr>"

definition example_module :: pycoqc_module where
  \<comment> \<open>the object \<open>__init__\<close> builds from the two reports\<close>
  "example_module = projr (pycoqc_init example_load [report_first, report_second])"

definition paired_state :: ar_module where
  \<comment> \<open>the object when \<open>__init__\<close> calls \<open>parse_settings_file\<close> on \<open>example_paired\<close>\<close>
  "paired_state = ar_new\<lparr>s_name := Some ''s2''\<rparr>"

definition paired_parsed :: ar_module where
  "paired_parsed = snd (parse_settings_file example_paired paired_state)"

section \<open>Rounding to a double\<close>

text \<open>
  Facts about \<open>round_double\<close>: the exponent it works with, the integers it keeps
  exact, the magnitude from which it overflows, and what follows for \<open>float()\<close>,
  \<open>*\<close>, \<open>/\<close> and \<open>round\<close>.
\<close>

lemma pow2_powi: "pow2 k = 2 powi k"
  by (simp add: pow2_def power_int_def inverse_eq_divide power_one_over)

lemma rhe_cases: "round_half_even y = \<lfloor>y\<rfloor> \<or> round_half_even y = \<lfloor>y\<rfloor> + 1"
  by (simp add: round_half_even_def Let_def)

lemma rhe_bounds: "\<bar>of_int (round_half_even y) - y\<bar> \<le> 1 / 2"
proof -
  have "of_int \<lfloor>y\<rfloor> \<le> y" "y < of_int \<lfloor>y\<rfloor> + 1"
    by linarith+
  then show ?thesis
    unfolding round_half_even_def Let_def by (auto simp: abs_le_iff)
qed

lemma rhe_of_int: "round_half_even (of_int n) = n"
  by (simp add: round_half_even_def Let_def)

lemma rhe_le: "y \<le> of_int m \<Longrightarrow> round_half_even y \<le> m"
proof -
  assume a: "y \<le> of_int m"
  then have f: "\<lfloor>y\<rfloor> \<le> m" by (simp add: floor_le_iff) 
  show ?thesis
  proof (cases "\<lfloor>y\<rfloor> = m")
    case True
    then have "y = of_int m" using a by (metis floor_less_iff less_le_not_le nless_le of_int_floor_le order_antisym_conv)
    then show ?thesis by (simp add: rhe_of_int)
  next
    case False
    with f rhe_cases[of y] show ?thesis by auto
  qed
qed

lemma rhe_ge: "of_int m \<le> y \<Longrightarrow> m \<le> round_half_even y"
proof -
  assume "of_int m \<le> y"
  then have "m \<le> \<lfloor>y\<rfloor>" by (simp add: le_floor_iff)
  with rhe_cases[of y] show ?thesis by auto
qed

lemma pow2_pos: "0 < pow2 k"
  by (simp add: pow2_powi)

lemma pow2_add: "pow2 (a + b) = pow2 a * pow2 b"
  by (simp add: pow2_powi power_int_add)

lemma pow2_mono: "a \<le> b \<Longrightarrow> pow2 a \<le> pow2 b"
  by (simp add: pow2_powi power_int_increasing)

lemma pow2_nat: "pow2 (int n) = 2 ^ n"
  by (simp add: pow2_def)

lemma pow2_strict_mono: "a < b \<Longrightarrow> pow2 a < pow2 b"
  by (simp add: pow2_powi power_int_strict_increasing)

lemma pow2_less_iff: "pow2 a < pow2 b \<longleftrightarrow> a < b"
  using pow2_strict_mono[of a b] pow2_mono[of b a] by (auto simp: not_less[symmetric])

lemma pow2_le_iff: "pow2 a \<le> pow2 b \<longleftrightarrow> a \<le> b"
  using pow2_strict_mono[of b a] pow2_mono[of a b] by (auto simp: not_le[symmetric])

lemma bitlen_pow2_bounds:
  assumes "0 < p"
  shows "pow2 (bitlen p - 1) \<le> of_int p" and "of_int p < pow2 (bitlen p)"
proof -
  note b = bitlen_bounds[OF assms]
  have l: "1 \<le> bitlen p"
    using assms by (auto simp: bitlen_alt_def)
  have "(of_int (2 ^ nat (bitlen p - 1)) :: rat) \<le> of_int p"
    using b by (simp only: of_int_le_iff)
  then show "pow2 (bitlen p - 1) \<le> of_int p"
    using l by (simp add: pow2_def)
  have "(of_int p :: rat) < of_int (2 ^ nat (bitlen p))"
    using b by (simp only: of_int_less_iff)
  then show "of_int p < pow2 (bitlen p)"
    using l by (simp add: pow2_def)
qed

lemma ilog2_bounds:
  assumes "x \<noteq> 0"
  shows "pow2 (ilog2 x) \<le> \<bar>x\<bar>" and "\<bar>x\<bar> < pow2 (ilog2 x + 1)"
proof -
  obtain p q where pq: "quotient_of \<bar>x\<bar> = (p, q)" by (cases "quotient_of \<bar>x\<bar>")
  then have q: "0 < q" and x: "\<bar>x\<bar> = of_int p / of_int q"
    by (auto simp: quotient_of_denom_pos quotient_of_div)
  from assms have "0 < \<bar>x\<bar>" by simp
  with x q have p: "0 < p" by (simp add: zero_less_divide_iff)
  define d where "d = bitlen p - bitlen q"
  note bp = bitlen_pow2_bounds[OF p] and bq = bitlen_pow2_bounds[OF q]
  have qr: "(0::rat) < of_int q" using q by simp
  have e: "ilog2 x = (if pow2 d \<le> \<bar>x\<bar> then d else d - 1)"
    by (simp add: ilog2_def pq d_def Let_def)
  have lo: "pow2 (d - 1) \<le> \<bar>x\<bar>"
  proof -
    have "pow2 (d - 1) * of_int q \<le> pow2 (d - 1) * pow2 (bitlen q)"
      using bq(2) pow2_pos[of "d - 1"] by simp
    also have "\<dots> = pow2 (bitlen p - 1)"
      by (simp add: pow2_add[symmetric] d_def)
    also have "\<dots> \<le> of_int p" by (rule bp(1))
    finally show ?thesis using qr by (simp add: x pos_le_divide_eq)
  qed
  have hi: "\<bar>x\<bar> < pow2 (d + 1)"
  proof -
    have "of_int p < pow2 (bitlen p)" by (rule bp(2))
    also have "\<dots> = pow2 (d + 1) * pow2 (bitlen q - 1)"
      by (simp add: pow2_add[symmetric] d_def)
    also have "\<dots> \<le> pow2 (d + 1) * of_int q"
      using bq(1) pow2_pos[of "d + 1"] by simp
    finally show ?thesis using qr by (simp add: x pos_divide_less_eq)
  qed
  show "pow2 (ilog2 x) \<le> \<bar>x\<bar>"
    using lo by (simp add: e)
  show "\<bar>x\<bar> < pow2 (ilog2 x + 1)"
    using hi by (auto simp: e not_le)
qed

lemma ilog2_unique:
  assumes "pow2 k \<le> \<bar>x\<bar>" "\<bar>x\<bar> < pow2 (k + 1)"
  shows "ilog2 x = k"
proof -
  from assms pow2_pos[of k] have nz: "x \<noteq> 0" by auto
  note b = ilog2_bounds[OF nz]
  from assms(1) b(2) have "pow2 k < pow2 (ilog2 x + 1)" by simp
  then have 1: "k \<le> ilog2 x" by (simp add: pow2_less_iff)
  from b(1) assms(2) have "pow2 (ilog2 x) < pow2 (k + 1)" by simp
  then have 2: "ilog2 x \<le> k" by (simp add: pow2_less_iff)
  from 1 2 show ?thesis by simp
qed


lemma rhe_lt_half: "y < of_int m + 1 / 2 \<Longrightarrow> round_half_even y \<le> m"
proof -
  assume a: "y < of_int m + 1 / 2"
  have f: "of_int \<lfloor>y\<rfloor> \<le> y" "y < of_int \<lfloor>y\<rfloor> + 1" by linarith+
  from a f(1) have "of_int \<lfloor>y\<rfloor> < (of_int m :: rat) + 1" by linarith
  then have "of_int \<lfloor>y\<rfloor> < (of_int (m + 1) :: rat)" by simp
  then have "\<lfloor>y\<rfloor> < m + 1" by (simp only: of_int_less_iff)
  then consider "\<lfloor>y\<rfloor> = m" | "\<lfloor>y\<rfloor> + 1 \<le> m" by linarith
  then show ?thesis
  proof cases
    case 1
    with a have "y - of_int \<lfloor>y\<rfloor> < 1 / 2" by simp
    then show ?thesis using 1 by (simp add: round_half_even_def Let_def)
  next
    case 2
    with rhe_cases[of y] show ?thesis by auto
  qed
qed

lemma rhe_gt_half: "of_int m - 1 / 2 < y \<Longrightarrow> m \<le> round_half_even y"
proof -
  assume a: "of_int m - 1 / 2 < y"
  have f: "of_int \<lfloor>y\<rfloor> \<le> y" "y < of_int \<lfloor>y\<rfloor> + 1" by linarith+
  from a f(2) have "(of_int m :: rat) - 1 < of_int \<lfloor>y\<rfloor> + 1" by linarith
  then have "(of_int (m - 1) :: rat) < of_int (\<lfloor>y\<rfloor> + 1)" by simp
  then have "m - 1 < \<lfloor>y\<rfloor> + 1" by (simp only: of_int_less_iff)
  then consider "\<lfloor>y\<rfloor> = m - 1" | "m \<le> \<lfloor>y\<rfloor>" by linarith
  then show ?thesis
  proof cases
    case 1
    with a have "1 / 2 < y - of_int \<lfloor>y\<rfloor>" by simp
    then show ?thesis using 1 by (simp add: round_half_even_def Let_def)
  next
    case 2
    with rhe_cases[of y] show ?thesis by auto
  qed
qed

lemma rhe_ge_half_even:
  assumes "even m" "of_int m - 1 / 2 \<le> y"
  shows "m \<le> round_half_even y"
proof (cases "y = of_int m - 1 / 2")
  case True
  have "\<lfloor>y\<rfloor> = m - 1"
    unfolding True by (rule floor_unique) simp_all
  then show ?thesis using assms(1) True
    by (simp add: round_half_even_def Let_def)
next
  case False
  with assms(2) have "of_int m - 1 / 2 < y" by simp
  then show ?thesis by (rule rhe_gt_half)
qed

lemma rhe_le_half_even:
  assumes "even m" "y \<le> of_int m + 1 / 2"
  shows "round_half_even y \<le> m"
proof (cases "y = of_int m + 1 / 2")
  case True
  have "\<lfloor>y\<rfloor> = m"
    unfolding True by (rule floor_unique) simp_all
  then show ?thesis using assms(1) True
    by (simp add: round_half_even_def Let_def)
next
  case False
  with assms(2) have "y < of_int m + 1 / 2" by simp
  then show ?thesis by (rule rhe_lt_half)
qed

lemma round_double_unfold:
  assumes "x \<noteq> 0"
  shows "round_double x =
    (if pow2 1024 \<le> \<bar>of_int (round_half_even (x / pow2 (max (ilog2 x) (- 1022) - 52))) * pow2 (max (ilog2 x) (- 1022) - 52)\<bar>
     then (if 0 < x then PlusInf else MinusInf)
     else if of_int (round_half_even (x / pow2 (max (ilog2 x) (- 1022) - 52))) * pow2 (max (ilog2 x) (- 1022) - 52) = 0
     then (if 0 < x then Finite 0 else MinusZero)
     else Finite (of_int (round_half_even (x / pow2 (max (ilog2 x) (- 1022) - 52))) * pow2 (max (ilog2 x) (- 1022) - 52)))"
  using assms by (simp add: round_double_def Let_def)

lemma ilog2_ge: "pow2 k \<le> \<bar>x\<bar> \<Longrightarrow> k \<le> ilog2 x"
proof -
  assume a: "pow2 k \<le> \<bar>x\<bar>"
  with pow2_pos[of k] have "x \<noteq> 0" by auto
  from a ilog2_bounds(2)[OF this] have "pow2 k < pow2 (ilog2 x + 1)" by simp
  then show ?thesis by (simp add: pow2_less_iff)
qed

lemma ilog2_le: "x \<noteq> 0 \<Longrightarrow> \<bar>x\<bar> < pow2 (k + 1) \<Longrightarrow> ilog2 x \<le> k"
proof -
  assume "x \<noteq> 0" and a: "\<bar>x\<bar> < pow2 (k + 1)"
  from ilog2_bounds(1)[OF this(1)] a have "pow2 (ilog2 x) < pow2 (k + 1)" by simp
  then show ?thesis by (simp add: pow2_less_iff)
qed



lemma abs_rhe_le: "\<bar>y\<bar> \<le> of_int m \<Longrightarrow> \<bar>round_half_even y\<bar> \<le> m"
  using rhe_le[of y m] rhe_ge[of "- m" y] by (simp add: abs_le_iff)

lemma abs_rhe_ge: "of_int m \<le> \<bar>y\<bar> \<Longrightarrow> m \<le> \<bar>round_half_even y\<bar>"
  using rhe_ge[of m y] rhe_le[of y "- m"] by (cases "0 \<le> y") auto

lemma abs_rhe_lt_half: "\<bar>y\<bar> < of_int m + 1 / 2 \<Longrightarrow> \<bar>round_half_even y\<bar> \<le> m"
  using rhe_lt_half[of y m] rhe_gt_half[of "- m" y] by (simp add: abs_le_iff abs_less_iff)

lemma abs_rhe_ge_half_even:
  "even m \<Longrightarrow> of_int m - 1 / 2 \<le> \<bar>y\<bar> \<Longrightarrow> m \<le> \<bar>round_half_even y\<bar>"
  using rhe_ge_half_even[of m y] rhe_le_half_even[of "- m" y] by (cases "0 \<le> y") auto

lemma round_double_normal:
  assumes "x \<noteq> 0" "- 1022 \<le> ilog2 x"
  shows "2 ^ 52 \<le> \<bar>round_half_even (x / pow2 (max (ilog2 x) (- 1022) - 52))\<bar>"
proof -
  define e where "e = ilog2 x"
  have m: "max e (- 1022) = e" using assms(2) by (simp add: e_def)
  have "pow2 52 * pow2 (e - 52) \<le> \<bar>x\<bar>"
    using ilog2_bounds(1)[OF assms(1)] by (simp add: pow2_add[symmetric] e_def)
  then have "pow2 52 \<le> \<bar>x\<bar> / pow2 (e - 52)"
    using pow2_pos[of "e - 52"] by (simp add: pos_le_divide_eq)
  then have "of_int (2 ^ 52) \<le> \<bar>x / pow2 (e - 52)\<bar>"
    using pow2_pos[of "e - 52"] by (simp add: pow2_def)
  from abs_rhe_ge[OF this] show ?thesis by (simp add: e_def[symmetric] m)
qed

lemma round_double_overflows:
  "round_double x = (if 0 < x then PlusInf else MinusInf) \<and> x \<noteq> 0
     \<longleftrightarrow> pow2 1024 - pow2 970 \<le> \<bar>x\<bar>"
proof (cases "x = 0")
  case True
  have "pow2 970 < pow2 1024" by (simp add: pow2_less_iff)
  then show ?thesis using True by simp
next
  case nz: False
  define e where "e = max (ilog2 x) (- 1022)"
  define u where "u = pow2 (e - 52)"
  define k where "k = round_half_even (x / u)"
  have u: "0 < u" by (simp add: u_def pow2_pos)
  have rd: "round_double x =
    (if pow2 1024 \<le> \<bar>of_int k * u\<bar> then (if 0 < x then PlusInf else MinusInf)
     else if of_int k * u = 0 then (if 0 < x then Finite 0 else MinusZero)
     else Finite (of_int k * u))"
    using nz by (simp add: round_double_unfold e_def u_def k_def)
  have ovf: "round_double x = (if 0 < x then PlusInf else MinusInf) \<longleftrightarrow> pow2 1024 \<le> \<bar>of_int k * u\<bar>"
    by (simp add: rd)
  have ar: "\<bar>of_int k * u\<bar> = of_int \<bar>k\<bar> * u"
    using u by (simp add: abs_mult)
  have ay: "\<bar>x / u\<bar> = \<bar>x\<bar> / u"
    using u by simp
  have il: "ilog2 x \<le> e" by (simp add: e_def)
  have xhi: "\<bar>x\<bar> < pow2 (e + 1)"
    using ilog2_bounds(2)[OF nz] pow2_mono[of "ilog2 x + 1" "e + 1"] il by simp
  have s: "pow2 (e + 1) = pow2 53 * u"
    using pow2_add[of 53 "e - 52"] by (simp add: u_def algebra_simps)
  consider "1024 \<le> e" | "e = 1023" | "e \<le> 1022" by linarith
  then have "pow2 1024 \<le> of_int \<bar>k\<bar> * u \<longleftrightarrow> pow2 1024 - pow2 970 \<le> \<bar>x\<bar>"
  proof cases
    case 1
    then have ex: "e = ilog2 x" and n: "- 1022 \<le> ilog2 x" by (auto simp: e_def max_def split: if_splits)
    from round_double_normal[OF nz n] have "2 ^ 52 \<le> \<bar>k\<bar>"
      by (simp add: k_def u_def e_def)
    then have "(of_int (2 ^ 52) :: rat) \<le> of_int \<bar>k\<bar>" by (simp only: of_int_le_iff)
    then have "pow2 52 * u \<le> of_int \<bar>k\<bar> * u"
      using u by (simp add: pow2_def)
    moreover have "pow2 52 * u = pow2 e" by (simp add: u_def pow2_add[symmetric])
    moreover have "pow2 1024 \<le> pow2 e" using 1 by (simp add: pow2_le_iff)
    ultimately have l: "pow2 1024 \<le> of_int \<bar>k\<bar> * u" by simp
    have "pow2 e \<le> \<bar>x\<bar>" using ilog2_bounds(1)[OF nz] by (simp add: ex)
    with \<open>pow2 1024 \<le> pow2 e\<close> pow2_pos[of 970] have "pow2 1024 - pow2 970 \<le> \<bar>x\<bar>" by linarith
    with l show ?thesis by simp
  next
    case 2
    have uv: "u = pow2 971" by (simp add: u_def 2)
    have t: "pow2 1024 - pow2 970 = (of_int (2 ^ 53) - 1 / 2) * u"
      by (simp add: uv pow2_def)
    have p: "pow2 1024 = of_int (2 ^ 53) * u"
      by (simp add: uv pow2_def)
    show ?thesis
    proof (cases "pow2 1024 - pow2 970 \<le> \<bar>x\<bar>")
      case True
      then have "of_int (2 ^ 53) - 1 / 2 \<le> \<bar>x / u\<bar>"
        using u by (simp add: t ay pos_le_divide_eq)
      from abs_rhe_ge_half_even[OF _ this] have "2 ^ 53 \<le> \<bar>k\<bar>" by (simp add: k_def)
      then have "(of_int (2 ^ 53) :: rat) \<le> of_int \<bar>k\<bar>" by (simp only: of_int_le_iff)
      then have "of_int (2 ^ 53) * u \<le> of_int \<bar>k\<bar> * u" using u by simp
      with True show ?thesis by (simp only: p)
    next
      case False
      then have "\<bar>x / u\<bar> < of_int (2 ^ 53 - 1) + 1 / 2"
        using u by (simp add: t ay pos_divide_less_eq not_le)
      from abs_rhe_lt_half[OF this] have "\<bar>k\<bar> \<le> 2 ^ 53 - 1" by (simp add: k_def)
      then have "\<bar>k\<bar> < 2 ^ 53" by simp
      then have "(of_int \<bar>k\<bar> :: rat) < of_int (2 ^ 53)" by (simp only: of_int_less_iff)
      then have "of_int \<bar>k\<bar> * u < of_int (2 ^ 53) * u" using u by simp
      with False show ?thesis by (simp only: p not_le[symmetric]) 
    qed
  next
    case 3
    have "\<bar>x\<bar> < pow2 53 * u" using xhi by (simp add: s)
    then have "\<bar>x / u\<bar> \<le> of_int (2 ^ 53)"
      using u by (simp add: ay pos_divide_le_eq pow2_def)
    from abs_rhe_le[OF this] have "\<bar>k\<bar> \<le> 2 ^ 53" by (simp add: k_def)
    then have "(of_int \<bar>k\<bar> :: rat) \<le> of_int (2 ^ 53)" by (simp only: of_int_le_iff)
    then have "of_int \<bar>k\<bar> * u \<le> pow2 53 * u" using u by (simp add: pow2_def)
    also have "\<dots> = pow2 (e + 1)" by (simp add: s)
    also have "\<dots> \<le> pow2 1023" using 3 by (simp add: pow2_le_iff)
    finally have a: "of_int \<bar>k\<bar> * u \<le> pow2 1023" .
    have b: "pow2 1023 < pow2 1024 - pow2 970" by (simp add: pow2_def)
    have c: "pow2 1023 < pow2 1024" by (simp add: pow2_less_iff)
    have "\<bar>x\<bar> < pow2 1023"
      using xhi pow2_mono[of "e + 1" 1023] 3 by simp
    with a b c show ?thesis by simp
  qed
  with nz show ?thesis by (simp add: ovf ar)
qed


lemma round_double_inf_iff:
  "fl_is_inf (round_double x) \<longleftrightarrow> pow2 1024 - pow2 970 \<le> \<bar>x\<bar>"
proof (cases "x = 0")
  case True
  have "pow2 970 < pow2 1024" by (simp add: pow2_less_iff)
  then show ?thesis using True by (simp add: round_double_def fl_is_inf_def)
next
  case False
  then have "fl_is_inf (round_double x) \<longleftrightarrow>
      round_double x = (if 0 < x then PlusInf else MinusInf)"
    by (simp add: round_double_unfold fl_is_inf_def)
  with round_double_overflows[of x] False show ?thesis by simp
qed

lemma round_double_not_nan: "round_double x \<noteq> NaN"
  by (simp add: round_double_def Let_def)

lemma round_double_nonzero:
  assumes "x \<noteq> 0" "- 1022 \<le> ilog2 x"
  shows "\<not> fl_is_zero (round_double x)"
proof -
  from round_double_normal[OF assms]
  have "round_half_even (x / pow2 (max (ilog2 x) (- 1022) - 52)) \<noteq> 0" by auto
  then have "of_int (round_half_even (x / pow2 (max (ilog2 x) (- 1022) - 52)))
      * pow2 (max (ilog2 x) (- 1022) - 52) \<noteq> 0"
    using pow2_pos[of "max (ilog2 x) (- 1022) - 52"] by simp
  then show ?thesis
    using assms(1) by (simp add: round_double_unfold fl_is_zero_def)
qed

lemma of_int_abs_ge_one: "n \<noteq> 0 \<Longrightarrow> pow2 0 \<le> \<bar>of_int n\<bar>"
proof -
  assume "n \<noteq> 0"
  then have "1 \<le> \<bar>n\<bar>" by simp
  then have "(of_int 1 :: rat) \<le> of_int \<bar>n\<bar>" by (simp only: of_int_le_iff)
  then show ?thesis by (simp add: pow2_def)
qed

lemma float_of_int_errors: "float_of_int n = Inl e \<Longrightarrow> e = OverflowError"
  by (auto simp: float_of_int_def split: double.splits)

lemma float_of_int_overflow:
  "float_of_int n = Inl OverflowError \<longleftrightarrow> 2 ^ 1024 - 2 ^ 970 \<le> \<bar>n\<bar>"
proof -
  have "float_of_int n = Inl OverflowError \<longleftrightarrow> fl_is_inf (round_double (of_int n))"
    by (auto simp: float_of_int_def fl_is_inf_def split: double.splits)
  also have "\<dots> \<longleftrightarrow> pow2 1024 - pow2 970 \<le> \<bar>of_int n\<bar>"
    by (rule round_double_inf_iff)
  also have "pow2 1024 - pow2 970 = of_int (2 ^ 1024 - 2 ^ 970)"
    by (simp add: pow2_def)
  also have "(\<bar>of_int n\<bar> :: rat) = of_int \<bar>n\<bar>" by simp
  also have "(of_int (2 ^ 1024 - 2 ^ 970) :: rat) \<le> of_int \<bar>n\<bar> \<longleftrightarrow> 2 ^ 1024 - 2 ^ 970 \<le> \<bar>n\<bar>"
    by (simp only: of_int_le_iff)
  finally show ?thesis .
qed

lemma float_of_int_zero:
  assumes "float_of_int n = Inr d"
  shows "fl_is_zero d \<longleftrightarrow> n = 0"
proof (cases "n = 0")
  case True
  with assms show ?thesis by (simp add: float_of_int_def round_double_def fl_is_zero_def)
next
  case False
  then have nz: "(of_int n :: rat) \<noteq> 0" by simp
  from ilog2_ge[OF of_int_abs_ge_one[OF False]] have "- 1022 \<le> ilog2 (of_int n)" by simp
  from round_double_nonzero[OF nz this] assms False show ?thesis
    by (auto simp: float_of_int_def split: double.splits)
qed




lemma py_round_errors: "py_round x nd = Inl e \<Longrightarrow> e = OverflowError"
  by (auto simp: py_round_def Let_def split: double.splits if_splits)



lemma round_double_finite_bound:
  assumes "round_double x = Finite r"
  shows "\<bar>r\<bar> \<le> pow2 1024 - pow2 971"
proof (cases "x = 0")
  case True
  have "pow2 971 < pow2 1024" by (simp add: pow2_less_iff)
  then show ?thesis using True assms by (simp add: round_double_def)
next
  case nz: False
  define e where "e = max (ilog2 x) (- 1022)"
  define u where "u = pow2 (e - 52)"
  define k where "k = round_half_even (x / u)"
  have u: "0 < u" by (simp add: u_def pow2_pos)
  have rd: "round_double x =
    (if pow2 1024 \<le> \<bar>of_int k * u\<bar> then (if 0 < x then PlusInf else MinusInf)
     else if of_int k * u = 0 then (if 0 < x then Finite 0 else MinusZero)
     else Finite (of_int k * u))"
    using nz by (simp add: round_double_unfold e_def u_def k_def)
  have ar: "\<bar>of_int k * u\<bar> = of_int \<bar>k\<bar> * u"
    using u by (simp add: abs_mult)
  from assms rd have no: "of_int \<bar>k\<bar> * u < pow2 1024" and r: "r = of_int k * u"
    by (auto simp: ar not_le split: if_splits)
  have il: "ilog2 x \<le> e" by (simp add: e_def)
  have xhi: "\<bar>x\<bar> < pow2 (e + 1)"
    using ilog2_bounds(2)[OF nz] pow2_mono[of "ilog2 x + 1" "e + 1"] il by simp
  have s: "pow2 (e + 1) = pow2 53 * u"
    using pow2_add[of 53 "e - 52"] by (simp add: u_def algebra_simps)
  consider "1024 \<le> e" | "e = 1023" | "e \<le> 1022" by linarith
  then have "of_int \<bar>k\<bar> * u \<le> pow2 1024 - pow2 971"
  proof cases
    case 1
    then have n: "- 1022 \<le> ilog2 x" by (auto simp: e_def max_def split: if_splits)
    from round_double_normal[OF nz n] have "2 ^ 52 \<le> \<bar>k\<bar>"
      by (simp add: k_def u_def e_def)
    then have "(of_int (2 ^ 52) :: rat) \<le> of_int \<bar>k\<bar>" by (simp only: of_int_le_iff)
    then have "pow2 52 * u \<le> of_int \<bar>k\<bar> * u"
      using u by (simp add: pow2_def)
    moreover have "pow2 52 * u = pow2 e" by (simp add: u_def pow2_add[symmetric])
    moreover have "pow2 1024 \<le> pow2 e" using 1 by (simp add: pow2_le_iff)
    ultimately have "pow2 1024 \<le> of_int \<bar>k\<bar> * u" by simp
    with no show ?thesis by simp
  next
    case 2
    have uv: "u = pow2 971" by (simp add: u_def 2)
    have p: "pow2 1024 = of_int (2 ^ 53) * u"
      by (simp add: uv pow2_def)
    from no have "(of_int \<bar>k\<bar> :: rat) < of_int (2 ^ 53)"
      using u by (simp only: p mult_less_cancel_right_pos)
    then have "\<bar>k\<bar> < 2 ^ 53" by (simp only: of_int_less_iff)
    then have "\<bar>k\<bar> \<le> 2 ^ 53 - 1" by simp
    then have "(of_int \<bar>k\<bar> :: rat) \<le> of_int (2 ^ 53 - 1)" by (simp only: of_int_le_iff)
    then have "of_int \<bar>k\<bar> * u \<le> of_int (2 ^ 53 - 1) * u" using u by simp
    also have "\<dots> = pow2 1024 - pow2 971" by (simp add: uv pow2_def)
    finally show ?thesis .
  next
    case 3
    have "\<bar>x\<bar> < pow2 53 * u" using xhi by (simp add: s)
    then have "\<bar>x / u\<bar> \<le> of_int (2 ^ 53)"
      using u by (simp add: pos_divide_le_eq pow2_def)
    from abs_rhe_le[OF this] have "\<bar>k\<bar> \<le> 2 ^ 53" by (simp add: k_def)
    then have "(of_int \<bar>k\<bar> :: rat) \<le> of_int (2 ^ 53)" by (simp only: of_int_le_iff)
    then have "of_int \<bar>k\<bar> * u \<le> pow2 53 * u" using u by (simp add: pow2_def)
    also have "\<dots> = pow2 (e + 1)" by (simp add: s)
    also have "\<dots> \<le> pow2 1023" using 3 by (simp add: pow2_le_iff)
    also have "\<dots> \<le> pow2 1024 - pow2 971" by (simp add: pow2_def)
    finally show ?thesis .
  qed
  then show ?thesis by (simp add: r ar)
qed

lemma fl_div_finite_bound: "fl_div a b = Finite q \<Longrightarrow> \<bar>q\<bar> \<le> pow2 1024 - pow2 971"
proof -
  assume a: "fl_div a b = Finite q"
  have z: "(0::rat) \<le> pow2 1024 - pow2 971"
    using pow2_strict_mono[of 971 1024] by simp
  have "fl_div a b = NaN \<or> fl_is_inf (fl_div a b) \<or> fl_is_zero (fl_div a b)
      \<or> fl_div a b = round_double (fl_value a / fl_value b)"
    by (simp add: fl_div_def fl_zero_def fl_inf_def fl_is_inf_def fl_is_zero_def)
  with a consider "q = 0" | "round_double (fl_value a / fl_value b) = Finite q"
    by (auto simp: fl_is_inf_def fl_is_zero_def)
  then show ?thesis
  proof cases
    case 1
    with z show ?thesis by simp
  next
    case 2
    then show ?thesis by (rule round_double_finite_bound)
  qed
qed

lemma py_round_returns:
  assumes "\<bar>q\<bar> \<le> pow2 1024 - pow2 971"
  shows "\<exists>p. py_round (Finite q) nd = Inr p"
proof (cases "323 < nd")
  case True
  then show ?thesis by (simp add: py_round_def)
next
  case False
  define n where "n = round_half_even (q * 10 ^ nd)"
  define d :: rat where "d = of_int n / 10 ^ nd"
  have "\<bar>of_int n - q * 10 ^ nd\<bar> \<le> 1 / 2"
    unfolding n_def by (rule rhe_bounds)
  then have "\<bar>of_int n - q * 10 ^ nd\<bar> / 10 ^ nd \<le> (1 / 2) / 10 ^ nd"
    by (rule divide_right_mono) simp
  also have "\<bar>of_int n - q * 10 ^ nd\<bar> / 10 ^ nd = \<bar>(of_int n - q * 10 ^ nd) / 10 ^ nd\<bar>"
    by simp
  also have "(of_int n - q * 10 ^ nd) / 10 ^ nd = d - q"
    by (simp add: diff_divide_distrib d_def)
  also have "(1 / 2) / (10::rat) ^ nd \<le> 1 / 2"
    by (simp add: field_simps)
  finally have "\<bar>d - q\<bar> \<le> 1 / 2" .
  with assms have "\<bar>d\<bar> \<le> pow2 1024 - pow2 971 + 1 / 2" by linarith
  also have "\<dots> < pow2 1024 - pow2 970" by (simp add: pow2_def)
  finally have "\<not> fl_is_inf (round_double d)" by (simp add: round_double_inf_iff)
  then show ?thesis
    using False
    by (auto simp: py_round_def Let_def n_def[symmetric] d_def[symmetric] fl_is_inf_def
        split: double.splits)
qed

lemma py_round_after_div: "\<exists>p. py_round (fl_div a b) nd = Inr p"
proof (cases "fl_div a b")
  case (Finite q)
  from py_round_returns[OF fl_div_finite_bound[OF this]] Finite show ?thesis by simp
qed (simp_all add: py_round_def)

lemma round_double_small_exponent:
  assumes "x \<noteq> 0" "max (ilog2 x) (- 1022) \<le> 1022"
  shows "\<bar>of_int (round_half_even (x / pow2 (max (ilog2 x) (- 1022) - 52)))
           * pow2 (max (ilog2 x) (- 1022) - 52)\<bar> \<le> pow2 1023"
proof -
  define e where "e = max (ilog2 x) (- 1022)"
  define u where "u = pow2 (e - 52)"
  define k where "k = round_half_even (x / u)"
  have u: "0 < u" by (simp add: u_def pow2_pos)
  have ar: "\<bar>of_int k * u\<bar> = of_int \<bar>k\<bar> * u"
    using u by (simp add: abs_mult)
  have il: "ilog2 x \<le> e" by (simp add: e_def)
  have xhi: "\<bar>x\<bar> < pow2 (e + 1)"
    using ilog2_bounds(2)[OF assms(1)] pow2_mono[of "ilog2 x + 1" "e + 1"] il by simp
  have s: "pow2 (e + 1) = pow2 53 * u"
    using pow2_add[of 53 "e - 52"] by (simp add: u_def algebra_simps)
  have "\<bar>x\<bar> < pow2 53 * u" using xhi by (simp add: s)
  then have "\<bar>x / u\<bar> \<le> of_int (2 ^ 53)"
    using u by (simp add: pos_divide_le_eq pow2_def)
  from abs_rhe_le[OF this] have "\<bar>k\<bar> \<le> 2 ^ 53" by (simp add: k_def)
  then have "(of_int \<bar>k\<bar> :: rat) \<le> of_int (2 ^ 53)" by (simp only: of_int_le_iff)
  then have "of_int \<bar>k\<bar> * u \<le> pow2 53 * u" using u by (simp add: pow2_def)
  also have "\<dots> = pow2 (e + 1)" by (simp add: s)
  also have "\<dots> \<le> pow2 1023" using assms(2) by (simp add: pow2_le_iff e_def)
  finally have "of_int \<bar>k\<bar> * u \<le> pow2 1023" .
  then have "\<bar>of_int k * u\<bar> \<le> pow2 1023" by (simp only: ar)
  then show ?thesis by (simp only: k_def u_def e_def)
qed

lemma round_double_code [code]:
  "round_double x = (if x = 0 then Finite 0 else round_at x (max (ilog2 x) (- 1022)))"
proof (cases "x = 0")
  case True
  then show ?thesis by (simp add: round_double_def)
next
  case False
  have "\<not> pow2 1024 \<le> \<bar>of_int (round_half_even (x / pow2 (max (ilog2 x) (- 1022) - 52)))
           * pow2 (max (ilog2 x) (- 1022) - 52)\<bar>"
    if "max (ilog2 x) (- 1022) < 1023"
  proof -
    from that have "max (ilog2 x) (- 1022) \<le> 1022" by simp
    from round_double_small_exponent[OF False this] pow2_strict_mono[of 1023 1024]
    show ?thesis by simp
  qed
  then show ?thesis
    using False by (auto simp: round_double_unfold round_at_def round_pack_def)
qed

section \<open>Sequencing, framing and exceptions\<close>

lemma se_bind_Inr_iff:
  "se_bind m f st = (Inr y, st') \<longleftrightarrow> (\<exists>x st1. m st = (Inr x, st1) \<and> f x st1 = (Inr y, st'))"
  by (auto simp: se_bind_def split: prod.splits sum.splits)

lemma preservesD: "preserves g m \<Longrightarrow> m st = (r, st1) \<Longrightarrow> g st1 = g st"
  by (auto simp: preserves_def dest: spec[of _ st])

lemma preserves_bind:
  "preserves g m \<Longrightarrow> (\<And>x. preserves g (f x)) \<Longrightarrow> preserves g (se_bind m f)"
  by (auto simp: preserves_def se_bind_def split: prod.splits sum.splits)
     (metis snd_conv)+

lemma preserves_lift: "preserves g (se_lift r)"
  by (simp add: preserves_def se_lift_def)

lemma preserves_return: "preserves g (se_return x)"
  by (simp add: preserves_def se_return_def)

lemma preserves_pair: "preserves g (Pair r)"
  by (simp add: preserves_def)

lemma preserves_if:
  "preserves g m1 \<Longrightarrow> preserves g m2 \<Longrightarrow> preserves g (\<lambda>st. if c st then m1 st else m2 st)"
  by (simp add: preserves_def)

lemma preserves_ite: "preserves g m1 \<Longrightarrow> preserves g m2 \<Longrightarrow> preserves g (if c then m1 else m2)"
  by simp

lemma never_raisesD: "never_raises e m \<Longrightarrow> fst (m st) \<noteq> Inl e"
  by (simp add: never_raises_def)

lemma never_raises_bind:
  "never_raises e m \<Longrightarrow> (\<And>x. never_raises e (f x)) \<Longrightarrow> never_raises e (se_bind m f)"
  by (auto simp: never_raises_def se_bind_def split: prod.splits sum.splits)
     (metis fst_conv)+

lemma never_raises_lift: "r \<noteq> Inl e \<Longrightarrow> never_raises e (se_lift r)"
  by (simp add: never_raises_def se_lift_def)

lemma never_raises_return: "never_raises e (se_return x)"
  by (simp add: never_raises_def se_return_def)

lemma never_raises_pair: "r \<noteq> Inl e \<Longrightarrow> never_raises e (Pair r)"
  by (simp add: never_raises_def)

lemma never_raises_if:
  "never_raises e m1 \<Longrightarrow> never_raises e m2 \<Longrightarrow>
     never_raises e (\<lambda>st. if c st then m1 st else m2 st)"
  by (simp add: never_raises_def)

lemma never_raises_ite:
  "never_raises e m1 \<Longrightarrow> never_raises e m2 \<Longrightarrow> never_raises e (if c then m1 else m2)"
  by simp

lemma py_index_2: "3 \<le> length xs \<Longrightarrow> py_index xs 2 = Inr (xs ! 2)"
  by (simp add: py_index_def)

lemma py_index_m3: "3 \<le> length xs \<Longrightarrow> py_index xs (- 3) = Inr (xs ! (length xs - 3))"
  by (simp add: py_index_def nat_diff_distrib' of_nat_diff)

lemma py_split_tab: "py_split s [TAB] = Inr (py_split_from [TAB] [] s)"
  by (simp add: py_split_def)

section \<open>AdapterRemoval: the run mode\<close>

text \<open>
  Claim C6. \<open>set_ar_type\<close> looks at the first line of the Length distribution section,
  split at tabs. It sets the read type to \<open>paired\<close> exactly when the third column is
  \<open>Mate2\<close> and to \<open>single\<close> otherwise, and the collapsed flag to true exactly when
  the third column from the end is \<open>CollapsedTruncated\<close>. (With fewer than three
  columns the subscript raises IndexError and nothing is classified.)
\<close>

theorem set_ar_type_classifies:
  assumes "len_dist_data = first # rest"
    and "head_line = py_split_from [TAB] [] (py_rstrip [NL] first)"
    and "3 \<le> length head_line"
  shows "read_type (snd (set_ar_type len_dist_data st)) =
           Some (if head_line ! 2 = ''Mate2'' then ''paired'' else ''single'')
       \<and> collapsed (snd (set_ar_type len_dist_data st)) =
           Some (head_line ! (length head_line - 3) = ''CollapsedTruncated'')"
  using assms
  by (simp add: set_ar_type_def py_index_def[of "first # rest"] py_split_tab
      py_index_2 py_index_m3 se_bind_def se_modify_def se_lift_def)

theorem set_ar_type_classifies_witness:
  "3 \<le> length (py_split_from [TAB] [] (py_rstrip [NL] unsupported_header))
   \<and> read_type (snd (set_ar_type [unsupported_header] ar_new)) = Some ''single''
   \<and> collapsed (snd (set_ar_type [unsupported_header] ar_new)) = Some True"
proof -
  have h: "3 \<le> length (py_split_from [TAB] [] (py_rstrip [NL] unsupported_header))"
    by code_simp
  have c2: "py_split_from [TAB] [] (py_rstrip [NL] unsupported_header) ! 2 = ''Collapsed''"
    by code_simp
  have c3: "py_split_from [TAB] [] (py_rstrip [NL] unsupported_header)
              ! (length (py_split_from [TAB] [] (py_rstrip [NL] unsupported_header)) - 3)
            = ''CollapsedTruncated''"
    by code_simp
  from set_ar_type_classifies[OF refl refl h, of "[]" ar_new] h show ?thesis
    by (simp add: c2 c3)
qed

section \<open>AdapterRemoval: the trimming statistics\<close>

lemma field_value_errors: "field_value td ix = Inl e \<Longrightarrow> e = IndexError \<or> e = ValueError"
  by (auto simp: field_value_def py_index_def py_split_def py_int_def Let_def
      split: sum.splits if_splits option.splits)

lemma set_fields_frame:
  "set_fields dp td fs st = (r, st1) \<Longrightarrow>
     (\<forall>k. k \<notin> set fs \<longrightarrow> map_of (result_data st1) k = map_of (result_data st) k)"
proof (induction fs arbitrary: st)
  case Nil
  then show ?case by (simp add: se_return_def)
next
  case (Cons field rest)
  show ?case
  proof (cases "map_of dp field")
    case None
    with Cons.prems
    have "set_fields dp td rest
            (st\<lparr>result_data := AList.update field (PyInt 0) (result_data st)\<rparr>) = (r, st1)"
      by (simp add: se_bind_def set_result_def)
    from Cons.IH[OF this] show ?thesis
      by (auto simp: update_conv')
  next
    case (Some ix)
    show ?thesis
    proof (cases "field_value td ix")
      case (Inl e)
      with Some Cons.prems show ?thesis by (auto simp: se_bind_def se_lift_def)
    next
      case (Inr n)
      with Some Cons.prems
      have "set_fields dp td rest
              (st\<lparr>result_data := AList.update field (PyInt n) (result_data st)\<rparr>) = (r, st1)"
        by (simp add: se_bind_def set_result_def se_lift_def)
      from Cons.IH[OF this] show ?thesis
        by (auto simp: update_conv')
    qed
  qed
qed

lemma set_fields_values:
  "set_fields dp td fs st = (Inr (), st1) \<Longrightarrow> distinct fs \<Longrightarrow> k \<in> set fs \<Longrightarrow>
     (case map_of dp k of
        None \<Rightarrow> map_of (result_data st1) k = Some (PyInt 0)
      | Some ix \<Rightarrow> \<exists>n. field_value td ix = Inr n \<and> map_of (result_data st1) k = Some (PyInt n))"
proof (induction fs arbitrary: st)
  case Nil
  then show ?case by simp
next
  case (Cons field rest)
  show ?case
  proof (cases "map_of dp field")
    case None
    with Cons.prems(1)
    have step: "set_fields dp td rest
                  (st\<lparr>result_data := AList.update field (PyInt 0) (result_data st)\<rparr>) = (Inr (), st1)"
      by (simp add: se_bind_def set_result_def)
    show ?thesis
    proof (cases "k = field")
      case True
      with Cons.prems(2) have "k \<notin> set rest" by simp
      with set_fields_frame[OF step] True None show ?thesis by (simp add: update_conv')
    next
      case False
      with Cons.prems have "k \<in> set rest" "distinct rest" by simp_all
      with Cons.IH[OF step] show ?thesis by simp
    qed
  next
    case (Some ix)
    show ?thesis
    proof (cases "field_value td ix")
      case (Inl e)
      with Some Cons.prems(1) show ?thesis by (simp add: se_bind_def se_lift_def)
    next
      case (Inr n)
      with Some Cons.prems(1)
      have step: "set_fields dp td rest
                    (st\<lparr>result_data := AList.update field (PyInt n) (result_data st)\<rparr>) = (Inr (), st1)"
        by (simp add: se_bind_def set_result_def se_lift_def)
      show ?thesis
      proof (cases "k = field")
        case True
        with Cons.prems(2) have "k \<notin> set rest" by simp
        with set_fields_frame[OF step] True Some Inr show ?thesis by (simp add: update_conv')
      next
        case False
        with Cons.prems have "k \<in> set rest" "distinct rest" by simp_all
        with Cons.IH[OF step] show ?thesis by simp
      qed
    qed
  qed
qed

lemma set_fields_errors:
  "set_fields dp td fs st = (Inl e, st1) \<Longrightarrow> e = IndexError \<or> e = ValueError"
proof (induction fs arbitrary: st)
  case Nil
  then show ?case by (simp add: se_return_def)
next
  case (Cons field rest)
  then show ?case
    by (auto simp: se_bind_def se_lift_def set_result_def split: option.splits sum.splits
        dest: field_value_errors)
qed

lemma distinct_required: "distinct required"
  by (simp add: required_def)

lemma data_pattern_fixed:
  "map_of (data_pattern rt col) ''total'' = Some 0"
  "map_of (data_pattern rt col) ''unaligned'' = Some 1"
  "map_of (data_pattern rt col) ''aligned'' = Some 2"
  "map_of (data_pattern rt col) ''singleton_m1'' = Some 4"
  "\<exists>ix. map_of (data_pattern rt col) ''retained'' = Some ix"
  by (simp_all add: data_pattern_def update_conv' Let_def)

lemma set_fields_required_ints:
  assumes "set_fields (data_pattern rt col) td required st = (Inr (), st1)"
  shows "\<exists>tot aligned unaligned retained m1 m2.
           field_value td 0 = Inr tot \<and> field_value td 2 = Inr aligned \<and>
           map_of (result_data st1) ''total'' = Some (PyInt tot) \<and>
           map_of (result_data st1) ''aligned'' = Some (PyInt aligned) \<and>
           map_of (result_data st1) ''unaligned'' = Some (PyInt unaligned) \<and>
           map_of (result_data st1) ''retained'' = Some (PyInt retained) \<and>
           map_of (result_data st1) ''singleton_m1'' = Some (PyInt m1) \<and>
           map_of (result_data st1) ''singleton_m2'' = Some (PyInt m2)"
proof -
  note v = set_fields_values[OF assms distinct_required]
  have t: "\<exists>n. field_value td 0 = Inr n \<and> map_of (result_data st1) ''total'' = Some (PyInt n)"
    using v[of "''total''"] by (simp add: required_def data_pattern_fixed)
  have a: "\<exists>n. field_value td 2 = Inr n \<and> map_of (result_data st1) ''aligned'' = Some (PyInt n)"
    using v[of "''aligned''"] by (simp add: required_def data_pattern_fixed)
  have u: "\<exists>n. map_of (result_data st1) ''unaligned'' = Some (PyInt n)"
    using v[of "''unaligned''"] by (auto simp add: required_def data_pattern_fixed)
  have r: "\<exists>n. map_of (result_data st1) ''retained'' = Some (PyInt n)"
    using v[of "''retained''"] data_pattern_fixed(5)[of rt col] by (auto simp add: required_def)
  have m1: "\<exists>n. map_of (result_data st1) ''singleton_m1'' = Some (PyInt n)"
    using v[of "''singleton_m1''"] by (auto simp add: required_def data_pattern_fixed)
  have m2: "\<exists>n. map_of (result_data st1) ''singleton_m2'' = Some (PyInt n)"
    using v[of "''singleton_m2''"] by (auto simp add: required_def split: option.splits)
  from t a u r m1 m2 show ?thesis by blast
qed

lemma percent_value_outcome:
  "percent_value aligned tot = Inl OverflowError \<and> 2 ^ 1024 - 2 ^ 970 \<le> \<bar>aligned\<bar>
   \<or> percent_value aligned tot = Inl ZeroDivisionError
        \<and> \<bar>aligned\<bar> < 2 ^ 1024 - 2 ^ 970 \<and> tot = 0
   \<or> percent_value aligned tot = Inl OverflowError
        \<and> \<bar>aligned\<bar> < 2 ^ 1024 - 2 ^ 970 \<and> 2 ^ 1024 - 2 ^ 970 \<le> \<bar>tot\<bar>
   \<or> (\<exists>p. percent_value aligned tot = Inr p)
        \<and> \<bar>aligned\<bar> < 2 ^ 1024 - 2 ^ 970 \<and> tot \<noteq> 0 \<and> \<bar>tot\<bar> < 2 ^ 1024 - 2 ^ 970"
proof (cases "float_of_int aligned")
  case (Inl e)
  with float_of_int_errors[OF Inl] float_of_int_overflow[of aligned] show ?thesis
    by (simp add: percent_value_def)
next
  case fa: (Inr fa)
  with float_of_int_overflow[of aligned] have ra: "\<bar>aligned\<bar> < 2 ^ 1024 - 2 ^ 970"
    by (simp add: not_le[symmetric])
  show ?thesis
  proof (cases "float_of_int tot")
    case (Inl e)
    with float_of_int_errors[OF Inl] float_of_int_overflow[of tot] fa ra show ?thesis
      by (simp add: percent_value_def)
  next
    case ft: (Inr ft)
    with float_of_int_overflow[of tot] have rt: "\<bar>tot\<bar> < 2 ^ 1024 - 2 ^ 970"
      by (simp add: not_le[symmetric])
    show ?thesis
    proof (cases "tot = 0")
      case True
      with float_of_int_zero[OF ft] fa ft ra show ?thesis
        by (simp add: percent_value_def py_truediv_def)
    next
      case False
      with float_of_int_zero[OF ft] have nz: "\<not> fl_is_zero ft" by simp
      from py_round_after_div[of "fl_mul fa (Finite 100)" ft 2] obtain p where
        "py_round (fl_div (fl_mul fa (Finite 100)) ft) 2 = Inr p" by blast
      with fa ft nz have "percent_value aligned tot = Inr p"
        by (simp add: percent_value_def py_truediv_def)
      with ra rt False show ?thesis by blast
    qed
  qed
qed

lemma percent_value_errors:
  "percent_value aligned tot = Inl e \<Longrightarrow> e = OverflowError \<or> e = ZeroDivisionError"
  using percent_value_outcome[of aligned tot] by auto

lemma percent_value_zero_division:
  "percent_value aligned tot = Inl ZeroDivisionError \<Longrightarrow> tot = 0"
  using percent_value_outcome[of aligned tot] by auto

lemma percent_value_cases:
  "(case percent_value aligned tot of Inl e \<Rightarrow> Inl e | Inr p \<Rightarrow> Inr ()) =
     (if 2 ^ 1024 - 2 ^ 970 \<le> \<bar>aligned\<bar> then Inl OverflowError
      else if tot = 0 then Inl ZeroDivisionError
      else if 2 ^ 1024 - 2 ^ 970 \<le> \<bar>tot\<bar> then Inl OverflowError
      else Inr ())"
  using percent_value_outcome[of aligned tot] by (auto simp: not_le[symmetric])


lemma derive_stats_ints:
  assumes "map_of (result_data st) ''total'' = Some (PyInt tot)"
    and "map_of (result_data st) ''aligned'' = Some (PyInt aligned)"
    and "map_of (result_data st) ''unaligned'' = Some (PyInt unaligned)"
    and "map_of (result_data st) ''retained'' = Some (PyInt retained)"
    and "map_of (result_data st) ''singleton_m1'' = Some (PyInt m1)"
    and "map_of (result_data st) ''singleton_m2'' = Some (PyInt m2)"
    and "k = (if read_type st = Some ''paired'' then 2 else 1)"
  shows "derive_stats st =
    (case percent_value aligned tot of Inl e \<Rightarrow> Inl e | Inr p \<Rightarrow> Inr (),
     st\<lparr>result_data :=
       (case percent_value aligned tot of
          Inl e \<Rightarrow> id
        | Inr p \<Rightarrow> AList.update ''percent_aligned'' (PyFloat p))
       (AList.update ''retained_reads'' (PyInt (retained - m1 - m2))
       (AList.update ''discarded_total'' (PyInt (tot * k - retained))
       (AList.update ''reads_total'' (PyInt (tot * k))
       (AList.update ''unaligned_total'' (PyInt (unaligned * k))
       (AList.update ''aligned_total'' (PyInt (aligned * k)) (result_data st))))))\<rparr>)"
  using assms
  by (simp add: derive_stats_def doubled_totals_def se_bind_def get_result_def set_result_def
      dict_get_def se_lift_def se_return_def update_conv' percent_value_def
      split: sum.splits)

lemma set_trim_stat_unfold:
  "set_trim_stat td st =
     (case set_fields (data_pattern (read_type st) (collapsed st)) td required st of
        (Inl e, st1) \<Rightarrow> (Inl e, st1)
      | (Inr u, st1) \<Rightarrow> derive_stats st1)"
  by (simp add: set_trim_stat_def se_bind_def)

lemma set_trim_stat_after_fields:
  assumes "set_fields (data_pattern (read_type st) (collapsed st)) td required st = (Inr (), st1)"
  shows "\<exists>tot aligned.
           field_value td 0 = Inr tot \<and> field_value td 2 = Inr aligned \<and>
           fst (set_trim_stat td st) =
             (if 2 ^ 1024 - 2 ^ 970 \<le> \<bar>aligned\<bar> then Inl OverflowError
              else if tot = 0 then Inl ZeroDivisionError
              else if 2 ^ 1024 - 2 ^ 970 \<le> \<bar>tot\<bar> then Inl OverflowError
              else Inr ())"
proof -
  from set_fields_required_ints[OF assms] obtain tot aligned unaligned retained m1 m2 where
    f: "field_value td 0 = Inr tot" "field_value td 2 = Inr aligned" and
    m: "map_of (result_data st1) ''total'' = Some (PyInt tot)"
       "map_of (result_data st1) ''aligned'' = Some (PyInt aligned)"
       "map_of (result_data st1) ''unaligned'' = Some (PyInt unaligned)"
       "map_of (result_data st1) ''retained'' = Some (PyInt retained)"
       "map_of (result_data st1) ''singleton_m1'' = Some (PyInt m1)"
       "map_of (result_data st1) ''singleton_m2'' = Some (PyInt m2)"
    by blast
  have u: "set_trim_stat td st = derive_stats st1"
    by (simp add: set_trim_stat_unfold assms)
  have "fst (set_trim_stat td st) =
      (case percent_value aligned tot of Inl e \<Rightarrow> Inl e | Inr p \<Rightarrow> Inr ())"
    by (simp add: u derive_stats_ints[OF m refl])
  with f show ?thesis by (simp only: percent_value_cases) blast
qed

lemma set_trim_stat_no_zero_division:
  assumes "field_value td 0 \<noteq> Inr 0"
  shows "fst (set_trim_stat td st) \<noteq> Inl ZeroDivisionError"
proof -
  obtain r st1 where
    s: "set_fields (data_pattern (read_type st) (collapsed st)) td required st = (r, st1)"
    by (cases "set_fields (data_pattern (read_type st) (collapsed st)) td required st")
  show ?thesis
  proof (cases r)
    case (Inl e)
    with s set_fields_errors[of _ td required st e st1] show ?thesis
      by (auto simp: set_trim_stat_unfold)
  next
    case (Inr u)
    with s set_trim_stat_after_fields[of st td st1] assms show ?thesis
      by (auto split: if_splits)
  qed
qed

text \<open>
  Claim C8. \<open>set_trim_stat\<close> divides by the parsed total without a guard, and
  \<open>float()\<close> comes before the division. Once the required fields of the Trimming
  statistics section have been read, with \<open>tot\<close> the integer after \<open>': '\<close> on the
  first line of the section and \<open>aligned\<close> the one on the third: an aligned count
  of magnitude \<open>2^1024 - 2^970\<close> or more (beyond the double range) raises
  OverflowError, whatever the total; otherwise a total of 0 raises ZeroDivisionError;
  otherwise a total beyond the double range raises OverflowError, and every other total
  lets the method return. And whenever the total is not 0, or is not read at all,
  ZeroDivisionError is not what the method raises.
\<close>

theorem set_trim_stat_division:
  "(fst (set_fields (data_pattern (read_type st) (collapsed st)) trim_data required st) = Inr () \<longrightarrow>
      (\<exists>tot aligned.
         field_value trim_data 0 = Inr tot \<and> field_value trim_data 2 = Inr aligned \<and>
         fst (set_trim_stat trim_data st) =
           (if 2 ^ 1024 - 2 ^ 970 \<le> \<bar>aligned\<bar> then Inl OverflowError
            else if tot = 0 then Inl ZeroDivisionError
            else if 2 ^ 1024 - 2 ^ 970 \<le> \<bar>tot\<bar> then Inl OverflowError
            else Inr ())))
   \<and> (field_value trim_data 0 \<noteq> Inr 0 \<longrightarrow>
        fst (set_trim_stat trim_data st) \<noteq> Inl ZeroDivisionError)"
proof (intro conjI impI)
  assume "fst (set_fields (data_pattern (read_type st) (collapsed st)) trim_data required st) = Inr ()"
  then obtain st1 where
    "set_fields (data_pattern (read_type st) (collapsed st)) trim_data required st = (Inr (), st1)"
    by (cases "set_fields (data_pattern (read_type st) (collapsed st)) trim_data required st") simp
  from set_trim_stat_after_fields[OF this]
  show "\<exists>tot aligned.
         field_value trim_data 0 = Inr tot \<and> field_value trim_data 2 = Inr aligned \<and>
         fst (set_trim_stat trim_data st) =
           (if 2 ^ 1024 - 2 ^ 970 \<le> \<bar>aligned\<bar> then Inl OverflowError
            else if tot = 0 then Inl ZeroDivisionError
            else if 2 ^ 1024 - 2 ^ 970 \<le> \<bar>tot\<bar> then Inl OverflowError
            else Inr ())" .
next
  assume "field_value trim_data 0 \<noteq> Inr 0"
  then show "fst (set_trim_stat trim_data st) \<noteq> Inl ZeroDivisionError"
    by (rule set_trim_stat_no_zero_division)
qed

theorem set_trim_stat_division_witness:
  "fst (set_fields (data_pattern (read_type single_type) (collapsed single_type))
          zero_stats required single_type) = Inr ()
   \<and> field_value zero_stats 0 = Inr 0
   \<and> field_value zero_stats 2 = Inr 0
   \<and> fst (set_trim_stat zero_stats single_type) = Inl ZeroDivisionError
   \<and> fst (set_fields (data_pattern (read_type single_type) (collapsed single_type))
          (tl single_stats) required single_type) = Inr ()
   \<and> field_value (tl single_stats) 0 = Inr 1000
   \<and> field_value (tl single_stats) 2 = Inr 300
   \<and> fst (set_trim_stat (tl single_stats) single_type) = Inr ()
   \<and> fst (set_trim_stat (tl single_stats) single_type) \<noteq> Inl ZeroDivisionError"
proof -
  have h1: "fst (set_fields (data_pattern (read_type single_type) (collapsed single_type))
                   zero_stats required single_type) = Inr ()"
    by code_simp
  have h2: "field_value zero_stats 0 = Inr 0"
    by code_simp
  have h3: "field_value zero_stats 2 = Inr 0"
    by code_simp
  have g1: "fst (set_fields (data_pattern (read_type single_type) (collapsed single_type))
                   (tl single_stats) required single_type) = Inr ()"
    by code_simp
  have g2: "field_value (tl single_stats) 0 = Inr 1000"
    by code_simp
  have g3: "field_value (tl single_stats) 2 = Inr 300"
    by code_simp
  have g4: "field_value (tl single_stats) 0 \<noteq> Inr 0"
    by (simp add: g2)
  from set_trim_stat_division[of single_type zero_stats] h1 h2 h3
  have c1: "fst (set_trim_stat zero_stats single_type) = Inl ZeroDivisionError"
    by simp
  from set_trim_stat_division[of single_type "tl single_stats"] g1 g2 g3
  have c2: "fst (set_trim_stat (tl single_stats) single_type) = Inr ()"
    by simp
  from set_trim_stat_division[of single_type "tl single_stats"] g4
  have c3: "fst (set_trim_stat (tl single_stats) single_type) \<noteq> Inl ZeroDivisionError"
    by simp
  from h1 h2 h3 c1 g1 g2 g3 c2 c3 show ?thesis by (intro conjI)
qed

text \<open>
  The statement of claim C8 without the proviso on the aligned count fails: in a
  section whose total is 0 and whose aligned count is a 1 followed by 310 zeros,
  \<open>float()\<close> of the aligned count raises OverflowError before the division is reached.
\<close>

theorem overflow_before_division:
  "fst (set_fields (data_pattern (read_type single_type) (collapsed single_type))
          overflow_stats required single_type) = Inr ()
   \<and> field_value overflow_stats 0 = Inr 0
   \<and> fst (set_trim_stat overflow_stats single_type) = Inl OverflowError
   \<and> fst (set_trim_stat overflow_stats single_type) \<noteq> Inl ZeroDivisionError"
proof -
  obtain r st1 where s: "set_fields (data_pattern (read_type single_type) (collapsed single_type))
          overflow_stats required single_type = (r, st1)"
    by (cases "set_fields (data_pattern (read_type single_type) (collapsed single_type))
          overflow_stats required single_type")
  have h1: "fst (set_fields (data_pattern (read_type single_type) (collapsed single_type))
                   overflow_stats required single_type) = Inr ()"
    by code_simp
  with s have s': "set_fields (data_pattern (read_type single_type) (collapsed single_type))
          overflow_stats required single_type = (Inr (), st1)"
    by simp
  have h2: "field_value overflow_stats 0 = Inr 0"
    by code_simp
  have h3: "field_value overflow_stats 2 = Inr (10 ^ 310)"
    by code_simp
  from set_trim_stat_after_fields[OF s'] h2 h3
  have c: "fst (set_trim_stat overflow_stats single_type) = Inl OverflowError"
    by simp
  from h1 h2 c show ?thesis by simp
qed

lemma preserves_get_result: "preserves g (get_result k)"
  by (simp add: preserves_def get_result_def)

lemma preserves_set_result: "preserves but_result (set_result k v)"
  by (simp add: preserves_def set_result_def but_result_def)

lemma set_fields_preserves: "preserves but_result (set_fields dp td fs)"
  by (induction fs)
     (auto intro!: preserves_bind preserves_lift preserves_return preserves_set_result
        split: option.splits)



section \<open>AdapterRemoval: what parsing a file leaves unchanged\<close>

lemma plot_has_preserves: "preserves g (plot_has cat)"
  by (simp add: preserves_def plot_has_def split: sum.splits)

lemma plot_init_preserves: "preserves but_plot (plot_init cat)"
  by (simp add: preserves_def plot_init_def but_plot_def split: sum.splits)

lemma plot_store_preserves: "preserves but_plot (plot_store cat r v)"
  by (simp add: preserves_def plot_store_def but_plot_def split: sum.splits)

lemma store_col_preserves: "preserves but_plot (store_col cat r k)"
  unfolding store_col_def by (intro preserves_bind preserves_lift plot_store_preserves)

lemma init_sample_preserves: "preserves but_plot init_sample"
  unfolding init_sample_def by (intro preserves_bind plot_init_preserves)

lemma store_row_preserves: "preserves but_plot (store_row r)"
proof -
  have "preserves but_plot (store_single r)" "preserves but_plot (store_paired r)"
    "preserves but_plot (store_collapsed r)"
    unfolding store_single_def store_paired_def store_collapsed_def
    by (intro preserves_bind plot_store_preserves store_col_preserves)+
  then show ?thesis
    by (simp add: preserves_def store_row_def)
qed

lemma len_dist_row_preserves: "preserves but_plot (len_dist_row r)"
  unfolding len_dist_row_def
  by (intro preserves_bind preserves_ite preserves_return plot_has_preserves
      init_sample_preserves store_row_preserves)

lemma len_dist_rows_preserves: "preserves but_plot (len_dist_rows ls)"
  by (induction ls)
     (auto intro!: preserves_bind preserves_lift preserves_return len_dist_row_preserves)

lemma set_len_dist_preserves: "preserves but_plot (set_len_dist ld)"
  by (simp add: set_len_dist_def len_dist_rows_preserves)

lemma set_ar_type_success:
  assumes "set_ar_type ld st = (Inr (), st1)"
  shows "(read_type st1 = Some ''paired'' \<and> collapsed st1 \<noteq> None
           \<or> read_type st1 = Some ''single'' \<and> collapsed st1 = Some False)
         \<and> s_name st1 = s_name st \<and> result_data st1 = result_data st
         \<and> adapter_removal_data st1 = adapter_removal_data st
         \<and> len_dist_plot_data st1 = len_dist_plot_data st"
  using assms
  by (auto simp: set_ar_type_def se_bind_def se_lift_def se_modify_def
      split: sum.splits if_splits)

lemma parse_settings_file_success:
  assumes "parse_settings_file f st = (Inr rd, st')"
  shows "\<exists>sd ld td st1 st2.
           read_blocks (f_lines f) None [(''header'', [])] = Inr sd \<and>
           map_of sd ''Length distribution'' = Some ld \<and>
           map_of sd ''Trimming statistics'' = Some td \<and>
           set_ar_type ld (st\<lparr>result_data := empty_result\<rparr>) = (Inr (), st1) \<and>
           set_trim_stat td st1 = (Inr (), st2) \<and>
           set_len_dist ld st2 = (Inr (), st') \<and> rd = result_data st'"
  using assms
  unfolding parse_settings_file_def set_result_data_def
  by (auto simp: se_bind_Inr_iff se_modify_def se_lift_def dict_get_def split: option.splits)



lemma derive_stats_preserves: "preserves but_result derive_stats"
  unfolding derive_stats_def doubled_totals_def split_def
  by (intro preserves_bind preserves_lift preserves_return preserves_set_result
      preserves_get_result preserves_if preserves_pair)

lemma set_trim_stat_preserves: "preserves but_result (set_trim_stat td)"
  unfolding set_trim_stat_def
  by (intro preserves_bind set_fields_preserves derive_stats_preserves)
     (simp add: preserves_def)

lemma parse_preserves_data:
  "adapter_removal_data (snd (parse_settings_file f st)) = adapter_removal_data st
   \<and> s_name (snd (parse_settings_file f st)) = s_name st"
proof -
  let ?g = "\<lambda>st. (adapter_removal_data st, s_name st)"
  have w1: "preserves ?g m" if "preserves but_plot m" for m :: "('a, ar_module) se"
    using that by (auto simp: preserves_def but_plot_def)
  have w2: "preserves ?g m" if "preserves but_result m" for m :: "('a, ar_module) se"
    using that by (auto simp: preserves_def but_result_def)
  have a: "preserves ?g (set_ar_type ld)" for ld
    by (auto simp: preserves_def set_ar_type_def se_bind_def se_lift_def se_modify_def
        split: sum.splits)
  have "preserves ?g (parse_settings_file f)"
    unfolding parse_settings_file_def set_result_data_def
    by (intro preserves_bind preserves_lift preserves_pair a w1[OF set_len_dist_preserves]
        w2[OF set_trim_stat_preserves])
       (simp_all add: preserves_def se_modify_def)
  then show ?thesis
    by (simp add: preserves_def)
qed

section \<open>AdapterRemoval: which exceptions the methods raise\<close>

lemma dict_get_errors: "dict_get d k = Inl e \<Longrightarrow> e = KeyError"
  by (simp add: dict_get_def split: option.splits)

lemma py_index_errors: "py_index xs i = Inl e \<Longrightarrow> e = IndexError"
  by (simp add: py_index_def split: if_splits)

lemma row_ints_errors: "row_ints line = Inl e \<Longrightarrow> e = ValueError"
proof -
  have m: "map_int cols = Inl e \<Longrightarrow> e = ValueError" for cols
    by (induction cols) (auto simp: py_int_def Let_def split: sum.splits option.splits)
  show "row_ints line = Inl e \<Longrightarrow> e = ValueError"
    by (auto simp: row_ints_def py_split_def TAB_def split: sum.splits dest: m)
qed

lemma py_mul_errors: "py_mul v k = Inl e \<Longrightarrow> e = TypeError \<or> e = OverflowError"
  by (cases v) (auto split: sum.splits dest: float_of_int_errors)

lemma py_sub_errors: "py_sub a b = Inl e \<Longrightarrow> e = TypeError \<or> e = OverflowError"
  by (cases a; cases b) (auto split: sum.splits dest: float_of_int_errors)

lemma py_float_errors: "py_float v = Inl e \<Longrightarrow> e = TypeError \<or> e = OverflowError"
  by (cases v) (auto dest: float_of_int_errors)

lemma py_truediv_errors: "py_truediv a b = Inl e \<Longrightarrow> e = ZeroDivisionError"
  by (simp add: py_truediv_def split: if_splits)

lemma no_uw_lifts:
  "never_raises UserWarning (se_lift (dict_get d k) :: ('a, 's) se)"
  "never_raises UserWarning (se_lift (py_index xs i) :: ('b, 's) se)"
  "never_raises UserWarning (se_lift (row_ints line) :: (int list, 's) se)"
  "never_raises UserWarning (se_lift (field_value td ix) :: (int, 's) se)"
  "never_raises UserWarning (se_lift (py_mul v n) :: (pyval, 's) se)"
  "never_raises UserWarning (se_lift (py_sub a b) :: (pyval, 's) se)"
  "never_raises UserWarning (se_lift (py_float v) :: (double, 's) se)"
  "never_raises UserWarning (se_lift (py_truediv x y) :: (double, 's) se)"
  "never_raises UserWarning (se_lift (py_round x nd) :: (double, 's) se)"
  by (auto intro!: never_raises_lift
      dest: dict_get_errors py_index_errors row_ints_errors field_value_errors py_mul_errors
        py_sub_errors py_float_errors py_truediv_errors py_round_errors)

lemma no_uw_get_result: "never_raises UserWarning (get_result k)"
  by (auto simp: never_raises_def get_result_def dest: dict_get_errors)

lemma no_uw_set_result: "never_raises e (set_result k v)"
  by (simp add: never_raises_def set_result_def)

lemma no_uw_set_fields: "never_raises UserWarning (set_fields dp td fs)"
  by (induction fs)
     (auto intro!: never_raises_bind never_raises_return no_uw_lifts no_uw_set_result
        split: option.splits)

lemma no_uw_derive_stats: "never_raises UserWarning derive_stats"
  unfolding derive_stats_def doubled_totals_def split_def
  by (intro never_raises_bind never_raises_return never_raises_if never_raises_pair
      no_uw_lifts no_uw_get_result no_uw_set_result) simp

lemma no_uw_set_trim_stat: "never_raises UserWarning (set_trim_stat td)"
  unfolding set_trim_stat_def
  by (intro never_raises_bind no_uw_set_fields no_uw_derive_stats)
     (simp add: never_raises_def)

lemma no_uw_plot_has: "never_raises UserWarning (plot_has cat)"
  by (auto simp: never_raises_def plot_has_def split: sum.splits dest: dict_get_errors)

lemma no_uw_plot_init: "never_raises UserWarning (plot_init cat)"
  by (auto simp: never_raises_def plot_init_def split: sum.splits dest: dict_get_errors)

lemma no_uw_plot_store: "never_raises UserWarning (plot_store cat r v)"
  by (auto simp: never_raises_def plot_store_def split: sum.splits
      dest: dict_get_errors py_index_errors)

lemma no_uw_store_col: "never_raises UserWarning (store_col cat r k)"
  unfolding store_col_def by (intro never_raises_bind no_uw_lifts no_uw_plot_store)

lemma no_uw_store_row: "never_raises UserWarning (store_row r)"
proof -
  have "never_raises UserWarning (store_single r)" "never_raises UserWarning (store_paired r)"
    "never_raises UserWarning (store_collapsed r)"
    unfolding store_single_def store_paired_def store_collapsed_def
    by (intro never_raises_bind no_uw_plot_store no_uw_store_col)+
  then show ?thesis
    by (simp add: never_raises_def store_row_def)
qed

lemma no_uw_len_dist_row: "never_raises UserWarning (len_dist_row r)"
  unfolding len_dist_row_def init_sample_def
  by (intro never_raises_bind never_raises_ite never_raises_return
      no_uw_plot_has no_uw_plot_init no_uw_store_row)

lemma no_uw_len_dist_rows: "never_raises UserWarning (len_dist_rows ls)"
  by (induction ls)
     (auto intro!: never_raises_bind never_raises_return no_uw_lifts no_uw_len_dist_row)

lemma no_uw_set_len_dist: "never_raises UserWarning (set_len_dist ld)"
  by (simp add: set_len_dist_def no_uw_len_dist_rows)

lemma block_append_errors: "block_append sd t l = Inl e \<Longrightarrow> e = KeyError"
  by (auto simp: block_append_def split: sum.splits dest: dict_get_errors)

lemma read_blocks_errors: "read_blocks ls bt sd = Inl e \<Longrightarrow> e = KeyError"
  by (induction ls bt sd rule: read_blocks.induct)
     (auto simp: Let_def split: if_splits sum.splits dest: block_append_errors)

lemma fst_bind_raise:
  "(\<And>x. never_raises e (f x)) \<Longrightarrow> fst (se_bind m f st) = Inl e \<longleftrightarrow> fst (m st) = Inl e"
  by (auto simp: se_bind_def never_raises_def split: prod.splits sum.splits)

lemma set_ar_type_fst: "fst (set_ar_type ld st) = fst (set_ar_type ld st')"
  by (simp add: set_ar_type_def se_bind_def se_lift_def se_modify_def split: sum.splits)

lemma set_result_data_skip:
  "fst (set_result_data sd st) = Inl UserWarning \<longleftrightarrow>
     (\<exists>ld. map_of sd ''Length distribution'' = Some ld \<and>
           fst (set_ar_type ld ar_new) = Inl UserWarning)"
proof (cases "map_of sd ''Length distribution''")
  case None
  then show ?thesis
    by (simp add: set_result_data_def se_bind_def se_lift_def dict_get_def)
next
  case (Some ld)
  have "fst (set_result_data sd st) = Inl UserWarning \<longleftrightarrow>
        fst (set_ar_type ld st) = Inl UserWarning"
    unfolding set_result_data_def
    apply (subst se_bind_def)
    apply (simp add: se_lift_def dict_get_def[of sd "''Length distribution''"] Some)
    apply (rule fst_bind_raise)
    apply (intro never_raises_bind no_uw_lifts no_uw_set_trim_stat no_uw_set_len_dist
        never_raises_lift)
    apply simp
    done
  with Some set_ar_type_fst[of ld st ar_new] show ?thesis by simp
qed

lemma parse_skip_iff:
  "fst (parse_settings_file f st) = Inl UserWarning \<longleftrightarrow>
     (\<exists>ld. len_dist_section f = Some ld \<and> fst (set_ar_type ld ar_new) = Inl UserWarning)"
proof (cases "read_blocks (f_lines f) None [(''header'', [])]")
  case (Inl e)
  with read_blocks_errors[OF Inl] show ?thesis
    by (simp add: parse_settings_file_def se_bind_def se_modify_def se_lift_def
        len_dist_section_def)
next
  case (Inr sd)
  have "fst (parse_settings_file f st) = Inl UserWarning \<longleftrightarrow>
        fst (set_result_data sd (st\<lparr>result_data := empty_result\<rparr>)) = Inl UserWarning"
    unfolding parse_settings_file_def
    apply (subst se_bind_def)
    apply (simp add: se_modify_def Inr)
    apply (subst se_bind_def)
    apply (simp add: se_lift_def)
    apply (rule fst_bind_raise)
    apply (simp add: never_raises_def)
    done
  with Inr show ?thesis by (simp add: set_result_data_skip len_dist_section_def)
qed

lemma set_ar_type_raises:
  "fst (set_ar_type ld st) = Inl UserWarning \<Longrightarrow>
     len_dist_plot_data (snd (set_ar_type ld st)) = len_dist_plot_data st"
  by (auto simp: set_ar_type_def se_bind_def se_lift_def se_modify_def py_split_tab
      split: sum.splits if_splits dest: py_index_errors)

lemma parse_skip_plot:
  assumes "fst (parse_settings_file f st) = Inl UserWarning"
  shows "len_dist_plot_data (snd (parse_settings_file f st)) = len_dist_plot_data st"
proof -
  from assms[unfolded parse_skip_iff] obtain ld where
    l: "len_dist_section f = Some ld" and
    a: "fst (set_ar_type ld ar_new) = Inl UserWarning"
    by blast
  from l obtain sd where
    r: "read_blocks (f_lines f) None [(''header'', [])] = Inr sd" and
    m: "map_of sd ''Length distribution'' = Some ld"
    by (auto simp: len_dist_section_def split: sum.splits)
  let ?st0 = "st\<lparr>result_data := empty_result\<rparr>"
  from a set_ar_type_fst[of ld ?st0 ar_new]
  have a': "fst (set_ar_type ld ?st0) = Inl UserWarning" by simp
  obtain st1 where s: "set_ar_type ld ?st0 = (Inl UserWarning, st1)"
    using a' by (cases "set_ar_type ld ?st0") simp
  from set_ar_type_raises[OF a'] s have p: "len_dist_plot_data st1 = len_dist_plot_data st"
    by simp
  have "parse_settings_file f st = (Inl UserWarning, st1)"
    by (simp add: parse_settings_file_def set_result_data_def se_bind_def se_modify_def
        se_lift_def r m dict_get_def s)
  with p show ?thesis by simp
qed

text \<open>
  Claim C2. A settings file whose Length distribution header classifies the run as
  single-end (third column not \<open>Mate2\<close>) and collapsed (third column from the end
  \<open>CollapsedTruncated\<close>) makes \<open>parse_settings_file\<close> raise UserWarning, in whatever
  state the object is. The loop of \<open>__init__\<close> catches it and goes on with the next file,
  and the file has added nothing: the per-sample mapping \<open>adapter_removal_data\<close> and
  the length-distribution data are what they were before the file.
\<close>

theorem unsupported_file_skipped:
  assumes "len_dist_section f = Some (first # rest)"
    and "head_line = py_split_from [TAB] [] (py_rstrip [NL] first)"
    and "3 \<le> length head_line"
    and "head_line ! 2 \<noteq> ''Mate2''"
    and "head_line ! (length head_line - 3) = ''CollapsedTruncated''"
  shows "fst (parse_settings_file f st) = Inl UserWarning
       \<and> ar_files_loop (f # fs) parsed_data st =
           ar_files_loop fs parsed_data
             (snd (parse_settings_file f (st\<lparr>s_name := Some (f_s_name f)\<rparr>)))
       \<and> adapter_removal_data (snd (parse_settings_file f (st\<lparr>s_name := Some (f_s_name f)\<rparr>)))
           = adapter_removal_data st
       \<and> len_dist_plot_data (snd (parse_settings_file f (st\<lparr>s_name := Some (f_s_name f)\<rparr>)))
           = len_dist_plot_data st"
proof -
  have "fst (set_ar_type (first # rest) ar_new) = Inl UserWarning"
    using assms(2-5)
    by (simp add: set_ar_type_def py_index_def[of "first # rest"] py_split_tab
        py_index_2 py_index_m3 se_bind_def se_modify_def se_lift_def)
  with assms(1) have skip: "fst (parse_settings_file f s) = Inl UserWarning" for s
    unfolding parse_skip_iff by blast
  let ?s = "st\<lparr>s_name := Some (f_s_name f)\<rparr>"
  obtain st1 where p: "parse_settings_file f ?s = (Inl UserWarning, st1)"
    using skip[of ?s] by (cases "parse_settings_file f ?s") simp
  from parse_preserves_data[of f ?s] parse_skip_plot[OF skip, of ?s] p skip[of st]
  show ?thesis by simp
qed

theorem unsupported_file_skipped_witness:
  "len_dist_section example_unsupported =
     Some (py_rstrip [NL] unsupported_header
           # [py_rstrip [NL] (tab_line [''10'', ''7'', ''1'', ''1'', ''0'', ''9''])])
   \<and> 3 \<le> length (py_split_from [TAB] [] (py_rstrip [NL] (py_rstrip [NL] unsupported_header)))
   \<and> py_split_from [TAB] [] (py_rstrip [NL] (py_rstrip [NL] unsupported_header)) ! 2 \<noteq> ''Mate2''
   \<and> py_split_from [TAB] [] (py_rstrip [NL] (py_rstrip [NL] unsupported_header))
       ! (length (py_split_from [TAB] [] (py_rstrip [NL] (py_rstrip [NL] unsupported_header))) - 3)
       = ''CollapsedTruncated''
   \<and> fst (parse_settings_file example_unsupported ar_new) = Inl UserWarning
   \<and> ar_files_loop [example_unsupported, example_single] None ar_new =
       ar_files_loop [example_single] None
         (snd (parse_settings_file example_unsupported
                 (ar_new\<lparr>s_name := Some (f_s_name example_unsupported)\<rparr>)))
   \<and> adapter_removal_data
       (snd (parse_settings_file example_unsupported
               (ar_new\<lparr>s_name := Some (f_s_name example_unsupported)\<rparr>)))
       = adapter_removal_data ar_new
   \<and> len_dist_plot_data
       (snd (parse_settings_file example_unsupported
               (ar_new\<lparr>s_name := Some (f_s_name example_unsupported)\<rparr>)))
       = len_dist_plot_data ar_new"
proof -
  have h1: "len_dist_section example_unsupported =
     Some (py_rstrip [NL] unsupported_header
           # [py_rstrip [NL] (tab_line [''10'', ''7'', ''1'', ''1'', ''0'', ''9''])])"
    by code_simp
  have h3: "3 \<le> length (py_split_from [TAB] [] (py_rstrip [NL] (py_rstrip [NL] unsupported_header)))"
    by code_simp
  have h4: "py_split_from [TAB] [] (py_rstrip [NL] (py_rstrip [NL] unsupported_header)) ! 2
              \<noteq> ''Mate2''"
    by code_simp
  have h5: "py_split_from [TAB] [] (py_rstrip [NL] (py_rstrip [NL] unsupported_header))
       ! (length (py_split_from [TAB] [] (py_rstrip [NL] (py_rstrip [NL] unsupported_header))) - 3)
            = ''CollapsedTruncated''"
    by code_simp
  from h1 h3 h4 h5
    unsupported_file_skipped[OF h1 refl h3 h4 h5, of ar_new "[example_single]" None]
  show ?thesis by (intro conjI) simp_all
qed

section \<open>AdapterRemoval: the loop over the files\<close>

lemma ar_loop_all_skipped:
  "\<forall>f\<in>set files. fst (parse_settings_file f ar_new) = Inl UserWarning \<Longrightarrow>
     fst (ar_files_loop files pd st) = Inr () \<and>
     adapter_removal_data (snd (ar_files_loop files pd st)) = adapter_removal_data st"
proof (induction files arbitrary: st)
  case Nil
  then show ?case by simp
next
  case (Cons f fs)
  let ?s = "st\<lparr>s_name := Some (f_s_name f)\<rparr>"
  from Cons.prems have "fst (parse_settings_file f ar_new) = Inl UserWarning" by simp
  then have "fst (parse_settings_file f ?s) = Inl UserWarning"
    by (simp add: parse_skip_iff)
  then obtain st1 where p: "parse_settings_file f ?s = (Inl UserWarning, st1)"
    by (cases "parse_settings_file f ?s") simp
  from parse_preserves_data[of f ?s] p
  have d: "adapter_removal_data st1 = adapter_removal_data st" by simp
  from Cons.prems have "\<forall>f\<in>set fs. fst (parse_settings_file f ar_new) = Inl UserWarning"
    by simp
  from Cons.IH[OF this, of st1] p d show ?case by simp
qed

lemma ar_loop_never_skips_itself: "fst (ar_files_loop files pd st) \<noteq> Inl UserWarning"
  by (induction files pd st rule: ar_files_loop.induct)
     (auto split: prod.splits sum.splits)

lemma ar_loop_keeps_entries:
  "adapter_removal_data st \<noteq> [] \<Longrightarrow> adapter_removal_data (snd (ar_files_loop files pd st)) \<noteq> []"
proof (induction files arbitrary: pd st)
  case Nil
  then show ?case by simp
next
  case (Cons f fs)
  let ?s = "st\<lparr>s_name := Some (f_s_name f)\<rparr>"
  obtain r st1 where p: "parse_settings_file f ?s = (r, st1)"
    by (cases "parse_settings_file f ?s")
  from parse_preserves_data[of f ?s] p Cons.prems
  have d: "adapter_removal_data st1 \<noteq> []" by simp
  show ?case
  proof (cases r)
    case (Inl e)
    with p d Cons.IH[of st1 pd] show ?thesis
      by (cases "e = UserWarning") simp_all
  next
    case (Inr rd)
    with p Cons.IH[of "st1\<lparr>adapter_removal_data :=
                            AList.update (s_name st1) rd (adapter_removal_data st1)\<rparr>" "Some rd"]
    show ?thesis by simp
  qed
qed

lemma ar_loop_entry_of_parsed:
  "\<exists>f\<in>set files. fst (parse_settings_file f ar_new) \<noteq> Inl UserWarning \<Longrightarrow>
     fst (ar_files_loop files pd st) = Inr () \<Longrightarrow>
     adapter_removal_data (snd (ar_files_loop files pd st)) \<noteq> []"
proof (induction files arbitrary: pd st)
  case Nil
  then show ?case by simp
next
  case (Cons f fs)
  let ?s = "st\<lparr>s_name := Some (f_s_name f)\<rparr>"
  obtain r st1 where p: "parse_settings_file f ?s = (r, st1)"
    by (cases "parse_settings_file f ?s")
  show ?case
  proof (cases r)
    case (Inl e)
    show ?thesis
    proof (cases "e = UserWarning")
      case True
      with Inl p have "fst (parse_settings_file f ?s) = Inl UserWarning" by simp
      then have "fst (parse_settings_file f ar_new) = Inl UserWarning"
        by (simp add: parse_skip_iff)
      with Cons.prems(1)
      have ex: "\<exists>f\<in>set fs. fst (parse_settings_file f ar_new) \<noteq> Inl UserWarning"
        by auto
      from Cons.prems(2) p Inl True have "fst (ar_files_loop fs pd st1) = Inr ()" by simp
      from Cons.IH[OF ex this] p Inl True show ?thesis by simp
    next
      case False
      with Cons.prems(2) p Inl show ?thesis by simp
    qed
  next
    case (Inr rd)
    with p show ?thesis
      by (simp add: ar_loop_keeps_entries)
  qed
qed

lemma ar_init_skip_iff:
  "ar_init files = Inl UserWarning \<longleftrightarrow>
     (\<forall>f\<in>set files. fst (parse_settings_file f ar_new) = Inl UserWarning)"
proof
  assume "\<forall>f\<in>set files. fst (parse_settings_file f ar_new) = Inl UserWarning"
  from ar_loop_all_skipped[OF this, of None ar_new] show "ar_init files = Inl UserWarning"
    by (auto simp: ar_init_def ar_new_def split: prod.splits sum.splits)
next
  assume a: "ar_init files = Inl UserWarning"
  obtain r st where l: "ar_files_loop files None ar_new = (r, st)"
    by (cases "ar_files_loop files None ar_new")
  from ar_loop_never_skips_itself[of files None ar_new] l have "r \<noteq> Inl UserWarning" by simp
  with a l have ok: "r = Inr ()" and e: "adapter_removal_data st = []"
    by (auto simp: ar_init_def split: sum.splits if_splits)
  show "\<forall>f\<in>set files. fst (parse_settings_file f ar_new) = Inl UserWarning"
  proof (rule ccontr)
    assume "\<not> (\<forall>f\<in>set files. fst (parse_settings_file f ar_new) = Inl UserWarning)"
    then have "\<exists>f\<in>set files. fst (parse_settings_file f ar_new) \<noteq> Inl UserWarning" by blast
    from ar_loop_entry_of_parsed[OF this, of None ar_new] l ok e show False by simp
  qed
qed

section \<open>pycoQC\<close>


lemma py_getitem_errors:
  "py_getitem obj k = Inl e \<Longrightarrow> e = KeyError \<or> e = IndexError \<or> e = TypeError"
  by (cases "(obj, k)" rule: py_getitem.cases)
     (auto split: if_splits option.splits dest: py_index_errors
        simp: map_sum_def split: sum.splits)

lemma lookup_path_errors:
  "lookup_path obj ks = Inl e \<Longrightarrow> e = KeyError \<or> e = IndexError \<or> e = TypeError"
  by (induction ks arbitrary: obj) (auto split: sum.splits dest: py_getitem_errors)

lemma build_row_errors:
  "build_row doc fs = Inl e \<Longrightarrow> e = KeyError \<or> e = IndexError \<or> e = TypeError"
  by (induction fs) (auto split: sum.splits dest: lookup_path_errors)

lemma float_operand_errors: "float_operand v = Some (Inl e) \<Longrightarrow> e = OverflowError"
  by (auto simp: float_operand_def split: option.splits sum.splits dest: float_of_int_errors)

lemma py_arith_errors: "py_arith iop fop a b = Inl e \<Longrightarrow> e = TypeError \<or> e = OverflowError"
  by (auto simp: py_arith_def split: option.splits sum.splits dest: float_operand_errors)

lemma py_ysub_errors: "py_ysub a b = Inl e \<Longrightarrow> e = TypeError \<or> e = OverflowError"
  unfolding py_ysub_def by (rule py_arith_errors)

lemma split_counts_errors:
  "split_counts doc field p np = Inl e \<Longrightarrow>
     e = KeyError \<or> e = IndexError \<or> e = TypeError \<or> e = OverflowError"
  by (auto simp: split_counts_def split: sum.splits dest: lookup_path_errors py_ysub_errors)

lemma py_iter_errors: "py_iter x = Inl e \<Longrightarrow> e = TypeError"
  by (cases x) simp_all

lemma dict_of_pairs_errors: "dict_of_pairs acc ps = Inl e \<Longrightarrow> e = TypeError"
  by (induction acc ps rule: dict_of_pairs.induct) (auto split: if_splits)

lemma hist_plot_errors:
  "hist_plot doc branch h = Inl e \<Longrightarrow> e = KeyError \<or> e = IndexError \<or> e = TypeError"
  by (auto simp: hist_plot_def dict_zip_def split: sum.splits
      dest: lookup_path_errors py_iter_errors dict_of_pairs_errors)

lemma setup_sample_errors:
  "setup_sample doc = Inl e \<Longrightarrow>
     e = KeyError \<or> e = IndexError \<or> e = TypeError \<or> e = OverflowError"
  unfolding setup_sample_def
  by (auto split: sum.splits dest: build_row_errors split_counts_errors hist_plot_errors)

lemma setup_loop_errors:
  "setup_loop items m = Inl e \<Longrightarrow>
     e = KeyError \<or> e = IndexError \<or> e = TypeError \<or> e = OverflowError"
  by (induction items m rule: setup_loop.induct)
     (auto split: sum.splits dest: setup_sample_errors)

lemma pycoqc_loop_errors: "pycoqc_files_loop yl fs d = Inl e \<Longrightarrow> e = YAMLError"
  by (induction fs arbitrary: d) (auto simp: parse_logs_def split: sum.splits option.splits)

lemma pycoqc_loop_empty:
  "pycoqc_files_loop yl fs d = Inr d' \<Longrightarrow> d' = [] \<longleftrightarrow> fs = [] \<and> d = []"
  by (induction fs arbitrary: d) (auto split: sum.splits)

lemma pycoqc_init_skip_iff:
  "pycoqc_init yl fs = Inl UserWarning \<longleftrightarrow> pycoqc_files_loop yl fs [] = Inr []"
  by (auto simp: pycoqc_init_def setup_data_def split: sum.splits
      dest: pycoqc_loop_errors setup_loop_errors)

lemma pycoqc_init_skip_files: "pycoqc_init yl fs = Inl UserWarning \<longleftrightarrow> fs = []"
proof
  assume "pycoqc_init yl fs = Inl UserWarning"
  then have "pycoqc_files_loop yl fs [] = Inr []" by (simp add: pycoqc_init_skip_iff)
  from pycoqc_loop_empty[OF this] show "fs = []" by simp
next
  assume "fs = []"
  then show "pycoqc_init yl fs = Inl UserWarning" by (simp add: pycoqc_init_def)
qed

lemma pycoqc_loop_append:
  "pycoqc_files_loop yl (xs @ ys) d =
     (case pycoqc_files_loop yl xs d of Inl e \<Rightarrow> Inl e | Inr d1 \<Rightarrow> pycoqc_files_loop yl ys d1)"
  by (induction xs arbitrary: d) (auto split: sum.splits)

lemma pycoqc_loop_other:
  "pycoqc_files_loop yl fs d = Inr d' \<Longrightarrow> name \<notin> r_s_name ` set fs \<Longrightarrow>
     map_of d' name = map_of d name"
  by (induction fs arbitrary: d) (auto simp: update_conv' split: sum.splits)

lemma pycoqc_loop_keys:
  "pycoqc_files_loop yl fs d = Inr d' \<Longrightarrow> distinct (map fst d) \<Longrightarrow>
     distinct (map fst d') \<and> set (map fst d') = set (map fst d) \<union> r_s_name ` set fs"
proof (induction fs arbitrary: d)
  case Nil
  then show ?case by simp
next
  case (Cons f fs)
  from Cons.prems(1) obtain doc where
    p: "parse_logs yl (r_f f) = Inr doc" and
    l: "pycoqc_files_loop yl fs (AList.update (r_s_name f) doc d) = Inr d'"
    by (auto split: sum.splits)
  from Cons.prems(2) have "distinct (map fst (AList.update (r_s_name f) doc d))"
    by (simp add: distinct_update)
  from Cons.IH[OF l this] show ?case
    by (auto simp: dom_update)
qed

lemma pycoqc_loop_total:
  "(\<exists>d'. pycoqc_files_loop yl fs d = Inr d') \<longleftrightarrow> (\<forall>f\<in>set fs. yl (r_f f) \<noteq> None)"
  by (induction fs arbitrary: d) (auto simp: parse_logs_def split: sum.splits option.splits)

text \<open>
  Claim C10. When every discovered pycoQC file deserializes, the loop of \<open>__init__\<close>
  returns a mapping: a repeated sample name is not rejected. The mapping has one entry
  per sample name, its names are those of the files, and a sample's entry is the
  document of the last file processed under that name, so a later file replaces what an
  earlier file of the same name stored.
\<close>

theorem duplicate_sample_last_wins:
  assumes "\<forall>f\<in>set files. yaml_load (r_f f) \<noteq> None"
  shows "\<exists>d. pycoqc_files_loop yaml_load files [] = Inr d
           \<and> distinct (map fst d)
           \<and> set (map fst d) = r_s_name ` set files
           \<and> (\<forall>before f after.
                 files = before @ f # after \<and> r_s_name f \<notin> r_s_name ` set after
                 \<longrightarrow> map_of d (r_s_name f) = yaml_load (r_f f))"
proof -
  from assms pycoqc_loop_total[of yaml_load files "[]"] obtain d where
    d: "pycoqc_files_loop yaml_load files [] = Inr d"
    by blast
  from pycoqc_loop_keys[OF d] have k: "distinct (map fst d)" "set (map fst d) = r_s_name ` set files"
    by simp_all
  have "map_of d (r_s_name f) = yaml_load (r_f f)"
    if s: "files = before @ f # after" and n: "r_s_name f \<notin> r_s_name ` set after"
    for before f after
  proof -
    from d s obtain d1 where
      b: "pycoqc_files_loop yaml_load before [] = Inr d1" and
      r: "pycoqc_files_loop yaml_load (f # after) d1 = Inr d"
      by (auto simp: pycoqc_loop_append split: sum.splits)
    from r obtain doc where
      p: "yaml_load (r_f f) = Some doc" and
      a: "pycoqc_files_loop yaml_load after (AList.update (r_s_name f) doc d1) = Inr d"
      by (auto simp: parse_logs_def split: sum.splits option.splits)
    from pycoqc_loop_other[OF a n] p show ?thesis
      by (simp add: update_conv')
  qed
  with d k show ?thesis by blast
qed

theorem duplicate_sample_last_wins_witness:
  "example_load (r_f report_first) \<noteq> None
   \<and> example_load (r_f report_second) \<noteq> None
   \<and> r_s_name report_first = r_s_name report_second
   \<and> (\<exists>d. pycoqc_files_loop example_load [report_first, report_second] [] = Inr d
           \<and> distinct (map fst d)
           \<and> set (map fst d) = r_s_name ` set [report_first, report_second]
           \<and> (\<forall>before f after.
                 [report_first, report_second] = before @ f # after
                 \<and> r_s_name f \<notin> r_s_name ` set after
                 \<longrightarrow> map_of d (r_s_name f) = example_load (r_f f)))"
proof -
  have h: "\<forall>f\<in>set [report_first, report_second]. example_load (r_f f) \<noteq> None"
    by code_simp
  have n: "r_s_name report_first = r_s_name report_second"
    by code_simp
  from h have "example_load (r_f report_first) \<noteq> None"
    and "example_load (r_f report_second) \<noteq> None"
    by simp_all
  with n duplicate_sample_last_wins[OF h] show ?thesis by (intro conjI)
qed



lemma num_val_int: "int_val v = Some i \<Longrightarrow> num_val v = Some (Inl i)"
  by (cases v) simp_all

lemma py_ysub_value:
  assumes "int_val a = Some i" "int_val p = Some j"
  shows "py_ysub a p = Inr (YInt (i - j))" and "sums_to p (YInt (i - j)) a"
proof -
  show "py_ysub a p = Inr (YInt (i - j))"
    using assms by (simp add: py_ysub_def py_arith_def)
  have "py_yadd p (YInt (i - j)) = Inr (YInt i)"
    using assms by (simp add: py_yadd_def py_arith_def)
  then show "sums_to p (YInt (i - j)) a"
    using num_val_int[OF assms(1)] by (simp add: sums_to_def py_eq_def)
qed

lemma split_counts_value:
  "split_counts doc field pn npn = Inr r \<Longrightarrow> pn \<noteq> npn \<Longrightarrow>
     \<exists>a p d. lookup_path doc (basecall ''All Reads'' field) = Inr a \<and>
             lookup_path doc (basecall ''Pass Reads'' field) = Inr p \<and>
             map_of r pn = Some p \<and> map_of r npn = Some d \<and>
             py_ysub a p = Inr d \<and>
             (\<forall>i j. int_val a = Some i \<and> int_val p = Some j \<longrightarrow>
                d = YInt (i - j) \<and> sums_to p d a)"
  by (auto simp: split_counts_def py_ysub_value split: sum.splits)

lemma setup_sample_parts:
  "setup_sample doc = Inr out \<Longrightarrow>
     build_row doc table_fields = Inr (o_table out) \<and>
     split_counts doc ''reads_number'' ''passed_reads'' ''non_passed_reads'' = Inr (o_reads out) \<and>
     split_counts doc ''bases_number'' ''passed_bases'' ''non_passed_bases'' = Inr (o_bases out)"
  unfolding setup_sample_def by (auto split: sum.splits)

lemma setup_loop_other:
  "setup_loop items m = Inr m' \<Longrightarrow> sample \<notin> fst ` set items \<Longrightarrow>
     map_of (table_data m') sample = map_of (table_data m) sample \<and>
     map_of (reads_data m') sample = map_of (reads_data m) sample \<and>
     map_of (bases_data m') sample = map_of (bases_data m) sample"
  by (induction items m rule: setup_loop.induct)
     (auto simp: setup_store_def update_conv' split: sum.splits)

lemma setup_loop_data: "setup_loop items m = Inr m' \<Longrightarrow> pycoqc_data m' = pycoqc_data m"
  by (induction items m rule: setup_loop.induct)
     (auto simp: setup_store_def split: sum.splits)

lemma setup_loop_sample:
  "setup_loop items m = Inr m' \<Longrightarrow> distinct (map fst items) \<Longrightarrow> (sample, doc) \<in> set items \<Longrightarrow>
     \<exists>out. setup_sample doc = Inr out \<and>
           map_of (table_data m') sample = Some (o_table out) \<and>
           map_of (reads_data m') sample = Some (o_reads out) \<and>
           map_of (bases_data m') sample = Some (o_bases out)"
proof (induction items arbitrary: m)
  case Nil
  then show ?case by simp
next
  case (Cons a items)
  obtain s d where a: "a = (s, d)" by (cases a)
  from Cons.prems(1) a obtain out where
    o: "setup_sample d = Inr out" and l: "setup_loop items (setup_store s out m) = Inr m'"
    by (auto split: sum.splits)
  show ?case
  proof (cases "(sample, doc) = (s, d)")
    case True
    from Cons.prems(2) a have "s \<notin> fst ` set items" by (simp add: image_iff)
    from setup_loop_other[OF l this] True o show ?thesis
      by (auto simp: setup_store_def update_conv')
  next
    case False
    with Cons.prems(3) a have "(sample, doc) \<in> set items" by auto
    with Cons.IH[OF l] Cons.prems(2) show ?thesis by simp
  qed
qed

lemma pycoqc_init_sample:
  assumes "pycoqc_init yl fs = Inr m" and "map_of (pycoqc_data m) sample = Some doc"
  shows "\<exists>out. setup_sample doc = Inr out \<and>
           map_of (table_data m) sample = Some (o_table out) \<and>
           map_of (reads_data m) sample = Some (o_reads out) \<and>
           map_of (bases_data m) sample = Some (o_bases out)"
proof -
  from assms(1) obtain d where
    d: "pycoqc_files_loop yl fs [] = Inr d" and s: "setup_loop d (setup_new d) = Inr m"
    by (auto simp: pycoqc_init_def setup_data_def split: sum.splits if_splits)
  from setup_loop_data[OF s] have pd: "pycoqc_data m = d"
    by (simp add: setup_new_def)
  from pycoqc_loop_keys[OF d] have dist: "distinct (map fst d)" by simp
  from assms(2) pd have "(sample, doc) \<in> set d"
    by (simp add: map_of_SomeD)
  from setup_loop_sample[OF s dist this] show ?thesis .
qed


lemma example_module_built:
  "pycoqc_init example_load [report_first, report_second] = Inr example_module"
proof -
  have "\<not> isl (pycoqc_init example_load [report_first, report_second])"
    by code_simp
  then show ?thesis
    by (simp add: example_module_def)
qed

lemma example_module_run: "map_of (pycoqc_data example_module) ''run'' = Some (example_doc 2000 1500)"
  by code_simp



text \<open>
  Claim C9. For every sample, the entry of \<open>reads_data\<close> holds the \<open>'Pass Reads'\<close>
  count under \<open>passed_reads\<close> and under \<open>non_passed_reads\<close> the value of the
  subtraction \<open>All - Pass\<close> of the two counts. When both counts are integers (or
  booleans, which are integers to Python), \<open>non_passed_reads\<close> is their integer
  difference and \<open>passed_reads + non_passed_reads == All\<close> holds. The same is true of
  \<open>bases_data\<close>.
\<close>

theorem reads_and_bases_decompose:
  assumes "pycoqc_init yaml_load files = Inr m"
    and "map_of (pycoqc_data m) sample = Some doc"
  shows "\<exists>r b all_reads pass_reads rest_reads all_bases pass_bases rest_bases.
      map_of (reads_data m) sample = Some r
    \<and> lookup_path doc [YStr ''All Reads'', YStr ''basecall'', YStr ''reads_number''] = Inr all_reads
    \<and> lookup_path doc [YStr ''Pass Reads'', YStr ''basecall'', YStr ''reads_number''] = Inr pass_reads
    \<and> map_of r ''passed_reads'' = Some pass_reads
    \<and> map_of r ''non_passed_reads'' = Some rest_reads
    \<and> py_ysub all_reads pass_reads = Inr rest_reads
    \<and> (\<forall>i j. int_val all_reads = Some i \<and> int_val pass_reads = Some j \<longrightarrow>
           rest_reads = YInt (i - j) \<and> sums_to pass_reads rest_reads all_reads)
    \<and> map_of (bases_data m) sample = Some b
    \<and> lookup_path doc [YStr ''All Reads'', YStr ''basecall'', YStr ''bases_number''] = Inr all_bases
    \<and> lookup_path doc [YStr ''Pass Reads'', YStr ''basecall'', YStr ''bases_number''] = Inr pass_bases
    \<and> map_of b ''passed_bases'' = Some pass_bases
    \<and> map_of b ''non_passed_bases'' = Some rest_bases
    \<and> py_ysub all_bases pass_bases = Inr rest_bases
    \<and> (\<forall>i j. int_val all_bases = Some i \<and> int_val pass_bases = Some j \<longrightarrow>
           rest_bases = YInt (i - j) \<and> sums_to pass_bases rest_bases all_bases)"
proof -
  from pycoqc_init_sample[OF assms] obtain out where
    o: "setup_sample doc = Inr out" and
    r: "map_of (reads_data m) sample = Some (o_reads out)" and
    b: "map_of (bases_data m) sample = Some (o_bases out)"
    by blast
  from setup_sample_parts[OF o] have
    sr: "split_counts doc ''reads_number'' ''passed_reads'' ''non_passed_reads'' = Inr (o_reads out)" and
    sb: "split_counts doc ''bases_number'' ''passed_bases'' ''non_passed_bases'' = Inr (o_bases out)"
    by simp_all
  from split_counts_value[OF sr] obtain ar pr dr where
    vr: "lookup_path doc (basecall ''All Reads'' ''reads_number'') = Inr ar"
        "lookup_path doc (basecall ''Pass Reads'' ''reads_number'') = Inr pr"
        "map_of (o_reads out) ''passed_reads'' = Some pr"
        "map_of (o_reads out) ''non_passed_reads'' = Some dr"
        "py_ysub ar pr = Inr dr"
        "\<forall>i j. int_val ar = Some i \<and> int_val pr = Some j \<longrightarrow> dr = YInt (i - j) \<and> sums_to pr dr ar"
    by auto
  from split_counts_value[OF sb] obtain ab pb db where
    vb: "lookup_path doc (basecall ''All Reads'' ''bases_number'') = Inr ab"
        "lookup_path doc (basecall ''Pass Reads'' ''bases_number'') = Inr pb"
        "map_of (o_bases out) ''passed_bases'' = Some pb"
        "map_of (o_bases out) ''non_passed_bases'' = Some db"
        "py_ysub ab pb = Inr db"
        "\<forall>i j. int_val ab = Some i \<and> int_val pb = Some j \<longrightarrow> db = YInt (i - j) \<and> sums_to pb db ab"
    by auto
  show ?thesis
    apply (rule exI[of _ "o_reads out"], rule exI[of _ "o_bases out"],
           rule exI[of _ ar], rule exI[of _ pr], rule exI[of _ dr],
           rule exI[of _ ab], rule exI[of _ pb], rule exI[of _ db])
    by (intro conjI r b vr[unfolded basecall_def] vb[unfolded basecall_def])
qed

theorem reads_and_bases_decompose_witness:
  "pycoqc_init example_load [report_first, report_second] = Inr example_module
   \<and> map_of (pycoqc_data example_module) ''run'' = Some (example_doc 2000 1500)
   \<and> (\<exists>r b all_reads pass_reads rest_reads all_bases pass_bases rest_bases.
      map_of (reads_data example_module) ''run'' = Some r
    \<and> lookup_path (example_doc 2000 1500) [YStr ''All Reads'', YStr ''basecall'', YStr ''reads_number''] = Inr all_reads
    \<and> lookup_path (example_doc 2000 1500) [YStr ''Pass Reads'', YStr ''basecall'', YStr ''reads_number''] = Inr pass_reads
    \<and> map_of r ''passed_reads'' = Some pass_reads
    \<and> map_of r ''non_passed_reads'' = Some rest_reads
    \<and> py_ysub all_reads pass_reads = Inr rest_reads
    \<and> (\<forall>i j. int_val all_reads = Some i \<and> int_val pass_reads = Some j \<longrightarrow>
           rest_reads = YInt (i - j) \<and> sums_to pass_reads rest_reads all_reads)
    \<and> map_of (bases_data example_module) ''run'' = Some b
    \<and> lookup_path (example_doc 2000 1500) [YStr ''All Reads'', YStr ''basecall'', YStr ''bases_number''] = Inr all_bases
    \<and> lookup_path (example_doc 2000 1500) [YStr ''Pass Reads'', YStr ''basecall'', YStr ''bases_number''] = Inr pass_bases
    \<and> map_of b ''passed_bases'' = Some pass_bases
    \<and> map_of b ''non_passed_bases'' = Some rest_bases
    \<and> py_ysub all_bases pass_bases = Inr rest_bases
    \<and> (\<forall>i j. int_val all_bases = Some i \<and> int_val pass_bases = Some j \<longrightarrow>
           rest_bases = YInt (i - j) \<and> sums_to pass_bases rest_bases all_bases))
   \<and> lookup_path (example_doc 2000 1500) [YStr ''All Reads'', YStr ''basecall'', YStr ''reads_number''] = Inr (YInt 2000)
   \<and> lookup_path (example_doc 2000 1500) [YStr ''Pass Reads'', YStr ''basecall'', YStr ''reads_number''] = Inr (YInt 1500)
   \<and> map_of (reads_data example_module) ''run''
       = Some [(''passed_reads'', YInt 1500), (''non_passed_reads'', YInt 500)]
   \<and> sums_to (YInt 1500) (YInt 500) (YInt 2000)"
proof -
  have l1: "lookup_path (example_doc 2000 1500)
      [YStr ''All Reads'', YStr ''basecall'', YStr ''reads_number''] = Inr (YInt 2000)"
    by code_simp
  have l2: "lookup_path (example_doc 2000 1500)
      [YStr ''Pass Reads'', YStr ''basecall'', YStr ''reads_number''] = Inr (YInt 1500)"
    by code_simp
  have l3: "map_of (reads_data example_module) ''run''
       = Some [(''passed_reads'', YInt 1500), (''non_passed_reads'', YInt 500)]"
    by code_simp
  have l4: "sums_to (YInt 1500) (YInt 500) (YInt 2000)"
    by code_simp
  from example_module_built example_module_run
    reads_and_bases_decompose[OF example_module_built example_module_run] l1 l2 l3 l4
  show ?thesis by (intro conjI)
qed

text \<open>
  Without the restriction to integer counts the statement of claim C9 fails. In a
  report whose \<open>reads_number\<close> is 0.9 under \<open>'All Reads'\<close> and 0.2 under
  \<open>'Pass Reads'\<close>, \<open>non_passed_reads\<close> is the double \<open>0.9 - 0.2\<close>, which is 0.7
  rounded down, and \<open>passed_reads + non_passed_reads\<close> is the double below 0.9.
\<close>

theorem float_counts_do_not_sum:
  "\<not> isl (pycoqc_init float_load [report_float])
   \<and> map_of (pycoqc_data (projr (pycoqc_init float_load [report_float]))) ''run'' = Some float_doc
   \<and> lookup_path float_doc [YStr ''All Reads'', YStr ''basecall'', YStr ''reads_number'']
       = Inr (YFloat (Finite (8106479329266893 / 9007199254740992)))
   \<and> lookup_path float_doc [YStr ''Pass Reads'', YStr ''basecall'', YStr ''reads_number'']
       = Inr (YFloat (Finite (3602879701896397 / 18014398509481984)))
   \<and> map_of (reads_data (projr (pycoqc_init float_load [report_float]))) ''run''
       = Some [(''passed_reads'', YFloat (Finite (3602879701896397 / 18014398509481984))),
               (''non_passed_reads'', YFloat (Finite (3152519739159347 / 4503599627370496)))]
   \<and> py_yadd (YFloat (Finite (3602879701896397 / 18014398509481984)))
         (YFloat (Finite (3152519739159347 / 4503599627370496)))
       = Inr (YFloat (Finite (2026619832316723 / 2251799813685248)))
   \<and> \<not> sums_to (YFloat (Finite (3602879701896397 / 18014398509481984)))
         (YFloat (Finite (3152519739159347 / 4503599627370496)))
         (YFloat (Finite (8106479329266893 / 9007199254740992)))"
proof -
  have 1: "\<not> isl (pycoqc_init float_load [report_float])"
    by code_simp
  have 2: "map_of (pycoqc_data (projr (pycoqc_init float_load [report_float]))) ''run''
      = Some float_doc"
    by code_simp
  have 3: "lookup_path float_doc [YStr ''All Reads'', YStr ''basecall'', YStr ''reads_number'']
       = Inr (YFloat (Finite (8106479329266893 / 9007199254740992)))"
    by code_simp
  have 4: "lookup_path float_doc [YStr ''Pass Reads'', YStr ''basecall'', YStr ''reads_number'']
       = Inr (YFloat (Finite (3602879701896397 / 18014398509481984)))"
    by code_simp
  have 5: "map_of (reads_data (projr (pycoqc_init float_load [report_float]))) ''run''
       = Some [(''passed_reads'', YFloat (Finite (3602879701896397 / 18014398509481984))),
               (''non_passed_reads'', YFloat (Finite (3152519739159347 / 4503599627370496)))]"
    by code_simp
  have 6: "py_yadd (YFloat (Finite (3602879701896397 / 18014398509481984)))
         (YFloat (Finite (3152519739159347 / 4503599627370496)))
       = Inr (YFloat (Finite (2026619832316723 / 2251799813685248)))"
    by code_simp
  have 7: "\<not> sums_to (YFloat (Finite (3602879701896397 / 18014398509481984)))
         (YFloat (Finite (3152519739159347 / 4503599627370496)))
         (YFloat (Finite (8106479329266893 / 9007199254740992)))"
    by code_simp
  from 1 2 3 4 5 6 7 show ?thesis by (intro conjI)
qed

text \<open>
  Claim C1. \<open>__init__\<close> of the AdapterRemoval module raises UserWarning exactly when
  the loop over the discovered files ends with an empty \<open>adapter_removal_data\<close>, which
  is exactly when every file is one that \<open>parse_settings_file\<close> skips with UserWarning
  (in particular when there is no file). \<open>__init__\<close> of the pycoQC module raises
  UserWarning exactly when the loop ends with an empty \<open>pycoqc_data\<close>, which is
  exactly when no file was found. So when a sample is parsed, neither raises it.
\<close>

theorem nothing_to_report:
  "(ar_init files = Inl UserWarning \<longleftrightarrow>
      fst (ar_files_loop files None ar_new) = Inr () \<and>
      adapter_removal_data (snd (ar_files_loop files None ar_new)) = [])
   \<and> (ar_init files = Inl UserWarning \<longleftrightarrow>
        (\<forall>f\<in>set files. \<forall>st. fst (parse_settings_file f st) = Inl UserWarning))
   \<and> (pycoqc_init yaml_load reports = Inl UserWarning \<longleftrightarrow>
        pycoqc_files_loop yaml_load reports [] = Inr [])
   \<and> (pycoqc_init yaml_load reports = Inl UserWarning \<longleftrightarrow> reports = [])"
proof (intro conjI)
  show "ar_init files = Inl UserWarning \<longleftrightarrow>
      fst (ar_files_loop files None ar_new) = Inr () \<and>
      adapter_removal_data (snd (ar_files_loop files None ar_new)) = []"
    using ar_loop_never_skips_itself[of files None ar_new]
    by (auto simp: ar_init_def split: prod.splits sum.splits)
  have "fst (parse_settings_file f st) = Inl UserWarning \<longleftrightarrow>
        fst (parse_settings_file f ar_new) = Inl UserWarning" for f st
    by (simp add: parse_skip_iff)
  then show "ar_init files = Inl UserWarning \<longleftrightarrow>
        (\<forall>f\<in>set files. \<forall>st. fst (parse_settings_file f st) = Inl UserWarning)"
    unfolding ar_init_skip_iff by blast
  show "pycoqc_init yaml_load reports = Inl UserWarning \<longleftrightarrow>
        pycoqc_files_loop yaml_load reports [] = Inr []"
    by (rule pycoqc_init_skip_iff)
  show "pycoqc_init yaml_load reports = Inl UserWarning \<longleftrightarrow> reports = []"
    by (rule pycoqc_init_skip_files)
qed

theorem nothing_to_report_witness:
  "ar_init [example_unsupported] = Inl UserWarning
   \<and> (\<forall>st. fst (parse_settings_file example_unsupported st) = Inl UserWarning)
   \<and> fst (parse_settings_file example_single ar_new) \<noteq> Inl UserWarning
   \<and> ar_init [example_unsupported, example_single] \<noteq> Inl UserWarning
   \<and> pycoqc_init example_load [] = Inl UserWarning
   \<and> pycoqc_init example_load [report_first] \<noteq> Inl UserWarning"
proof -
  have w: "ar_init [example_unsupported] = Inl UserWarning"
    by code_simp
  have n: "fst (parse_settings_file example_single ar_new) \<noteq> Inl UserWarning"
    by code_simp
  from nothing_to_report[of "[example_unsupported]"] w
  have a: "\<forall>st. fst (parse_settings_file example_unsupported st) = Inl UserWarning"
    by simp
  from nothing_to_report[of "[example_unsupported, example_single]"] n
  have b: "ar_init [example_unsupported, example_single] \<noteq> Inl UserWarning"
    by auto
  from nothing_to_report[of "[]" example_load "[]", THEN conjunct2, THEN conjunct2, THEN conjunct2]
  have c: "pycoqc_init example_load [] = Inl UserWarning"
    by simp
  from nothing_to_report[of "[]" example_load "[report_first]",
      THEN conjunct2, THEN conjunct2, THEN conjunct2]
  have d: "pycoqc_init example_load [report_first] \<noteq> Inl UserWarning"
    by simp
  from w a n b c d show ?thesis by (intro conjI)
qed

section \<open>AdapterRemoval: the length distribution\<close>

lemma s_name_but_plot: "but_plot st1 = but_plot st \<Longrightarrow> s_name st1 = s_name st"
  by (simp add: but_plot_def)

lemma writes_plot_store: "writes (plot_store cat r v) cat (r ! 0) (Some v)"
  unfolding writes_def
proof (intro allI impI)
  fix st st1
  assume a: "plot_store cat r v st = (Inr (), st1)"
  then obtain bs h where
    b: "map_of (len_dist_plot_data st) cat = Some bs" and
    h: "map_of bs (s_name st) = Some h" and
    i: "py_index r 0 = Inr (r ! 0)" and
    s: "st1 = st\<lparr>len_dist_plot_data :=
          AList.update cat (AList.update (s_name st) (AList.update (r ! 0) v h) bs)
            (len_dist_plot_data st)\<rparr>"
    by (auto simp: plot_store_def dict_get_def py_index_def split: option.splits if_splits)
  have hist: "plot_hist st1 c = (if c = cat then Some (AList.update (r ! 0) v h) else plot_hist st c)" for c
    by (simp add: plot_hist_def s update_conv' b split: option.splits)
  have h0: "plot_hist st cat = Some h"
    by (simp add: plot_hist_def b h)
  show "Some v \<noteq> None \<and> but_plot st1 = but_plot st \<and>
        (\<forall>c L. plot_lookup st1 c L = (if c = cat \<and> L = r ! 0 then Some v else plot_lookup st c L)) \<and>
        (\<forall>c. plot_hist st c \<noteq> None \<longrightarrow> plot_hist st1 c \<noteq> None)"
    by (simp add: plot_lookup_def hist h0 update_conv') (simp add: s but_plot_def)
qed

lemma writes_store_col:
  "0 \<le> k \<Longrightarrow>
     writes (store_col cat r k) cat (r ! 0) (if nat k < length r then Some (r ! nat k) else None)"
  using writes_plot_store[of cat r "r ! nat k"]
  by (auto simp: writes_def store_col_def se_bind_def se_lift_def py_index_def split: if_splits)


lemma seven_writes:
  assumes "writes m1 c1 len v1" "writes m2 c2 len v2" "writes m3 c3 len v3" "writes m4 c4 len v4"
    "writes m5 c5 len v5" "writes m6 c6 len v6" "writes m7 c7 len v7"
    and "distinct [c1, c2, c3, c4, c5, c6, c7]"
    and "(se_bind m1 (\<lambda>_. se_bind m2 (\<lambda>_. se_bind m3 (\<lambda>_. se_bind m4 (\<lambda>_.
          se_bind m5 (\<lambda>_. se_bind m6 (\<lambda>_. m7))))))) st = (Inr (), st')"
  shows "but_plot st' = but_plot st"
    and "plot_lookup st' c1 len = v1 \<and> plot_lookup st' c2 len = v2 \<and> plot_lookup st' c3 len = v3 \<and>
         plot_lookup st' c4 len = v4 \<and> plot_lookup st' c5 len = v5 \<and> plot_lookup st' c6 len = v6 \<and>
         plot_lookup st' c7 len = v7"
    and "v1 \<noteq> None \<and> v2 \<noteq> None \<and> v3 \<noteq> None \<and> v4 \<noteq> None \<and> v5 \<noteq> None \<and> v6 \<noteq> None \<and> v7 \<noteq> None"
    and "L \<noteq> len \<Longrightarrow> plot_lookup st' c L = plot_lookup st c L"
    and "plot_hist st c \<noteq> None \<Longrightarrow> plot_hist st' c \<noteq> None"
proof -
  from assms(9) obtain s1 s2 s3 s4 s5 s6 where
    r: "m1 st = (Inr (), s1)" "m2 s1 = (Inr (), s2)" "m3 s2 = (Inr (), s3)" "m4 s3 = (Inr (), s4)"
       "m5 s4 = (Inr (), s5)" "m6 s5 = (Inr (), s6)" "m7 s6 = (Inr (), st')"
    by (auto simp: se_bind_Inr_iff)
  note w1 = assms(1)[unfolded writes_def, rule_format, OF r(1)]
  note w2 = assms(2)[unfolded writes_def, rule_format, OF r(2)]
  note w3 = assms(3)[unfolded writes_def, rule_format, OF r(3)]
  note w4 = assms(4)[unfolded writes_def, rule_format, OF r(4)]
  note w5 = assms(5)[unfolded writes_def, rule_format, OF r(5)]
  note w6 = assms(6)[unfolded writes_def, rule_format, OF r(6)]
  note w7 = assms(7)[unfolded writes_def, rule_format, OF r(7)]
  show "but_plot st' = but_plot st"
    using w1 w2 w3 w4 w5 w6 w7 by simp
  show "plot_lookup st' c1 len = v1 \<and> plot_lookup st' c2 len = v2 \<and> plot_lookup st' c3 len = v3 \<and>
         plot_lookup st' c4 len = v4 \<and> plot_lookup st' c5 len = v5 \<and> plot_lookup st' c6 len = v6 \<and>
         plot_lookup st' c7 len = v7"
    using assms(8) by (simp add: w1 w2 w3 w4 w5 w6 w7)
  show "v1 \<noteq> None \<and> v2 \<noteq> None \<and> v3 \<noteq> None \<and> v4 \<noteq> None \<and> v5 \<noteq> None \<and> v6 \<noteq> None \<and> v7 \<noteq> None"
    using w1 w2 w3 w4 w5 w6 w7 by simp
  show "L \<noteq> len \<Longrightarrow> plot_lookup st' c L = plot_lookup st c L"
    by (simp add: w1 w2 w3 w4 w5 w6 w7)
  show "plot_hist st c \<noteq> None \<Longrightarrow> plot_hist st' c \<noteq> None"
    using w1 w2 w3 w4 w5 w6 w7 by auto
qed


lemma store_col_value:
  "(if nat k < length r then Some (r ! nat k) else None) \<noteq> None \<longleftrightarrow> nat k < length r"
  by simp

lemma store_single_effect:
  assumes "store_single r st = (Inr (), st1)"
  shows "4 \<le> length r \<and> plot_lookup st1 ''mate1'' (r ! 0) = Some (r ! 1) \<and>
         plot_lookup st1 ''mate2'' (r ! 0) = Some 0 \<and>
         plot_lookup st1 ''singleton'' (r ! 0) = Some 0 \<and>
         plot_lookup st1 ''collapsed'' (r ! 0) = Some 0 \<and>
         plot_lookup st1 ''collapsed_truncated'' (r ! 0) = Some 0 \<and>
         plot_lookup st1 ''discarged'' (r ! 0) = Some (r ! 2) \<and>
         plot_lookup st1 ''all'' (r ! 0) = Some (r ! 3)"
    and "L \<noteq> r ! 0 \<Longrightarrow> plot_lookup st1 c L = plot_lookup st c L"
    and "plot_hist st c \<noteq> None \<Longrightarrow> plot_hist st1 c \<noteq> None"
proof -
  note w = seven_writes[OF writes_store_col[of 1] writes_plot_store writes_plot_store
      writes_plot_store writes_plot_store writes_store_col[of 2] writes_store_col[of 3] _
      assms[unfolded store_single_def]]
  from w(3) have n: "4 \<le> length r" by (simp split: if_splits)
  from w(2) n show "4 \<le> length r \<and> plot_lookup st1 ''mate1'' (r ! 0) = Some (r ! 1) \<and>
         plot_lookup st1 ''mate2'' (r ! 0) = Some 0 \<and>
         plot_lookup st1 ''singleton'' (r ! 0) = Some 0 \<and>
         plot_lookup st1 ''collapsed'' (r ! 0) = Some 0 \<and>
         plot_lookup st1 ''collapsed_truncated'' (r ! 0) = Some 0 \<and>
         plot_lookup st1 ''discarged'' (r ! 0) = Some (r ! 2) \<and>
         plot_lookup st1 ''all'' (r ! 0) = Some (r ! 3)"
    by simp
  show "L \<noteq> r ! 0 \<Longrightarrow> plot_lookup st1 c L = plot_lookup st c L"
    by (rule w(4)) simp_all
  show "plot_hist st c \<noteq> None \<Longrightarrow> plot_hist st1 c \<noteq> None"
    by (rule w(5)) simp_all
qed

lemma store_paired_effect:
  assumes "store_paired r st = (Inr (), st1)"
  shows "6 \<le> length r \<and> plot_lookup st1 ''mate1'' (r ! 0) = Some (r ! 1) \<and>
         plot_lookup st1 ''mate2'' (r ! 0) = Some (r ! 2) \<and>
         plot_lookup st1 ''singleton'' (r ! 0) = Some (r ! 3) \<and>
         plot_lookup st1 ''collapsed'' (r ! 0) = Some 0 \<and>
         plot_lookup st1 ''collapsed_truncated'' (r ! 0) = Some 0 \<and>
         plot_lookup st1 ''discarged'' (r ! 0) = Some (r ! 4) \<and>
         plot_lookup st1 ''all'' (r ! 0) = Some (r ! 5)"
    and "L \<noteq> r ! 0 \<Longrightarrow> plot_lookup st1 c L = plot_lookup st c L"
    and "plot_hist st c \<noteq> None \<Longrightarrow> plot_hist st1 c \<noteq> None"
proof -
  note w = seven_writes[OF writes_store_col[of 1] writes_store_col[of 2] writes_store_col[of 3]
      writes_plot_store writes_plot_store writes_store_col[of 4] writes_store_col[of 5] _
      assms[unfolded store_paired_def]]
  from w(3) have n: "6 \<le> length r" by (simp split: if_splits)
  from w(2) n show "6 \<le> length r \<and> plot_lookup st1 ''mate1'' (r ! 0) = Some (r ! 1) \<and>
         plot_lookup st1 ''mate2'' (r ! 0) = Some (r ! 2) \<and>
         plot_lookup st1 ''singleton'' (r ! 0) = Some (r ! 3) \<and>
         plot_lookup st1 ''collapsed'' (r ! 0) = Some 0 \<and>
         plot_lookup st1 ''collapsed_truncated'' (r ! 0) = Some 0 \<and>
         plot_lookup st1 ''discarged'' (r ! 0) = Some (r ! 4) \<and>
         plot_lookup st1 ''all'' (r ! 0) = Some (r ! 5)"
    by simp
  show "L \<noteq> r ! 0 \<Longrightarrow> plot_lookup st1 c L = plot_lookup st c L"
    by (rule w(4)) simp_all
  show "plot_hist st c \<noteq> None \<Longrightarrow> plot_hist st1 c \<noteq> None"
    by (rule w(5)) simp_all
qed

lemma store_collapsed_effect:
  assumes "store_collapsed r st = (Inr (), st1)"
  shows "8 \<le> length r \<and> plot_lookup st1 ''mate1'' (r ! 0) = Some (r ! 1) \<and>
         plot_lookup st1 ''mate2'' (r ! 0) = Some (r ! 2) \<and>
         plot_lookup st1 ''singleton'' (r ! 0) = Some (r ! 3) \<and>
         plot_lookup st1 ''collapsed'' (r ! 0) = Some (r ! 4) \<and>
         plot_lookup st1 ''collapsed_truncated'' (r ! 0) = Some (r ! 5) \<and>
         plot_lookup st1 ''discarged'' (r ! 0) = Some (r ! 6) \<and>
         plot_lookup st1 ''all'' (r ! 0) = Some (r ! 7)"
    and "L \<noteq> r ! 0 \<Longrightarrow> plot_lookup st1 c L = plot_lookup st c L"
    and "plot_hist st c \<noteq> None \<Longrightarrow> plot_hist st1 c \<noteq> None"
proof -
  note w = seven_writes[OF writes_store_col[of 1] writes_store_col[of 2] writes_store_col[of 3]
      writes_store_col[of 4] writes_store_col[of 5] writes_store_col[of 6] writes_store_col[of 7] _
      assms[unfolded store_collapsed_def]]
  from w(3) have n: "8 \<le> length r" by (simp split: if_splits)
  from w(2) n show "8 \<le> length r \<and> plot_lookup st1 ''mate1'' (r ! 0) = Some (r ! 1) \<and>
         plot_lookup st1 ''mate2'' (r ! 0) = Some (r ! 2) \<and>
         plot_lookup st1 ''singleton'' (r ! 0) = Some (r ! 3) \<and>
         plot_lookup st1 ''collapsed'' (r ! 0) = Some (r ! 4) \<and>
         plot_lookup st1 ''collapsed_truncated'' (r ! 0) = Some (r ! 5) \<and>
         plot_lookup st1 ''discarged'' (r ! 0) = Some (r ! 6) \<and>
         plot_lookup st1 ''all'' (r ! 0) = Some (r ! 7)"
    by simp
  show "L \<noteq> r ! 0 \<Longrightarrow> plot_lookup st1 c L = plot_lookup st c L"
    by (rule w(4)) simp_all
  show "plot_hist st c \<noteq> None \<Longrightarrow> plot_hist st1 c \<noteq> None"
    by (rule w(5)) simp_all
qed

lemma plot_lookup_hist: "plot_lookup st c L = Some v \<Longrightarrow> plot_hist st c \<noteq> None"
  by (auto simp: plot_lookup_def split: option.splits)

lemma store_row_effect:
  assumes run: "store_row r st = (Inr (), st1)"
    and mode: "read_type st = Some ''single'' \<longrightarrow> collapsed st \<noteq> Some True"
  shows "row_recorded st1 r"
    and "L \<noteq> r ! 0 \<Longrightarrow> plot_lookup st1 c L = plot_lookup st c L"
    and "plot_hist st1 ''mate1'' \<noteq> None"
proof -
  from preservesD[OF store_row_preserves run]
  have m: "read_type st1 = read_type st" "collapsed st1 = collapsed st"
    by (simp_all add: but_plot_def)
  consider (s) "read_type st = Some ''single''" "collapsed st \<noteq> Some True"
      "store_single r st = (Inr (), st1)"
    | (p) "read_type st \<noteq> Some ''single''" "collapsed st \<noteq> Some True"
      "store_paired r st = (Inr (), st1)"
    | (c) "read_type st \<noteq> Some ''single''" "collapsed st = Some True"
      "store_collapsed r st = (Inr (), st1)"
    using run mode by (auto simp: store_row_def split: if_splits)
  then have "row_recorded st1 r \<and> (L \<noteq> r ! 0 \<longrightarrow> plot_lookup st1 c L = plot_lookup st c L)
      \<and> plot_lookup st1 ''mate1'' (r ! 0) = Some (r ! 1)"
  proof cases
    case s
    from store_single_effect(1)[OF s(3)] store_single_effect(2)[OF s(3), of L c] s(1,2)
    show ?thesis by (simp add: row_recorded_def m)
  next
    case p
    from store_paired_effect(1)[OF p(3)] store_paired_effect(2)[OF p(3), of L c] p(1,2)
    show ?thesis by (simp add: row_recorded_def m)
  next
    case c
    from store_collapsed_effect(1)[OF c(3)] store_collapsed_effect(2)[OF c(3), of L c] c(1,2)
    show ?thesis by (simp add: row_recorded_def m)
  qed
  then show "row_recorded st1 r"
    and "L \<noteq> r ! 0 \<Longrightarrow> plot_lookup st1 c L = plot_lookup st c L"
    and "plot_hist st1 ''mate1'' \<noteq> None"
    by (auto dest: plot_lookup_hist)
qed

lemma plot_has_result:
  assumes "plot_has cat st = (Inr p, st1)"
  shows "st1 = st \<and> p = (plot_hist st cat \<noteq> None)"
proof (cases "map_of (len_dist_plot_data st) cat")
  case None
  with assms show ?thesis
    by (simp add: plot_has_def dict_get_def)
next
  case (Some bs)
  have "plot_hist st cat = map_of bs (s_name st)"
    by (simp add: plot_hist_def Some)
  moreover from assms Some have "st1 = st" "p = (s_name st \<in> fst ` set bs)"
    by (auto simp: plot_has_def dict_get_def)
  ultimately show ?thesis
    by (simp add: map_of_eq_None_iff)
qed

lemma len_dist_row_effect:
  assumes run: "len_dist_row r st = (Inr (), st1)"
    and mode: "read_type st = Some ''single'' \<longrightarrow> collapsed st \<noteq> Some True"
  shows "row_recorded st1 r"
    and "plot_hist st ''mate1'' \<noteq> None \<Longrightarrow> L \<noteq> r ! 0 \<Longrightarrow> plot_lookup st1 c L = plot_lookup st c L"
    and "plot_hist st1 ''mate1'' \<noteq> None"
proof -
  from run obtain p s0 si where
    ph: "plot_has ''mate1'' st = (Inr p, s0)" and
    i0: "(if \<not> p then init_sample else se_return ()) s0 = (Inr (), si)" and
    s: "store_row r si = (Inr (), st1)"
    by (auto simp: len_dist_row_def se_bind_Inr_iff)
  from plot_has_result[OF ph] have s0: "s0 = st" and p: "p = (plot_hist st ''mate1'' \<noteq> None)"
    by blast+
  have i: "(if plot_hist st ''mate1'' \<noteq> None then se_return () else init_sample) st = (Inr (), si)"
    using i0 unfolding s0 p by (cases "plot_hist st ''mate1''") simp_all
  have "but_plot si = but_plot st"
    using i preservesD[OF init_sample_preserves, of st _ si]
    by (auto simp: se_return_def split: if_splits)
  then have m: "read_type si = Some ''single'' \<longrightarrow> collapsed si \<noteq> Some True"
    using mode by (simp add: but_plot_def)
  from store_row_effect[OF s m] show "row_recorded st1 r" "plot_hist st1 ''mate1'' \<noteq> None"
    by simp_all
  assume "plot_hist st ''mate1'' \<noteq> None" "L \<noteq> r ! 0"
  with i have "si = st" by (simp add: se_return_def)
  with store_row_effect(2)[OF s m \<open>L \<noteq> r ! 0\<close>]
  show "plot_lookup st1 c L = plot_lookup st c L" by simp
qed

lemma len_dist_rows_cons:
  "len_dist_rows (l # ls) st = (Inr (), st1) \<longleftrightarrow>
     (\<exists>r s. row_ints l = Inr r \<and> len_dist_row r st = (Inr (), s) \<and>
            len_dist_rows ls s = (Inr (), st1))"
  by (auto simp: se_bind_Inr_iff se_lift_def)

lemma len_dist_rows_append:
  "len_dist_rows (xs @ ys) st = (Inr (), st1) \<longleftrightarrow>
     (\<exists>s. len_dist_rows xs st = (Inr (), s) \<and> len_dist_rows ys s = (Inr (), st1))"
proof (induction xs arbitrary: st)
  case Nil
  then show ?case by (simp add: se_return_def)
next
  case (Cons l ls)
  show ?case
    unfolding append_Cons len_dist_rows_cons Cons.IH by blast
qed

lemma row_recorded_length: "row_recorded st r \<Longrightarrow> r \<noteq> []"
  by (auto simp: row_recorded_def split: if_splits)

lemma row_length_first: "row_ints l = Inr r \<Longrightarrow> r \<noteq> [] \<Longrightarrow> row_length l = Some (r ! 0)"
  by (cases r) (simp_all add: row_length_def)

lemma len_dist_rows_keep:
  "len_dist_rows ls st = (Inr (), st1) \<Longrightarrow> plot_hist st ''mate1'' \<noteq> None \<Longrightarrow>
     read_type st = Some ''single'' \<longrightarrow> collapsed st \<noteq> Some True \<Longrightarrow>
     \<forall>l\<in>set ls. row_length l \<noteq> Some L \<Longrightarrow>
     plot_lookup st1 c L = plot_lookup st c L"
proof (induction ls arbitrary: st)
  case Nil
  then show ?case by (simp add: se_return_def)
next
  case (Cons l ls)
  from Cons.prems(1) obtain r s where
    r: "row_ints l = Inr r" and step: "len_dist_row r st = (Inr (), s)" and
    rest: "len_dist_rows ls s = (Inr (), st1)"
    unfolding len_dist_rows_cons by blast
  note e = len_dist_row_effect[OF step Cons.prems(3)]
  from row_length_first[OF r row_recorded_length[OF e(1)]] Cons.prems(4)
  have n: "L \<noteq> r ! 0" by auto
  from preservesD[OF len_dist_row_preserves step] Cons.prems(3)
  have m: "read_type s = Some ''single'' \<longrightarrow> collapsed s \<noteq> Some True"
    by (simp add: but_plot_def)
  from Cons.prems(4) have "\<forall>l\<in>set ls. row_length l \<noteq> Some L" by simp
  from Cons.IH[OF rest e(3) m this] e(2)[OF Cons.prems(2) n] show ?case by simp
qed

lemma row_recorded_cong:
  "but_plot st1 = but_plot st \<Longrightarrow> \<forall>c. plot_lookup st1 c (r ! 0) = plot_lookup st c (r ! 0) \<Longrightarrow>
     row_recorded st r \<Longrightarrow> row_recorded st1 r"
  by (simp add: row_recorded_def but_plot_def)

lemma len_dist_rows_recorded:
  assumes run: "len_dist_rows (before @ line # after) st = (Inr (), st1)"
    and mode: "read_type st = Some ''single'' \<longrightarrow> collapsed st \<noteq> Some True"
    and row: "row_ints line = Inr r"
    and last: "\<forall>l\<in>set after. row_length l \<noteq> Some (r ! 0)"
  shows "row_recorded st1 r"
proof -
  from run obtain sa where
    b: "len_dist_rows before st = (Inr (), sa)" and
    r: "len_dist_rows (line # after) sa = (Inr (), st1)"
    unfolding len_dist_rows_append by blast
  from r row obtain sb where
    step: "len_dist_row r sa = (Inr (), sb)" and a: "len_dist_rows after sb = (Inr (), st1)"
    unfolding len_dist_rows_cons by auto
  from preservesD[OF len_dist_rows_preserves b] mode
  have ma: "read_type sa = Some ''single'' \<longrightarrow> collapsed sa \<noteq> Some True"
    by (simp add: but_plot_def)
  note e = len_dist_row_effect[OF step ma]
  from preservesD[OF len_dist_row_preserves step] ma
  have mb: "read_type sb = Some ''single'' \<longrightarrow> collapsed sb \<noteq> Some True"
    by (simp add: but_plot_def)
  have "\<forall>c. plot_lookup st1 c (r ! 0) = plot_lookup sb c (r ! 0)"
    using len_dist_rows_keep[OF a e(3) mb last] by simp
  from row_recorded_cong[OF preservesD[OF len_dist_rows_preserves a] this e(1)]
  show ?thesis .
qed

lemma plot_keys_update:
  "map_of p cat = Some bs \<Longrightarrow> map fst (AList.update cat x p) = map fst p"
  by (simp add: update_keys map_of_eq_None_iff[symmetric] image_iff)
     (metis domI dom_map_of_conv_image_fst image_iff)

lemma plot_init_keys: "preserves (\<lambda>st. map fst (len_dist_plot_data st)) (plot_init cat)"
  by (auto simp: preserves_def plot_init_def dict_get_def plot_keys_update split: option.splits)

lemma plot_store_keys: "preserves (\<lambda>st. map fst (len_dist_plot_data st)) (plot_store cat r v)"
  by (auto simp: preserves_def plot_store_def dict_get_def plot_keys_update
      split: option.splits sum.splits)

lemma store_col_keys: "preserves (\<lambda>st. map fst (len_dist_plot_data st)) (store_col cat r k)"
  unfolding store_col_def by (intro preserves_bind preserves_lift plot_store_keys)

lemma store_row_keys: "preserves (\<lambda>st. map fst (len_dist_plot_data st)) (store_row r)"
proof -
  let ?g = "\<lambda>st. map fst (len_dist_plot_data st)"
  have "preserves ?g (store_single r)" "preserves ?g (store_paired r)"
    "preserves ?g (store_collapsed r)"
    unfolding store_single_def store_paired_def store_collapsed_def
    by (intro preserves_bind plot_store_keys store_col_keys)+
  then show ?thesis
    by (simp add: preserves_def store_row_def)
qed

lemma len_dist_rows_keys: "preserves (\<lambda>st. map fst (len_dist_plot_data st)) (len_dist_rows ls)"
proof (induction ls)
  case Nil
  show ?case by (simp add: preserves_return)
next
  case (Cons l ls)
  have "preserves (\<lambda>st. map fst (len_dist_plot_data st)) (len_dist_row r)" for r
    unfolding len_dist_row_def init_sample_def
    by (intro preserves_bind preserves_ite preserves_return plot_has_preserves
        plot_init_keys store_row_keys)
  with Cons show ?case
    by (auto intro!: preserves_bind preserves_lift)
qed

text \<open>
  Claim C4. Let \<open>parse_settings_file\<close> return a record for a file, on an object whose
  \<open>len_dist_plot_data\<close> has the categories \<open>__init__\<close> creates. Then the data still have
  exactly those seven categories, the discarded reads under the key the source spells
  \<open>discarged\<close>. Take any data row of the Length distribution section that is the last
  one for its read length (so every read length of the section is covered); \<open>r\<close> is the
  row as integers. Under that length the sample has an entry in each of the seven
  categories: for a single-end run mate1, discarded and all are columns 1, 2, 3 and the
  other four are 0; for a paired-end run without collapsing mate1, mate2, singleton,
  discarded and all are columns 1, 2, 3, 4, 5 and the two collapsed categories are 0; for
  a paired-end run with collapsing the seven categories are columns 1 to 7.
\<close>

theorem length_distribution_recorded:
  assumes ok: "fst (parse_settings_file f st) = Inr rd"
    and st': "st' = snd (parse_settings_file f st)"
    and keys: "map fst (len_dist_plot_data st) = map fst (len_dist_plot_data ar_new)"
    and sec: "len_dist_section f = Some (header # before @ line # after)"
    and row: "row_ints line = Inr r"
    and last: "\<forall>l\<in>set after. row_length l \<noteq> Some (r ! 0)"
  shows "map fst (len_dist_plot_data st') =
         [''mate1'', ''mate2'', ''singleton'', ''collapsed'', ''collapsed_truncated'',
          ''discarged'', ''all'']
     \<and> (read_type st' = Some ''single'' \<and> collapsed st' = Some False \<and>
          4 \<le> length r \<and>
          plot_lookup st' ''mate1'' (r ! 0) = Some (r ! 1) \<and>
          plot_lookup st' ''mate2'' (r ! 0) = Some 0 \<and>
          plot_lookup st' ''singleton'' (r ! 0) = Some 0 \<and>
          plot_lookup st' ''collapsed'' (r ! 0) = Some 0 \<and>
          plot_lookup st' ''collapsed_truncated'' (r ! 0) = Some 0 \<and>
          plot_lookup st' ''discarged'' (r ! 0) = Some (r ! 2) \<and>
          plot_lookup st' ''all'' (r ! 0) = Some (r ! 3)
        \<or> read_type st' = Some ''paired'' \<and> collapsed st' = Some False \<and>
          6 \<le> length r \<and>
          plot_lookup st' ''mate1'' (r ! 0) = Some (r ! 1) \<and>
          plot_lookup st' ''mate2'' (r ! 0) = Some (r ! 2) \<and>
          plot_lookup st' ''singleton'' (r ! 0) = Some (r ! 3) \<and>
          plot_lookup st' ''collapsed'' (r ! 0) = Some 0 \<and>
          plot_lookup st' ''collapsed_truncated'' (r ! 0) = Some 0 \<and>
          plot_lookup st' ''discarged'' (r ! 0) = Some (r ! 4) \<and>
          plot_lookup st' ''all'' (r ! 0) = Some (r ! 5)
        \<or> read_type st' = Some ''paired'' \<and> collapsed st' = Some True \<and>
          8 \<le> length r \<and>
          plot_lookup st' ''mate1'' (r ! 0) = Some (r ! 1) \<and>
          plot_lookup st' ''mate2'' (r ! 0) = Some (r ! 2) \<and>
          plot_lookup st' ''singleton'' (r ! 0) = Some (r ! 3) \<and>
          plot_lookup st' ''collapsed'' (r ! 0) = Some (r ! 4) \<and>
          plot_lookup st' ''collapsed_truncated'' (r ! 0) = Some (r ! 5) \<and>
          plot_lookup st' ''discarged'' (r ! 0) = Some (r ! 6) \<and>
          plot_lookup st' ''all'' (r ! 0) = Some (r ! 7))"
proof -
  from ok st' have ps: "parse_settings_file f st = (Inr rd, st')"
    by (cases "parse_settings_file f st") simp
  from parse_settings_file_success[OF ps] obtain sd ld td st1 st2 where
    rb: "read_blocks (f_lines f) None [(''header'', [])] = Inr sd" and
    ld: "map_of sd ''Length distribution'' = Some ld" and
    a: "set_ar_type ld (st\<lparr>result_data := empty_result\<rparr>) = (Inr (), st1)" and
    t: "set_trim_stat td st1 = (Inr (), st2)" and
    l: "set_len_dist ld st2 = (Inr (), st')"
    by blast
  from sec rb ld have "ld = header # before @ line # after"
    by (simp add: len_dist_section_def)
  with l have rows: "len_dist_rows (before @ line # after) st2 = (Inr (), st')"
    by (simp add: set_len_dist_def)
  note a1 = set_ar_type_success[OF a]
  from preservesD[OF set_trim_stat_preserves t]
  have b2: "read_type st2 = read_type st1" "collapsed st2 = collapsed st1"
    "len_dist_plot_data st2 = len_dist_plot_data st1"
    by (simp_all add: but_result_def)
  from preservesD[OF len_dist_rows_preserves rows]
  have b3: "read_type st' = read_type st2" "collapsed st' = collapsed st2"
    by (simp_all add: but_plot_def)
  from a1 b2 have mode: "read_type st2 = Some ''single'' \<longrightarrow> collapsed st2 \<noteq> Some True"
    by auto
  from len_dist_rows_recorded[OF rows mode row last] have rec: "row_recorded st' r" .
  from preservesD[OF len_dist_rows_keys rows] b2 a1 keys
  have k: "map fst (len_dist_plot_data st') =
         [''mate1'', ''mate2'', ''singleton'', ''collapsed'', ''collapsed_truncated'',
          ''discarged'', ''all'']"
    by (simp add: ar_new_def)
  from a1 b2 b3 have m: "read_type st' = Some ''single'' \<and> collapsed st' = Some False
      \<or> read_type st' = Some ''paired'' \<and> collapsed st' = Some False
      \<or> read_type st' = Some ''paired'' \<and> collapsed st' = Some True"
    by auto
  from m show ?thesis
  proof (elim disjE conjE)
    assume "read_type st' = Some ''single''" "collapsed st' = Some False"
    with rec k show ?thesis by (simp add: row_recorded_def)
  next
    assume "read_type st' = Some ''paired''" "collapsed st' = Some False"
    with rec k show ?thesis by (simp add: row_recorded_def)
  next
    assume "read_type st' = Some ''paired''" "collapsed st' = Some True"
    with rec k show ?thesis by (simp add: row_recorded_def)
  qed
qed

theorem length_distribution_recorded_witness:
  "fst (parse_settings_file example_paired paired_state) = Inr paired_result
   \<and> map fst (len_dist_plot_data paired_state) = map fst (len_dist_plot_data ar_new)
   \<and> len_dist_section example_paired =
     Some (py_rstrip [NL] paired_header
           # [py_rstrip [NL] paired_row_a] @ py_rstrip [NL] paired_row_b # [py_rstrip [NL] paired_row_c])
   \<and> row_ints (py_rstrip [NL] paired_row_b) = Inr ([10, 8, 6, 4, 0, 18] :: int list)
   \<and> row_length (py_rstrip [NL] paired_row_c) \<noteq> Some (([10, 8, 6, 4, 0, 18] :: int list) ! 0)
   \<and> map fst (len_dist_plot_data paired_parsed) =
         [''mate1'', ''mate2'', ''singleton'', ''collapsed'', ''collapsed_truncated'',
          ''discarged'', ''all'']
     \<and> (read_type paired_parsed = Some ''single'' \<and> collapsed paired_parsed = Some False \<and>
          4 \<le> length ([10, 8, 6, 4, 0, 18] :: int list) \<and>
          plot_lookup paired_parsed ''mate1'' (([10, 8, 6, 4, 0, 18] :: int list) ! 0) = Some (([10, 8, 6, 4, 0, 18] :: int list) ! 1) \<and>
          plot_lookup paired_parsed ''mate2'' (([10, 8, 6, 4, 0, 18] :: int list) ! 0) = Some 0 \<and>
          plot_lookup paired_parsed ''singleton'' (([10, 8, 6, 4, 0, 18] :: int list) ! 0) = Some 0 \<and>
          plot_lookup paired_parsed ''collapsed'' (([10, 8, 6, 4, 0, 18] :: int list) ! 0) = Some 0 \<and>
          plot_lookup paired_parsed ''collapsed_truncated'' (([10, 8, 6, 4, 0, 18] :: int list) ! 0) = Some 0 \<and>
          plot_lookup paired_parsed ''discarged'' (([10, 8, 6, 4, 0, 18] :: int list) ! 0) = Some (([10, 8, 6, 4, 0, 18] :: int list) ! 2) \<and>
          plot_lookup paired_parsed ''all'' (([10, 8, 6, 4, 0, 18] :: int list) ! 0) = Some (([10, 8, 6, 4, 0, 18] :: int list) ! 3)
        \<or> read_type paired_parsed = Some ''paired'' \<and> collapsed paired_parsed = Some False \<and>
          6 \<le> length ([10, 8, 6, 4, 0, 18] :: int list) \<and>
          plot_lookup paired_parsed ''mate1'' (([10, 8, 6, 4, 0, 18] :: int list) ! 0) = Some (([10, 8, 6, 4, 0, 18] :: int list) ! 1) \<and>
          plot_lookup paired_parsed ''mate2'' (([10, 8, 6, 4, 0, 18] :: int list) ! 0) = Some (([10, 8, 6, 4, 0, 18] :: int list) ! 2) \<and>
          plot_lookup paired_parsed ''singleton'' (([10, 8, 6, 4, 0, 18] :: int list) ! 0) = Some (([10, 8, 6, 4, 0, 18] :: int list) ! 3) \<and>
          plot_lookup paired_parsed ''collapsed'' (([10, 8, 6, 4, 0, 18] :: int list) ! 0) = Some 0 \<and>
          plot_lookup paired_parsed ''collapsed_truncated'' (([10, 8, 6, 4, 0, 18] :: int list) ! 0) = Some 0 \<and>
          plot_lookup paired_parsed ''discarged'' (([10, 8, 6, 4, 0, 18] :: int list) ! 0) = Some (([10, 8, 6, 4, 0, 18] :: int list) ! 4) \<and>
          plot_lookup paired_parsed ''all'' (([10, 8, 6, 4, 0, 18] :: int list) ! 0) = Some (([10, 8, 6, 4, 0, 18] :: int list) ! 5)
        \<or> read_type paired_parsed = Some ''paired'' \<and> collapsed paired_parsed = Some True \<and>
          8 \<le> length ([10, 8, 6, 4, 0, 18] :: int list) \<and>
          plot_lookup paired_parsed ''mate1'' (([10, 8, 6, 4, 0, 18] :: int list) ! 0) = Some (([10, 8, 6, 4, 0, 18] :: int list) ! 1) \<and>
          plot_lookup paired_parsed ''mate2'' (([10, 8, 6, 4, 0, 18] :: int list) ! 0) = Some (([10, 8, 6, 4, 0, 18] :: int list) ! 2) \<and>
          plot_lookup paired_parsed ''singleton'' (([10, 8, 6, 4, 0, 18] :: int list) ! 0) = Some (([10, 8, 6, 4, 0, 18] :: int list) ! 3) \<and>
          plot_lookup paired_parsed ''collapsed'' (([10, 8, 6, 4, 0, 18] :: int list) ! 0) = Some (([10, 8, 6, 4, 0, 18] :: int list) ! 4) \<and>
          plot_lookup paired_parsed ''collapsed_truncated'' (([10, 8, 6, 4, 0, 18] :: int list) ! 0) = Some (([10, 8, 6, 4, 0, 18] :: int list) ! 5) \<and>
          plot_lookup paired_parsed ''discarged'' (([10, 8, 6, 4, 0, 18] :: int list) ! 0) = Some (([10, 8, 6, 4, 0, 18] :: int list) ! 6) \<and>
          plot_lookup paired_parsed ''all'' (([10, 8, 6, 4, 0, 18] :: int list) ! 0) = Some (([10, 8, 6, 4, 0, 18] :: int list) ! 7))"
proof -
  have ok: "fst (parse_settings_file example_paired paired_state) = Inr paired_result"
    by code_simp
  have keys: "map fst (len_dist_plot_data paired_state) = map fst (len_dist_plot_data ar_new)"
    by code_simp
  have sec: "len_dist_section example_paired =
     Some (py_rstrip [NL] paired_header
           # [py_rstrip [NL] paired_row_a] @ py_rstrip [NL] paired_row_b # [py_rstrip [NL] paired_row_c])"
    by code_simp
  have row: "row_ints (py_rstrip [NL] paired_row_b) = Inr ([10, 8, 6, 4, 0, 18] :: int list)"
    by code_simp
  have l: "row_length (py_rstrip [NL] paired_row_c) \<noteq> Some (([10, 8, 6, 4, 0, 18] :: int list) ! 0)"
    by code_simp
  then have last: "\<forall>l\<in>set [py_rstrip [NL] paired_row_c]. row_length l \<noteq> Some (([10, 8, 6, 4, 0, 18] :: int list) ! 0)"
    by simp
  note c = length_distribution_recorded[OF ok paired_parsed_def keys sec row last]
  show ?thesis
    by (intro conjI ok keys sec row l conjunct1[OF c] conjunct2[OF c])
qed

section \<open>AdapterRemoval: two files with one sample name\<close>

text \<open>
  Claim C7 says that what is recorded for a sample depends on the file alone, whatever
  was processed before it. For the length distribution the code does otherwise. The
  entry of a sample is created only when the sample name is not yet in
  \<open>len_dist_plot_data\<close>, so a second file with the same sample name writes into the
  entry the first file left. \<open>example_first\<close> has a row for length 10 and
  \<open>example_second\<close> has none: processed alone, \<open>example_second\<close> leaves no count for
  length 10; processed after \<open>example_first\<close>, the sample still has the 7 mate-1 reads of
  length 10 of the first file next to the counts of the second. The trimming statistics
  of the sample are the same in both runs: there the second file replaces the first.
\<close>

theorem length_distribution_keeps_earlier_file:
  "f_s_name example_first = f_s_name example_second
   \<and> \<not> isl (ar_init [example_second])
   \<and> \<not> isl (ar_init [example_first, example_second])
   \<and> plot_lookup (projr (ar_init [example_second])) ''mate1'' 10 = None
   \<and> plot_lookup (projr (ar_init [example_first, example_second])) ''mate1'' 10 = Some 7
   \<and> plot_lookup (projr (ar_init [example_second])) ''mate1'' 20 = Some 9
   \<and> plot_lookup (projr (ar_init [example_first, example_second])) ''mate1'' 20 = Some 9
   \<and> adapter_removal_data (projr (ar_init [example_first, example_second]))
       = adapter_removal_data (projr (ar_init [example_second]))"
  by code_simp

end
